theory Spec2Isabelle
  imports Complex_Main "HOL-Library.AList"
begin

section \<open>Errors\<close>

text \<open>
  The Python exceptions the two modules can raise. A function that may raise returns
  \<open>error + 'a\<close>, with \<open>Inl\<close> for the exception. \<open>ScalarAccessError\<close> stands for the exception
  of pandas' scalar accessor \<open>.at\<close> when it is not given a single row; its Python class
  depends on the version of pandas.
\<close>

datatype error =
  KeyError | AssertionError | TypeError | IndexError | AttributeError | ScalarAccessError
  | ValueError | ZeroDivisionError | OSError

fun mapM :: "('a \<Rightarrow> error + 'b) \<Rightarrow> 'a list \<Rightarrow> error + 'b list" where
  "mapM f [] = Inr []"
| "mapM f (x # xs) =
     (case f x of Inl e \<Rightarrow> Inl e
      | Inr y \<Rightarrow> (case mapM f xs of Inl e \<Rightarrow> Inl e | Inr ys \<Rightarrow> Inr (y # ys)))"

fun foldM :: "('a \<Rightarrow> 's \<Rightarrow> error + 's) \<Rightarrow> 'a list \<Rightarrow> 's \<Rightarrow> error + 's" where
  "foldM f [] s = Inr s"
| "foldM f (x # xs) s = (case f x s of Inl e \<Rightarrow> Inl e | Inr s' \<Rightarrow> foldM f xs s')"

section \<open>Strings and pandas helpers\<close>

text \<open>Python's \<open>s.split(sep)\<close> for a one-character separator: never the empty list.\<close>

fun str_split :: "char \<Rightarrow> string \<Rightarrow> string list" where
  "str_split sep [] = [[]]"
| "str_split sep (c # cs) =
     (if c = sep then [] # str_split sep cs
      else (case str_split sep cs of [] \<Rightarrow> [[c]] | w # ws \<Rightarrow> (c # w) # ws))"

text \<open>Python's \<open>sep.join(ws)\<close>.\<close>

fun str_join :: "string \<Rightarrow> string list \<Rightarrow> string" where
  "str_join sep [] = []"
| "str_join sep [w] = w"
| "str_join sep (w # v # ws) = w @ sep @ str_join sep (v # ws)"

text \<open>Python's \<open>sub in s\<close> on strings.\<close>

fun str_contains :: "string \<Rightarrow> string \<Rightarrow> bool" where
  "str_contains sub [] = (sub = [])"
| "str_contains sub (c # cs) = (take (length sub) (c # cs) = sub \<or> str_contains sub cs)"

text \<open>
  \<open>Series.drop_duplicates()\<close> and \<open>Series.unique()\<close>: the first occurrence of every value,
  in the order of first appearance.
\<close>

fun drop_duplicates :: "'a list \<Rightarrow> 'a list" where
  "drop_duplicates [] = []"
| "drop_duplicates (x # xs) = x # drop_duplicates (filter (\<lambda>y. y \<noteq> x) xs)"

text \<open>
  \<open>DataFrame.round(n)\<close> on exact numbers: scale, round to the nearest integer with ties
  to the even one, scale back. Prices and emission factors are modelled as exact reals,
  so the binary rounding of Python floats is not part of the model.
\<close>

definition round_half_even :: "real \<Rightarrow> int" where
  "round_half_even x =
     (let f = \<lfloor>x\<rfloor>; d = x - of_int f
      in if d < 1 / 2 then f else if 1 / 2 < d then f + 1 else if even f then f else f + 1)"

definition np_round :: "nat \<Rightarrow> real \<Rightarrow> real" where
  "np_round n x = of_int (round_half_even (x * 10 ^ n)) / 10 ^ n"

section \<open>fuels.py\<close>

subsection \<open>Data\<close>

text \<open>A row of the fuel price table (\<open>fuel_costs\<close>, \<open>all_fuel_costs\<close>).\<close>

record price_row =
  fuel :: string
  year :: int
  full_fuel_name :: string
  price :: real

text \<open>A row of the generator roster; only its \<open>Fuel\<close> column is read.\<close>

record generator =
  Fuel :: string

text \<open>
  A row of \<open>fuel_df\<close>: the roster's fuel with the two columns \<open>fuel_cost_table\<close> adds.
  \<open>None\<close> is pandas' missing value (NaN), which every arithmetic operation propagates.
\<close>

record fuel_row = generator +
  Cost_per_MMBtu :: "real option"
  CO2_content_tons_per_MMBtu :: "real option"

text \<open>
  The keys of \<open>settings\<close> that fuels.py reads. A field is \<open>None\<close> when the key is absent
  from the dictionary: \<open>settings[k]\<close> then raises KeyError and \<open>settings.get(k)\<close> is None.
\<close>

record fuel_settings =
  model_year :: "int option"
  fuel_emission_factors :: "(string \<rightharpoonup> real) option"
  ccs_disposal_cost :: "real option"
  ccs_capture_rate :: "(string \<rightharpoonup> real) option"
  carbon_tax :: "real option"
  reduce_time_domain :: "bool option"
  time_domain_days_per_period :: "int option"
  time_domain_periods :: "int option"

text \<open>The result: column labels, the name of the index, and the rows with their labels.\<close>

record fuel_table =
  columns :: "string list"
  index_name :: string
  table_rows :: "(int \<times> real list) list"

subsection \<open>adjust_ccs_fuels (lines 86-104)\<close>

text \<open>Line 93: the last two underscore-delimited tokens of the fuel name, joined again.\<close>

definition capture_rate_key :: "string \<Rightarrow> string" where
  "capture_rate_key fuel_name =
     (let ts = str_split CHR ''_'' fuel_name in str_join ''_'' (drop (length ts - 2) ts))"

definition adjust_ccs_fuels :: "fuel_row \<Rightarrow> fuel_settings \<Rightarrow> error + fuel_row" where
  "adjust_ccs_fuels ccs_fuel_row settings =
     (if str_contains ''ccs'' (Fuel ccs_fuel_row) then
        (case ccs_disposal_cost settings of
           None \<Rightarrow> Inl KeyError
         | Some disposal_cost \<Rightarrow>
             (let base_fuel_name = capture_rate_key (Fuel ccs_fuel_row)
              in case ccs_capture_rate settings of
                   None \<Rightarrow> Inl KeyError
                 | Some rates \<Rightarrow>
                     (case rates base_fuel_name of
                        None \<Rightarrow> Inl KeyError
                      | Some capture_rate \<Rightarrow>
                          (let co2_captured =
                                 map_option (\<lambda>e. e * capture_rate)
                                   (CO2_content_tons_per_MMBtu ccs_fuel_row)
                           in Inr (ccs_fuel_row
                                \<lparr>CO2_content_tons_per_MMBtu :=
                                   (case (CO2_content_tons_per_MMBtu ccs_fuel_row, co2_captured) of
                                      (Some e, Some c) \<Rightarrow> Some (e - c) | _ \<Rightarrow> None),
                                 Cost_per_MMBtu :=
                                   (case (Cost_per_MMBtu ccs_fuel_row, co2_captured) of
                                      (Some p, Some c) \<Rightarrow> Some (p + c * disposal_cost)
                                    | _ \<Rightarrow> None)\<rparr>)))))
      else Inr ccs_fuel_row)"

text \<open>
  The function as a procedure on the row object it is given. Lines 98-99 assign into
  that object and line 104 returns it, so the caller's row and the returned row are one
  object: the result is the pair of what is returned (or raised) and the state of the
  caller's row after the call. The two lookups of lines 91 and 94 come before the
  assignments, so a call that raises leaves the row as it was.
\<close>

definition adjust_ccs_fuels_inplace ::
  "fuel_row \<Rightarrow> fuel_settings \<Rightarrow> (error + fuel_row) \<times> fuel_row" where
  "adjust_ccs_fuels_inplace ccs_fuel_row settings =
     (if str_contains ''ccs'' (Fuel ccs_fuel_row) then
        (case ccs_disposal_cost settings of
           None \<Rightarrow> (Inl KeyError, ccs_fuel_row)
         | Some disposal_cost \<Rightarrow>
             (let base_fuel_name = capture_rate_key (Fuel ccs_fuel_row)
              in case ccs_capture_rate settings of
                   None \<Rightarrow> (Inl KeyError, ccs_fuel_row)
                 | Some rates \<Rightarrow>
                     (case rates base_fuel_name of
                        None \<Rightarrow> (Inl KeyError, ccs_fuel_row)
                      | Some capture_rate \<Rightarrow>
                          (let co2_captured =
                                 map_option (\<lambda>e. e * capture_rate)
                                   (CO2_content_tons_per_MMBtu ccs_fuel_row);
                               row98 = ccs_fuel_row
                                 \<lparr>CO2_content_tons_per_MMBtu :=
                                    (case (CO2_content_tons_per_MMBtu ccs_fuel_row, co2_captured) of
                                       (Some e, Some c) \<Rightarrow> Some (e - c) | _ \<Rightarrow> None)\<rparr>;
                               row99 = row98
                                 \<lparr>Cost_per_MMBtu :=
                                    (case (Cost_per_MMBtu row98, co2_captured) of
                                       (Some p, Some c) \<Rightarrow> Some (p + c * disposal_cost)
                                     | _ \<Rightarrow> None)\<rparr>
                           in (Inr row99, row99)))))
      else (Inr ccs_fuel_row, ccs_fuel_row))"

subsection \<open>add_carbon_tax (lines 107-115)\<close>

definition add_carbon_tax :: "fuel_row list \<Rightarrow> fuel_settings \<Rightarrow> fuel_row list" where
  "add_carbon_tax fuel_df settings =
     (let ctax = (case carbon_tax settings of None \<Rightarrow> 0 | Some t \<Rightarrow> t)
      in map (\<lambda>r. r\<lparr>Cost_per_MMBtu :=
                      (case (Cost_per_MMBtu r, CO2_content_tons_per_MMBtu r) of
                         (Some p, Some e) \<Rightarrow> Some (p + e * ctax) | _ \<Rightarrow> None)\<rparr>) fuel_df)"

subsection \<open>fuel_cost_table (lines 11-80)\<close>

text \<open>
  Lines 19-22: the dictionary comprehension over the rows of the model year; a later row
  with the same full fuel name replaces an earlier one.
\<close>

definition fuel_price_lookup :: "price_row list \<Rightarrow> (string \<rightharpoonup> real)" where
  "fuel_price_lookup model_year_costs =
     fold (\<lambda>row m. m(full_fuel_name row \<mapsto> price row)) model_year_costs Map.empty"

text \<open>
  Lines 34-40: an emission factor for every key of the price lookup, found under the
  last underscore-delimited token of the name, 0 when \<open>emission_dict\<close> has none.
\<close>

definition fuel_emission_lookup ::
  "(string \<rightharpoonup> real) \<Rightarrow> (string \<rightharpoonup> real) \<Rightarrow> (string \<rightharpoonup> real)" where
  "fuel_emission_lookup fuel_price_map emission_dict =
     (\<lambda>full_fuel_name.
        case fuel_price_map full_fuel_name of
          None \<Rightarrow> None
        | Some _ \<Rightarrow>
            (let base_fuel_name = last (str_split CHR ''_'' full_fuel_name)
             in case emission_dict base_fuel_name of Some e \<Rightarrow> Some e | None \<Rightarrow> Some 0))"

text \<open>Line 45: the name of a CCS fuel without its last underscore-delimited token.\<close>

definition ccs_base_name :: "string \<Rightarrow> string" where
  "ccs_base_name ccs_fuel = str_join ''_'' (butlast (str_split CHR ''_'' ccs_fuel))"

text \<open>
  Lines 45-47, the body of the loop over the CCS fuels: both lookups get an entry for
  the CCS fuel, copied from the entry of its base name; a base name without an entry
  raises KeyError. The state is the pair of the two dictionaries.
\<close>

definition ccs_step ::
  "string \<Rightarrow> (string \<rightharpoonup> real) \<times> (string \<rightharpoonup> real)
     \<Rightarrow> error + ((string \<rightharpoonup> real) \<times> (string \<rightharpoonup> real))" where
  "ccs_step ccs_fuel maps =
     (case maps of (fuel_price_map, fuel_emission_map) \<Rightarrow>
        (let base_name = ccs_base_name ccs_fuel
         in case fuel_price_map base_name of
              None \<Rightarrow> Inl KeyError
            | Some p \<Rightarrow>
                (case fuel_emission_map base_name of
                   None \<Rightarrow> Inl KeyError
                 | Some e \<Rightarrow>
                     Inr (fuel_price_map(ccs_fuel \<mapsto> p), fuel_emission_map(ccs_fuel \<mapsto> e)))))"

text \<open>Line 42: the roster's distinct fuels whose name contains "ccs", in roster order.\<close>

definition ccs_fuels_of :: "'a generator_scheme list \<Rightarrow> string list" where
  "ccs_fuels_of generators =
     drop_duplicates (filter (str_contains ''ccs'') (map Fuel generators))"

text \<open>Line 57: \<open>fillna(0)\<close> on a numeric cell.\<close>

definition fillna0 :: "real option \<Rightarrow> real" where
  "fillna0 v = (case v of None \<Rightarrow> 0 | Some x \<Rightarrow> x)"

text \<open>Lines 59-64.\<close>

definition num_hours :: "fuel_settings \<Rightarrow> error + int" where
  "num_hours settings =
     (if reduce_time_domain settings = Some True then
        (case time_domain_days_per_period settings of
           None \<Rightarrow> Inl KeyError
         | Some days \<Rightarrow>
             (case time_domain_periods settings of
                None \<Rightarrow> Inl KeyError
              | Some time_periods \<Rightarrow> Inr (days * time_periods * 24)))
      else Inr 8760)"

text \<open>
  Lines 12-47: the price and the emission lookup as they are after the loop over the CCS
  fuels. \<open>add_user_fuel_prices\<close> belongs to another module and is a parameter here. The
  warnings of lines 25-33 only write to the log and are left out.
\<close>

definition fuel_lookups ::
  "(fuel_settings \<Rightarrow> price_row list \<Rightarrow> price_row list) \<Rightarrow> price_row list
     \<Rightarrow> 'a generator_scheme list \<Rightarrow> fuel_settings
     \<Rightarrow> error + ((string \<rightharpoonup> real) \<times> (string \<rightharpoonup> real))" where
  "fuel_lookups add_user_fuel_prices fuel_costs generators settings =
     (let all_fuel_costs = add_user_fuel_prices settings fuel_costs
      in case model_year settings of
           None \<Rightarrow> Inl KeyError
         | Some my \<Rightarrow>
             (let model_year_costs = filter (\<lambda>row. year row = my) all_fuel_costs;
                  fuel_price_map = fuel_price_lookup model_year_costs
              in case fuel_emission_factors settings of
                   None \<Rightarrow> Inl KeyError
                 | Some emission_dict \<Rightarrow>
                     foldM ccs_step (ccs_fuels_of generators)
                       (fuel_price_map, fuel_emission_lookup fuel_price_map emission_dict)))"

text \<open>
  Lines 12-53: \<open>fuel_df\<close> after the CCS adjustment, with one row for each distinct roster
  fuel.
\<close>

definition ccs_adjusted_df ::
  "(fuel_settings \<Rightarrow> price_row list \<Rightarrow> price_row list) \<Rightarrow> price_row list
     \<Rightarrow> 'a generator_scheme list \<Rightarrow> fuel_settings \<Rightarrow> error + fuel_row list" where
  "ccs_adjusted_df add_user_fuel_prices fuel_costs generators settings =
     (let unique_fuels = drop_duplicates (map Fuel generators)
      in case fuel_lookups add_user_fuel_prices fuel_costs generators settings of
           Inl e \<Rightarrow> Inl e
         | Inr (price_map, emission_map) \<Rightarrow>
             mapM (\<lambda>r. adjust_ccs_fuels r settings)
               (map (\<lambda>f. \<lparr>Fuel = f, Cost_per_MMBtu = price_map f,
                           CO2_content_tons_per_MMBtu = emission_map f\<rparr>)
                  unique_fuels))"

text \<open>Lines 12-56: \<open>fuel_df\<close> with the carbon tax, as it is before \<open>fillna\<close>.\<close>

definition fuel_df_of ::
  "(fuel_settings \<Rightarrow> price_row list \<Rightarrow> price_row list) \<Rightarrow> price_row list
     \<Rightarrow> 'a generator_scheme list \<Rightarrow> fuel_settings \<Rightarrow> error + fuel_row list" where
  "fuel_df_of add_user_fuel_prices fuel_costs generators settings =
     (case ccs_adjusted_df add_user_fuel_prices fuel_costs generators settings of
        Inl e \<Rightarrow> Inl e
      | Inr fuel_df \<Rightarrow> Inr (add_carbon_tax fuel_df settings))"

text \<open>
  Lines 57-80. The one price row is repeated for every label of \<open>range(1, num_hours + 1)\<close>;
  the emission row gets the label 0 and comes first.
\<close>

definition fuel_cost_table ::
  "(fuel_settings \<Rightarrow> price_row list \<Rightarrow> price_row list) \<Rightarrow> price_row list
     \<Rightarrow> 'a generator_scheme list \<Rightarrow> fuel_settings \<Rightarrow> error + fuel_table" where
  "fuel_cost_table add_user_fuel_prices fuel_costs generators settings =
     (case fuel_df_of add_user_fuel_prices fuel_costs generators settings of
        Inl e \<Rightarrow> Inl e
      | Inr fuel_df \<Rightarrow>
          (case num_hours settings of
             Inl e \<Rightarrow> Inl e
           | Inr n \<Rightarrow>
               Inr \<lparr>columns = drop_duplicates (map Fuel generators),
                    index_name = ''Time_Index'',
                    table_rows =
                      (0, map (\<lambda>r. np_round 5 (fillna0 (CO2_content_tons_per_MMBtu r))) fuel_df)
                      # map (\<lambda>h. (h, map (\<lambda>r. np_round 2 (fillna0 (Cost_per_MMBtu r))) fuel_df))
                          [1..n]\<rparr>))"

text \<open>
  Lines 49-50 for one fuel: the price and the emission factor that \<open>fuel_df\<close> holds for it
  before the CCS adjustment, read from the two lookups as they are after the loop over
  the CCS fuels.
\<close>

definition pre_adjustment_values ::
  "(fuel_settings \<Rightarrow> price_row list \<Rightarrow> price_row list) \<Rightarrow> price_row list
     \<Rightarrow> 'a generator_scheme list \<Rightarrow> fuel_settings \<Rightarrow> string
     \<Rightarrow> error + (real option \<times> real option)" where
  "pre_adjustment_values add_user_fuel_prices fuel_costs generators settings fuel_name =
     (case fuel_lookups add_user_fuel_prices fuel_costs generators settings of
        Inl e \<Rightarrow> Inl e
      | Inr (price_map, emission_map) \<Rightarrow> Inr (price_map fuel_name, emission_map fuel_name))"

subsection \<open>A worked example\<close>

text \<open>
  Natural gas at 3.00 with emission factor 0.053, its CCS variant with capture rate 0.9
  and disposal cost 10, a carbon tax of 5, and a reduced time domain of 4 periods of 7 days.
\<close>

definition example_settings :: fuel_settings where
  "example_settings =
     \<lparr>model_year = Some 2030,
      fuel_emission_factors = Some [''NG'' \<mapsto> 0.053],
      ccs_disposal_cost = Some 10,
      ccs_capture_rate = Some [''NG_ccs'' \<mapsto> 0.9],
      carbon_tax = Some 5,
      reduce_time_domain = Some True,
      time_domain_days_per_period = Some 7,
      time_domain_periods = Some 4\<rparr>"

definition example_fuel_costs :: "price_row list" where
  "example_fuel_costs =
     [\<lparr>fuel = ''NG'', year = 2030, full_fuel_name = ''NG'', price = 3.00\<rparr>,
      \<lparr>fuel = ''NG'', year = 2040, full_fuel_name = ''NG'', price = 4.00\<rparr>]"

definition example_generators :: "generator list" where
  "example_generators =
     [\<lparr>Fuel = ''NG''\<rparr>, \<lparr>Fuel = ''NG_ccs''\<rparr>, \<lparr>Fuel = ''NG''\<rparr>, \<lparr>Fuel = ''biomass''\<rparr>]"

definition example_fuel_df :: "fuel_row list" where
  "example_fuel_df =
     [\<lparr>Fuel = ''NG'', Cost_per_MMBtu = Some 3.265, CO2_content_tons_per_MMBtu = Some 0.053\<rparr>,
      \<lparr>Fuel = ''NG_ccs'', Cost_per_MMBtu = Some 3.5035, CO2_content_tons_per_MMBtu = Some 0.0053\<rparr>,
      \<lparr>Fuel = ''biomass'', Cost_per_MMBtu = None, CO2_content_tons_per_MMBtu = None\<rparr>]"

text \<open>The same price table with a row under the name of the CCS fuel itself.\<close>

definition example_fuel_costs_own_row :: "price_row list" where
  "example_fuel_costs_own_row =
     example_fuel_costs
     @ [\<lparr>fuel = ''NG'', year = 2030, full_fuel_name = ''NG_ccs'', price = 99\<rparr>]"

text \<open>
  A roster in which the base name of one CCS fuel is the name of another CCS fuel that
  comes after it.
\<close>

definition nested_generators :: "generator list" where
  "nested_generators = [\<lparr>Fuel = ''NG_ccs_x''\<rparr>, \<lparr>Fuel = ''NG_ccs''\<rparr>]"

text \<open>A price table with a fuel whose name has two tokens, and a roster with its CCS variant.\<close>

definition token_fuel_costs :: "price_row list" where
  "token_fuel_costs =
     example_fuel_costs_own_row
     @ [\<lparr>fuel = ''NG'', year = 2030, full_fuel_name = ''gulf_NG'', price = 2.5\<rparr>]"

definition token_generators :: "generator list" where
  "token_generators = [\<lparr>Fuel = ''NG''\<rparr>, \<lparr>Fuel = ''gulf_NG_ccs''\<rparr>]"

section \<open>Settings as nested dictionaries\<close>

text \<open>
  The values of a settings file: scalars, lists and dictionaries. Dictionary keys and
  the cells of a table are scalars. \<open>SPath\<close> is a path object of pathlib, by its text.
  \<open>SFloat\<close> holds a real number: the float NaN is not a value here, and a missing cell
  of a table is \<open>SNone\<close>.
\<close>

datatype scalar = SNone | SBool bool | SInt int | SFloat real | SStr string | SPath string

datatype val = Scalar scalar | VList "val list" | VDict "(scalar \<times> val) list"

type_synonym dict = "(scalar \<times> val) list"

subsection \<open>Equality of keys\<close>

text \<open>
  Python compares and hashes booleans, integers and floats by their number:
  \<open>True == 1 == 1.0\<close>, and the three are one and the same key of a dictionary. A string,
  a path and None are equal only to themselves. \<open>hash_key\<close> maps a scalar to the
  representative of the scalars it is equal to.
\<close>

fun num_of :: "scalar \<Rightarrow> real option" where
  "num_of (SBool b) = Some (if b then 1 else 0)"
| "num_of (SInt i) = Some (of_int i)"
| "num_of (SFloat x) = Some x"
| "num_of _ = None"

definition hash_key :: "scalar \<Rightarrow> scalar" where
  "hash_key k = (case num_of k of Some x \<Rightarrow> SFloat x | None \<Rightarrow> k)"

definition py_eq :: "scalar \<Rightarrow> scalar \<Rightarrow> bool" where
  "py_eq a b = (hash_key a = hash_key b)"

text \<open>\<open>key in keys\<close> on a list.\<close>

definition py_in :: "scalar \<Rightarrow> scalar list \<Rightarrow> bool" where
  "py_in key keys = (\<exists>k \<in> set keys. py_eq k key)"

text \<open>
  The comparison \<open>column == value\<close> of pandas, cell by cell: as in Python, except that a
  missing cell is equal to nothing, and nothing is equal to a missing value.
\<close>

definition pd_eq :: "scalar \<Rightarrow> scalar \<Rightarrow> bool" where
  "pd_eq cell v = (cell \<noteq> SNone \<and> v \<noteq> SNone \<and> py_eq cell v)"

text \<open>
  \<open>Series.unique()\<close> on cells: the first occurrence of every value, values compared as
  keys are.
\<close>

fun py_unique :: "scalar list \<Rightarrow> scalar list" where
  "py_unique [] = []"
| "py_unique (x # xs) = x # py_unique (filter (\<lambda>y. \<not> py_eq x y) xs)"

subsection \<open>Dictionaries\<close>

text \<open>
  A dictionary is an association list in insertion order. \<open>d[key]\<close> finds the entry whose
  key is equal to \<open>key\<close>; \<open>d[key] = v\<close> replaces the value of that entry and keeps the key
  that is there, or adds an entry at the end.
\<close>

fun dict_get :: "(scalar \<times> 'v) list \<Rightarrow> scalar \<Rightarrow> 'v option" where
  "dict_get [] key = None"
| "dict_get ((k, v) # d) key = (if py_eq k key then Some v else dict_get d key)"

fun dict_set :: "scalar \<Rightarrow> 'v \<Rightarrow> (scalar \<times> 'v) list \<Rightarrow> (scalar \<times> 'v) list" where
  "dict_set key v [] = [(key, v)]"
| "dict_set key v ((k, v') # d) =
     (if py_eq k key then (k, v) # d else (k, v') # dict_set key v d)"

text \<open>The keys of a Python dictionary are pairwise different.\<close>

definition distinct_keys :: "(scalar \<times> 'v) list \<Rightarrow> bool" where
  "distinct_keys d = distinct (map (\<lambda>kv. hash_key (fst kv)) d)"

text \<open>The values that stand for Python values: every dictionary in them has distinct keys.\<close>

fun wf_val :: "val \<Rightarrow> bool" where
  "wf_val (Scalar s) = True"
| "wf_val (VList xs) = (\<forall>x \<in> set xs. wf_val x)"
| "wf_val (VDict d) = (distinct_keys d \<and> (\<forall>kv \<in> set d. wf_val (snd kv)))"

definition wf_dict :: "dict \<Rightarrow> bool" where
  "wf_dict d = wf_val (VDict d)"

text \<open>
  \<open>obj[key]\<close>: a dictionary raises KeyError for a missing key; a list or a string takes an
  integer index (a boolean is an integer), counted from the end when negative; anything
  else raises TypeError.
\<close>

definition py_index :: "'a list \<Rightarrow> int \<Rightarrow> error + 'a" where
  "py_index xs i =
     (if 0 \<le> i \<and> i < int (length xs) then Inr (xs ! nat i)
      else if i < 0 \<and> - int (length xs) \<le> i then Inr (xs ! nat (int (length xs) + i))
      else Inl IndexError)"

fun as_index :: "scalar \<Rightarrow> int option" where
  "as_index (SInt i) = Some i"
| "as_index (SBool b) = Some (if b then 1 else 0)"
| "as_index _ = None"

fun subscript :: "val \<Rightarrow> scalar \<Rightarrow> error + val" where
  "subscript (VDict d) k = (case dict_get d k of None \<Rightarrow> Inl KeyError | Some v \<Rightarrow> Inr v)"
| "subscript (VList xs) k =
     (case as_index k of None \<Rightarrow> Inl TypeError | Some i \<Rightarrow> py_index xs i)"
| "subscript (Scalar (SStr s)) k =
     (case as_index k of
        None \<Rightarrow> Inl TypeError
      | Some i \<Rightarrow> (case py_index s i of Inl e \<Rightarrow> Inl e | Inr c \<Rightarrow> Inr (Scalar (SStr [c]))))"
| "subscript (Scalar _) k = Inl TypeError"

text \<open>\<open>d[key]\<close> on the settings dictionary itself.\<close>

definition getitem :: "dict \<Rightarrow> string \<Rightarrow> error + val" where
  "getitem d k = (case dict_get d (SStr k) of None \<Rightarrow> Inl KeyError | Some v \<Rightarrow> Inr v)"

text \<open>Iterating over a value, as \<open>zip\<close> does: a list, the keys of a dictionary, the characters of a string.\<close>

fun py_iter :: "val \<Rightarrow> error + val list" where
  "py_iter (VList xs) = Inr xs"
| "py_iter (VDict d) = Inr (map (\<lambda>kv. Scalar (fst kv)) d)"
| "py_iter (Scalar (SStr s)) = Inr (map (\<lambda>c. Scalar (SStr [c])) s)"
| "py_iter _ = Inl TypeError"

text \<open>A dictionary key must be hashable: lists and dictionaries are not.\<close>

fun as_key :: "val \<Rightarrow> error + scalar" where
  "as_key (Scalar s) = Inr s"
| "as_key _ = Inl TypeError"

subsection \<open>update_dictionary\<close>

text \<open>
  Modelled from the spec: \<open>update_dictionary\<close> is defined in powergenome.util, which is
  not among the source files. The specification describes it as \<open>merge(base, patch)\<close>:
  for each key of the patch, if both the base's and the patch's value are mappings they
  are merged recursively, otherwise the patch's value replaces the base's and is added
  if the key is absent; there are no error conditions.
\<close>

function update_dictionary :: "dict \<Rightarrow> dict \<Rightarrow> dict" where
  "update_dictionary base [] = base"
| "update_dictionary base ((k, v) # patch) =
     update_dictionary
       (dict_set k
          (case v of
             VDict p \<Rightarrow>
               (case dict_get base k of
                  Some (VDict b) \<Rightarrow> VDict (update_dictionary b p)
                | _ \<Rightarrow> v)
           | _ \<Rightarrow> v)
          base)
       patch"
  by pat_completeness auto
termination
  by (relation "measure (\<lambda>(base, patch). size (VDict patch))") auto

text \<open>The value a key gets when the patch binds it to \<open>v\<close> and the base has \<open>old\<close> for it.\<close>

definition merged_value :: "val option \<Rightarrow> val \<Rightarrow> val" where
  "merged_value old v =
     (case v of
        VDict p \<Rightarrow> (case old of Some (VDict b) \<Rightarrow> VDict (update_dictionary b p) | _ \<Rightarrow> v)
      | _ \<Rightarrow> v)"

text \<open>
  A dictionary already holds a patch when every key of the patch is bound in it to the
  patch's value or, where that value is a dictionary, to a dictionary that holds it.
\<close>

function holds_patch :: "dict \<Rightarrow> dict \<Rightarrow> bool" where
  "holds_patch d [] = True"
| "holds_patch d ((k, v) # patch) =
     ((case v of
         VDict p \<Rightarrow> (case dict_get d k of Some (VDict b) \<Rightarrow> holds_patch b p | _ \<Rightarrow> False)
       | _ \<Rightarrow> dict_get d k = Some v)
      \<and> holds_patch d patch)"
  by pat_completeness auto
termination
  by (relation "measure (\<lambda>(d, patch). size (VDict patch))") auto

section \<open>run_powergenome_multiple_outputs_cli.py\<close>

subsection \<open>Data\<close>

text \<open>
  The scenario-definition table: the column labels in order, and the rows; a row gives
  the cell under each column label. Only the labels of \<open>sd_columns\<close> are ever looked up.
\<close>

record scenario_table =
  sd_columns :: "string list"
  sd_rows :: "(string \<Rightarrow> scalar) list"

text \<open>\<open>df[label]\<close>: the column, or KeyError when the table has no such label.\<close>

definition column :: "scenario_table \<Rightarrow> string \<Rightarrow> error + scalar list" where
  "column df label =
     (if label \<in> set (sd_columns df) then Inr (map (\<lambda>r. r label) (sd_rows df))
      else Inl KeyError)"

text \<open>The result of the build: year, then case id, then the settings of the case.\<close>

type_synonym scenario_settings = "(scalar \<times> (scalar \<times> dict) list) list"

subsection \<open>build_case_id_name_map (lines 106-115)\<close>

text \<open>
  Line 108, \<open>settings["input_folder"] / settings["case_id_description_fn"]\<close>. The operator
  gives a path when the left operand is a path object and the right one a path or a
  string, or the other way round; the result is kept as the pair of the two texts. Two
  numbers are divided, and their quotient is not a file name that \<open>read_csv\<close> accepts.
  Every other pair of operands raises TypeError.
\<close>

definition path_div :: "val \<Rightarrow> val \<Rightarrow> error + (string \<times> string)" where
  "path_div folder fn =
     (case (folder, fn) of
        (Scalar (SPath a), Scalar (SPath b)) \<Rightarrow> Inr (a, b)
      | (Scalar (SPath a), Scalar (SStr b)) \<Rightarrow> Inr (a, b)
      | (Scalar (SStr a), Scalar (SPath b)) \<Rightarrow> Inr (a, b)
      | (Scalar x, Scalar y) \<Rightarrow>
          (case (num_of x, num_of y) of
             (Some n, Some m) \<Rightarrow> if m = 0 then Inl ZeroDivisionError else Inl ValueError
           | _ \<Rightarrow> Inl TypeError)
      | _ \<Rightarrow> Inl TypeError)"

text \<open>
  The file is read by pandas: \<open>read_csv\<close> is a parameter that gives, for the folder and the
  file name, the rows of the file, the case id and the description of each, or the
  exception of a file that cannot be read. Spaces become underscores, and a later row for
  the same case id replaces an earlier one.
\<close>

definition build_case_id_name_map ::
  "(string \<Rightarrow> string \<Rightarrow> error + (scalar \<times> string) list) \<Rightarrow> dict \<Rightarrow> error + dict" where
  "build_case_id_name_map read_csv settings =
     (case getitem settings ''input_folder'' of
        Inl e \<Rightarrow> Inl e
      | Inr folder \<Rightarrow>
          (case getitem settings ''case_id_description_fn'' of
             Inl e \<Rightarrow> Inl e
           | Inr fn \<Rightarrow>
               (case path_div folder fn of
                  Inl e \<Rightarrow> Inl e
                | Inr (a, b) \<Rightarrow>
                    (case read_csv a b of
                       Inl e \<Rightarrow> Inl e
                     | Inr case_id_description \<Rightarrow>
                         Inr (fold (\<lambda>(case_id, name) m.
                                      dict_set case_id
                                        (Scalar (SStr (map (\<lambda>c. if c = CHR '' '' then CHR ''_'' else c)
                                                         name)))
                                        m)
                                case_id_description [])))))"

subsection \<open>build_scenario_settings (lines 118-190)\<close>

text \<open>Lines 120-125: year to (first planning year, year), over the zipped lists.\<close>

definition model_planning_period_dict :: "dict \<Rightarrow> error + (scalar \<times> val \<times> val) list" where
  "model_planning_period_dict settings =
     (case getitem settings ''model_year'' of
        Inl e \<Rightarrow> Inl e
      | Inr model_years \<Rightarrow>
          (case getitem settings ''model_first_planning_year'' of
             Inl e \<Rightarrow> Inl e
           | Inr first_years \<Rightarrow>
               (case py_iter model_years of
                  Inl e \<Rightarrow> Inl e
                | Inr ys \<Rightarrow>
                    (case py_iter first_years of
                       Inl e \<Rightarrow> Inl e
                     | Inr fs \<Rightarrow>
                         foldM (\<lambda>(yr, start_year) m.
                                  case as_key yr of
                                    Inl e \<Rightarrow> Inl e
                                  | Inr k \<Rightarrow> Inr (dict_set k (start_year, yr) m))
                           (zip ys fs) []))))"

text \<open>
  Lines 136-141: for the rows of one year, each column other than \<open>case_id\<close> and \<open>year\<close>
  with its dictionary from case id to cell.
\<close>

definition planning_year_scenario_definitions_dict ::
  "scenario_table \<Rightarrow> scalar \<Rightarrow> (string \<times> (scalar \<times> scalar) list) list" where
  "planning_year_scenario_definitions_dict scenario_definitions yr =
     map (\<lambda>category.
            (category,
             fold (\<lambda>r m. dict_set (r ''case_id'') (r category) m)
               (filter (\<lambda>r. pd_eq (r ''year'') yr) (sd_rows scenario_definitions)) []))
       (filter (\<lambda>c. c \<noteq> ''year'')
          (drop_duplicates (filter (\<lambda>c. c \<noteq> ''case_id'') (sd_columns scenario_definitions))))"

text \<open>
  Lines 150-156: the cells of the row of this case and year are written into the
  settings under their column labels. \<open>squeeze()\<close> gives a row only when exactly one row
  matches; otherwise the scalar access \<open>.at[col]\<close> raises.
\<close>

definition overlay_columns ::
  "scenario_table \<Rightarrow> scalar \<Rightarrow> scalar \<Rightarrow> dict \<Rightarrow> error + dict" where
  "overlay_columns scenario_definitions yr case_id settings' =
     (let case_scenario_definitions =
            filter (\<lambda>r. pd_eq (r ''case_id'') case_id \<and> pd_eq (r ''year'') yr)
              (sd_rows scenario_definitions)
      in foldM (\<lambda>col s.
                  case case_scenario_definitions of
                    [r] \<Rightarrow> Inr (dict_set (SStr col) (Scalar (r col)) s)
                  | _ \<Rightarrow> Inl ScalarAccessError)
           (sd_columns scenario_definitions) settings')"

text \<open>Lines 172-177: every key of the patch must be new; it is then recorded.\<close>

definition record_keys :: "scalar list \<Rightarrow> scalar list \<Rightarrow> error + scalar list" where
  "record_keys settings_keys modified_settings =
     foldM (\<lambda>key ms. if py_in key ms then Inl AssertionError else Inr (ms @ [key]))
       settings_keys modified_settings"

text \<open>
  Lines 163-183, the body of the loop over the categories. The state is the pair of
  \<open>_settings\<close> and \<open>modified_settings\<close>. A KeyError of one of the three lookups leaves the
  state as it is; every other exception, the failed assertion among them, is raised.
  A patch that is not a dictionary has no \<open>keys()\<close>.
\<close>

definition apply_category ::
  "val \<Rightarrow> scalar \<Rightarrow> string \<times> (scalar \<times> scalar) list \<Rightarrow> dict \<times> scalar list
     \<Rightarrow> error + (dict \<times> scalar list)" where
  "apply_category planning_year_settings_management case_id item state =
     (case item of (category, case_value_dict) \<Rightarrow>
      case state of (settings', modified_settings) \<Rightarrow>
        (case dict_get case_value_dict case_id of
           None \<Rightarrow> Inr state
         | Some case_value \<Rightarrow>
             (case subscript planning_year_settings_management (SStr category) of
                Inl e \<Rightarrow> if e = KeyError then Inr state else Inl e
              | Inr variants \<Rightarrow>
                  (case subscript variants case_value of
                     Inl e \<Rightarrow> if e = KeyError then Inr state else Inl e
                   | Inr new_parameter \<Rightarrow>
                       (case new_parameter of
                          VDict patch \<Rightarrow>
                            (case record_keys (map fst patch) modified_settings of
                               Inl e \<Rightarrow> Inl e
                             | Inr ms \<Rightarrow> Inr (update_dictionary settings' patch, ms))
                        | _ \<Rightarrow> Inl AttributeError)))))"

text \<open>\<open>copy.deepcopy\<close> of a value is the same value.\<close>

definition deepcopy :: "dict \<Rightarrow> dict" where
  "deepcopy d = d"

text \<open>Lines 144-188, the body of the loop over the case ids: the settings of one case and year.\<close>

definition case_settings ::
  "dict \<Rightarrow> scenario_table \<Rightarrow> (scalar \<times> val \<times> val) list \<Rightarrow> dict \<Rightarrow> val
     \<Rightarrow> scalar \<Rightarrow> scalar \<Rightarrow> error + dict" where
  "case_settings settings scenario_definitions planning_period case_id_name_map
     planning_year_settings_management yr case_id =
     (case overlay_columns scenario_definitions yr case_id (deepcopy settings) of
        Inl e \<Rightarrow> Inl e
      | Inr settings' \<Rightarrow>
          (case foldM (apply_category planning_year_settings_management case_id)
                  (planning_year_scenario_definitions_dict scenario_definitions yr)
                  (settings', []) of
             Inl e \<Rightarrow> Inl e
           | Inr (settings', modified_settings) \<Rightarrow>
               (case dict_get planning_period yr of
                  None \<Rightarrow> Inl KeyError
                | Some (start_year, model_yr) \<Rightarrow>
                    (case dict_get case_id_name_map case_id of
                       None \<Rightarrow> Inl KeyError
                     | Some case_name \<Rightarrow>
                         Inr (dict_set (SStr ''case_name'') case_name
                               (dict_set (SStr ''model_year'') model_yr
                                 (dict_set (SStr ''model_first_planning_year'') start_year
                                    settings')))))))"

text \<open>
  Lines 131-188, the body of the loop over the years: the settings of every case id of
  the table for one year, stored under the year.
\<close>

definition year_settings ::
  "dict \<Rightarrow> scenario_table \<Rightarrow> (scalar \<times> val \<times> val) list \<Rightarrow> dict
     \<Rightarrow> scalar \<Rightarrow> scenario_settings \<Rightarrow> error + scenario_settings" where
  "year_settings settings scenario_definitions planning_period case_id_name_map yr
     scenario_settings =
     (case getitem settings ''settings_management'' of
        Inl e \<Rightarrow> Inl e
      | Inr settings_management \<Rightarrow>
          (case subscript settings_management yr of
             Inl e \<Rightarrow> Inl e
           | Inr planning_year_settings_management \<Rightarrow>
               (case column scenario_definitions ''case_id'' of
                  Inl e \<Rightarrow> Inl e
                | Inr case_ids \<Rightarrow>
                    (case foldM (\<lambda>case_id m.
                                   case case_settings settings scenario_definitions
                                          planning_period case_id_name_map
                                          planning_year_settings_management yr case_id of
                                     Inl e \<Rightarrow> Inl e
                                   | Inr s \<Rightarrow> Inr (dict_set case_id s m))
                            (py_unique case_ids) [] of
                       Inl e \<Rightarrow> Inl e
                     | Inr m \<Rightarrow> Inr (dict_set yr m scenario_settings)))))"

definition build_scenario_settings ::
  "(string \<Rightarrow> string \<Rightarrow> error + (scalar \<times> string) list) \<Rightarrow> dict \<Rightarrow> scenario_table
     \<Rightarrow> error + scenario_settings" where
  "build_scenario_settings read_csv settings scenario_definitions =
     (case model_planning_period_dict settings of
        Inl e \<Rightarrow> Inl e
      | Inr planning_period \<Rightarrow>
          (case build_case_id_name_map read_csv settings of
             Inl e \<Rightarrow> Inl e
           | Inr case_id_name_map \<Rightarrow>
               (case column scenario_definitions ''year'' of
                  Inl e \<Rightarrow> Inl e
                | Inr years \<Rightarrow>
                    foldM (year_settings settings scenario_definitions planning_period
                             case_id_name_map)
                      (py_unique years) [])))"

subsection \<open>A worked example\<close>

text \<open>A row of a table from its cells; a label without a cell gives a missing value.\<close>

definition row_of :: "(string \<times> scalar) list \<Rightarrow> string \<Rightarrow> scalar" where
  "row_of cells label = (case map_of cells label of None \<Rightarrow> SNone | Some c \<Rightarrow> c)"

definition example_base_settings :: dict where
  "example_base_settings =
     [(SStr ''model_year'', VList [Scalar (SInt 2030), Scalar (SInt 2040)]),
      (SStr ''model_first_planning_year'', VList [Scalar (SInt 2021), Scalar (SInt 2031)]),
      (SStr ''input_folder'', Scalar (SPath ''extra_inputs'')),
      (SStr ''case_id_description_fn'', Scalar (SStr ''case_id_names.csv'')),
      (SStr ''carbon_tax'', Scalar (SInt 0)),
      (SStr ''settings_management'',
       VDict
         [(SInt 2030,
           VDict
             [(SStr ''ng_price'',
               VDict [(SStr ''high'', VDict [(SStr ''aeo_fuel_scenario'', Scalar (SStr ''low_resource''))])]),
              (SStr ''ccs_capex'',
               VDict [(SStr ''low'', VDict [(SStr ''ccs_capex_scale'', Scalar (SFloat 0.8))])])]),
          (SInt 2040,
           VDict
             [(SStr ''ng_price'',
               VDict [(SStr ''high'', VDict [(SStr ''aeo_fuel_scenario'', Scalar (SStr ''low_resource''))])])])])]"

text \<open>The years are floats in this table and integers in the settings.\<close>

definition example_scenario_definitions :: scenario_table where
  "example_scenario_definitions =
     \<lparr>sd_columns = [''case_id'', ''year'', ''ng_price'', ''ccs_capex''],
      sd_rows =
        [row_of [(''case_id'', SStr ''p1''), (''year'', SFloat 2030),
                 (''ng_price'', SStr ''reference''), (''ccs_capex'', SStr ''mid'')],
         row_of [(''case_id'', SStr ''p2''), (''year'', SFloat 2030),
                 (''ng_price'', SStr ''high''), (''ccs_capex'', SStr ''low'')],
         row_of [(''case_id'', SStr ''p1''), (''year'', SFloat 2040),
                 (''ng_price'', SStr ''reference''), (''ccs_capex'', SStr ''mid'')],
         row_of [(''case_id'', SStr ''p2''), (''year'', SFloat 2040),
                 (''ng_price'', SStr ''high''), (''ccs_capex'', SStr ''low'')]]\<rparr>"

definition example_case_id_description :: "(scalar \<times> string) list" where
  "example_case_id_description = [(SStr ''p1'', ''Reference case''), (SStr ''p2'', ''High gas price'')]"

text \<open>A file system with the one description file.\<close>

definition example_read_csv :: "string \<Rightarrow> string \<Rightarrow> error + (scalar \<times> string) list" where
  "example_read_csv folder fn =
     (if folder = ''extra_inputs'' \<and> fn = ''case_id_names.csv''
      then Inr example_case_id_description else Inl OSError)"

text \<open>
  The patch that the try block of lines 164-183 finds for a category, if it finds one:
  the case has a cell for the category, and the settings management of the year has a
  dictionary for the category with a dictionary under that cell.
\<close>

definition selected_patch :: "val \<Rightarrow> scalar \<Rightarrow> string \<times> (scalar \<times> scalar) list \<Rightarrow> dict option" where
  "selected_patch planning_year_settings_management case_id item =
     (case item of (category, case_value_dict) \<Rightarrow>
        (case dict_get case_value_dict case_id of
           None \<Rightarrow> None
         | Some case_value \<Rightarrow>
             (case subscript planning_year_settings_management (SStr category) of
                Inl e \<Rightarrow> None
              | Inr variants \<Rightarrow>
                  (case subscript variants case_value of
                     Inl e \<Rightarrow> None
                   | Inr new_parameter \<Rightarrow>
                       (case new_parameter of VDict patch \<Rightarrow> Some patch | _ \<Rightarrow> None)))))"

text \<open>
  A case whose two categories both patch \<open>carbon_tax\<close>, and a table that names two cases
  and two years but has rows for only two of the four combinations.
\<close>

definition overlap_settings :: dict where
  "overlap_settings =
     [(SStr ''model_year'', VList [Scalar (SInt 2030)]),
      (SStr ''model_first_planning_year'', VList [Scalar (SInt 2021)]),
      (SStr ''input_folder'', Scalar (SPath ''extra_inputs'')),
      (SStr ''case_id_description_fn'', Scalar (SStr ''case_id_names.csv'')),
      (SStr ''settings_management'',
       VDict
         [(SInt 2030,
           VDict
             [(SStr ''ng_price'',
               VDict [(SStr ''high'', VDict [(SStr ''carbon_tax'', Scalar (SInt 10))])]),
              (SStr ''ccs_capex'',
               VDict [(SStr ''low'', VDict [(SStr ''carbon_tax'', Scalar (SInt 20))])])])])]"

definition overlap_row :: "string \<Rightarrow> scalar" where
  "overlap_row =
     row_of [(''case_id'', SStr ''p1''), (''year'', SInt 2030),
             (''ng_price'', SStr ''high''), (''ccs_capex'', SStr ''low'')]"

definition overlap_scenario_definitions :: scenario_table where
  "overlap_scenario_definitions =
     \<lparr>sd_columns = [''case_id'', ''year'', ''ng_price'', ''ccs_capex''],
      sd_rows = [overlap_row]\<rparr>"

definition sparse_scenario_definitions :: scenario_table where
  "sparse_scenario_definitions =
     \<lparr>sd_columns = [''case_id'', ''year''],
      sd_rows =
        [row_of [(''case_id'', SStr ''p1''), (''year'', SInt 2030)],
         row_of [(''case_id'', SStr ''p2''), (''year'', SInt 2040)]]\<rparr>"

definition sparse_settings :: dict where
  "sparse_settings =
     [(SStr ''model_year'', VList [Scalar (SInt 2030), Scalar (SInt 2040)]),
      (SStr ''model_first_planning_year'', VList [Scalar (SInt 2021), Scalar (SInt 2031)]),
      (SStr ''input_folder'', Scalar (SPath ''extra_inputs'')),
      (SStr ''case_id_description_fn'', Scalar (SStr ''case_id_names.csv'')),
      (SStr ''settings_management'', VDict [(SInt 2030, VDict []), (SInt 2040, VDict [])])]"

text \<open>
  Variants numbered 1 and 2 in the settings file, selected by the cells 1.0 and 2.0 of a
  table whose columns pandas read as floats; both patches set \<open>carbon_tax\<close>.
\<close>

definition numbered_settings :: dict where
  "numbered_settings =
     [(SStr ''model_year'', VList [Scalar (SInt 2030)]),
      (SStr ''model_first_planning_year'', VList [Scalar (SInt 2021)]),
      (SStr ''input_folder'', Scalar (SPath ''extra_inputs'')),
      (SStr ''case_id_description_fn'', Scalar (SStr ''case_id_names.csv'')),
      (SStr ''settings_management'',
       VDict
         [(SInt 2030,
           VDict
             [(SStr ''ng_price'',
               VDict [(SInt 1, VDict [(SStr ''carbon_tax'', Scalar (SInt 10))])]),
              (SStr ''ccs_capex'',
               VDict [(SInt 2, VDict [(SStr ''carbon_tax'', Scalar (SInt 20))])])])])]"

definition numbered_row :: "string \<Rightarrow> scalar" where
  "numbered_row =
     row_of [(''case_id'', SStr ''p1''), (''year'', SFloat 2030),
             (''ng_price'', SFloat 1), (''ccs_capex'', SFloat 2)]"

definition numbered_scenario_definitions :: scenario_table where
  "numbered_scenario_definitions =
     \<lparr>sd_columns = [''case_id'', ''year'', ''ng_price'', ''ccs_capex''],
      sd_rows = [numbered_row]\<rparr>"

text \<open>
  The settings management of one year as the data model describes it: a dictionary from
  category to a dictionary from variant to patch, every patch a dictionary with distinct
  keys.
\<close>

definition typed_management :: "val \<Rightarrow> bool" where
  "typed_management planning_year_settings_management =
     (\<exists>categories.
        planning_year_settings_management = VDict categories \<and>
        (\<forall>c v. dict_get categories c = Some v \<longrightarrow>
           (\<exists>variants.
              v = VDict variants \<and>
              (\<forall>variant p. dict_get variants variant = Some p \<longrightarrow>
                 (\<exists>patch. p = VDict patch \<and> distinct_keys patch)))))"

text \<open>\<open>scenario_settings[year][case_id]\<close> on the result.\<close>

definition resolved :: "scenario_settings \<Rightarrow> scalar \<Rightarrow> scalar \<Rightarrow> dict option" where
  "resolved scenario_settings yr case_id =
     (case dict_get scenario_settings yr of None \<Rightarrow> None | Some cases \<Rightarrow> dict_get cases case_id)"

section \<open>Properties of fuels.py\<close>

subsection \<open>Helpers\<close>

lemma set_drop_duplicates: "set (drop_duplicates xs) = set xs"
  by (induction xs rule: drop_duplicates.induct) auto

lemma distinct_drop_duplicates: "distinct (drop_duplicates xs)"
  by (induction xs rule: drop_duplicates.induct) (auto simp: set_drop_duplicates)

lemma drop_duplicates_distinct_id: "distinct xs \<Longrightarrow> drop_duplicates xs = xs"
proof (induction xs)
  case Nil
  then show ?case by simp
next
  case (Cons x xs)
  then have "filter (\<lambda>y. y \<noteq> x) xs = xs"
    by (auto intro: filter_True)
  with Cons show ?case by simp
qed

lemma mapM_Inr_all2: "mapM f xs = Inr ys \<Longrightarrow> list_all2 (\<lambda>x y. f x = Inr y) xs ys"
  by (induction xs arbitrary: ys) (auto split: sum.splits)

lemma mapM_error_kind:
  assumes "\<And>x e. f x = Inl e \<Longrightarrow> e = k" and "mapM f xs = Inl e"
  shows "e = k"
  using assms(2) by (induction xs arbitrary: e) (auto split: sum.splits dest: assms(1))

lemma mapM_fails:
  assumes "x \<in> set xs" and "f x = Inl e"
  shows "\<exists>e'. mapM f xs = Inl e'"
  using assms by (induction xs) (auto split: sum.splits)

lemma foldM_error_kind:
  assumes "\<And>x s e. f x s = Inl e \<Longrightarrow> e = k" and "foldM f xs s = Inl e"
  shows "e = k"
  using assms(2) by (induction xs arbitrary: s e) (auto split: sum.splits dest: assms(1))

text \<open>Every exception of fuels.py is a failed dictionary lookup.\<close>

lemma ccs_step_error: "ccs_step f maps = Inl e \<Longrightarrow> e = KeyError"
  by (auto simp: ccs_step_def Let_def split: prod.splits option.splits)

lemma adjust_ccs_fuels_error: "adjust_ccs_fuels r s = Inl e \<Longrightarrow> e = KeyError"
  by (auto simp: adjust_ccs_fuels_def Let_def split: if_splits option.splits)

lemma num_hours_error: "num_hours s = Inl e \<Longrightarrow> e = KeyError"
  by (auto simp: num_hours_def split: if_splits option.splits)

lemma foldM_ccs_step_error: "foldM ccs_step fs maps = Inl e \<Longrightarrow> e = KeyError"
  by (erule foldM_error_kind[rotated]) (rule ccs_step_error)

lemma mapM_adjust_error: "mapM (\<lambda>r. adjust_ccs_fuels r s) rs = Inl e \<Longrightarrow> e = KeyError"
  by (erule mapM_error_kind[rotated]) (rule adjust_ccs_fuels_error)

lemma ccs_adjusted_df_unfold:
  "ccs_adjusted_df add_user_fuel_prices fuel_costs generators settings =
     (case model_year settings of
        None \<Rightarrow> Inl KeyError
      | Some my \<Rightarrow>
          (case fuel_emission_factors settings of
             None \<Rightarrow> Inl KeyError
           | Some emission_dict \<Rightarrow>
               (case foldM ccs_step (ccs_fuels_of generators)
                       (fuel_price_lookup
                          (filter (\<lambda>row. year row = my)
                             (add_user_fuel_prices settings fuel_costs)),
                        fuel_emission_lookup
                          (fuel_price_lookup
                             (filter (\<lambda>row. year row = my)
                                (add_user_fuel_prices settings fuel_costs)))
                          emission_dict) of
                  Inl e \<Rightarrow> Inl e
                | Inr (price_map, emission_map) \<Rightarrow>
                    mapM (\<lambda>r. adjust_ccs_fuels r settings)
                      (map (\<lambda>f. \<lparr>Fuel = f, Cost_per_MMBtu = price_map f,
                                  CO2_content_tons_per_MMBtu = emission_map f\<rparr>)
                         (drop_duplicates (map Fuel generators))))))"
  by (simp add: ccs_adjusted_df_def fuel_lookups_def Let_def split: option.splits)

lemma ccs_adjusted_df_error: "ccs_adjusted_df a fc gens s = Inl e \<Longrightarrow> e = KeyError"
  unfolding ccs_adjusted_df_unfold Let_def
  by (auto split: option.splits sum.splits prod.splits
      dest: foldM_ccs_step_error mapM_adjust_error)

lemma fuel_cost_table_error: "fuel_cost_table a fc gens s = Inl e \<Longrightarrow> e = KeyError"
  unfolding fuel_cost_table_def fuel_df_of_def
  by (auto split: sum.splits dest: ccs_adjusted_df_error num_hours_error)

text \<open>The two lookups always have the same keys.\<close>

lemma dom_fuel_emission_lookup: "dom (fuel_emission_lookup pm ed) = dom pm"
  by (auto simp: fuel_emission_lookup_def Let_def split: option.splits)

lemma ccs_step_Inr:
  "ccs_step f (pm, em) = Inr (pm', em') \<Longrightarrow>
     \<exists>p e. pm (ccs_base_name f) = Some p \<and> em (ccs_base_name f) = Some e \<and>
           pm' = pm(f \<mapsto> p) \<and> em' = em(f \<mapsto> e)"
  by (auto simp: ccs_step_def Let_def split: option.splits)

lemma foldM_ccs_step_dom:
  "foldM ccs_step fs (pm, em) = Inr (pm', em') \<Longrightarrow> dom pm = dom em \<Longrightarrow> dom pm' = dom em'"
proof (induction fs arbitrary: pm em)
  case Nil
  then show ?case by simp
next
  case (Cons f fs)
  from Cons.prems(1) obtain pm1 em1 where
    s: "ccs_step f (pm, em) = Inr (pm1, em1)" and
    r: "foldM ccs_step fs (pm1, em1) = Inr (pm', em')"
    by (auto split: sum.splits)
  from ccs_step_Inr[OF s] have "dom pm1 = insert f (dom pm)" "dom em1 = insert f (dom em)"
    by auto
  with Cons.prems(2) have "dom pm1 = dom em1" by simp
  with Cons.IH[OF r] show ?case .
qed

text \<open>The loop over the CCS fuels writes under the names of CCS fuels only.\<close>

lemma foldM_ccs_step_other:
  "foldM ccs_step fs (pm, em) = Inr (pm', em') \<Longrightarrow> k \<notin> set fs \<Longrightarrow>
     pm' k = pm k \<and> em' k = em k"
proof (induction fs arbitrary: pm em)
  case Nil
  then show ?case by simp
next
  case (Cons f fs)
  from Cons.prems(1) obtain pm1 em1 where
    s: "ccs_step f (pm, em) = Inr (pm1, em1)" and
    r: "foldM ccs_step fs (pm1, em1) = Inr (pm', em')"
    by (auto split: sum.splits)
  from ccs_step_Inr[OF s] Cons.prems(2) have "pm1 k = pm k \<and> em1 k = em k" by auto
  with Cons.IH[OF r] Cons.prems(2) show ?case by simp
qed

subsection \<open>The CCS adjustment of one row\<close>

subsection \<open>Names and their underscore-delimited tokens\<close>

lemma str_split_no_sep: "sep \<notin> set w \<Longrightarrow> str_split sep w = [w]"
  by (induction w) auto

lemma str_split_token:
  "sep \<notin> set w \<Longrightarrow> str_split sep (w @ sep # rest) = w # str_split sep rest"
  by (induction w) auto

text \<open>Splitting a name that was joined from tokens without the separator gives the tokens back.\<close>

lemma str_split_str_join:
  assumes "ts \<noteq> []" and "\<forall>t \<in> set ts. sep \<notin> set t"
  shows "str_split sep (str_join [sep] ts) = ts"
  using assms
proof (induction "[sep]" ts rule: str_join.induct)
  case 1
  then show ?case by simp
next
  case (2 w)
  then show ?case by (simp add: str_split_no_sep)
next
  case (3 w v ws)
  then show ?case by (simp add: str_split_token)
qed

lemma str_join_last_two: "str_join ''_'' [a, b] = a @ ''_'' @ b"
  by simp

lemma capture_rate_key_tokens:
  assumes "\<forall>t \<in> set (ts @ [a, b]). CHR ''_'' \<notin> set t"
  shows "capture_rate_key (str_join ''_'' (ts @ [a, b])) = a @ ''_'' @ b"
proof -
  have "str_split CHR ''_'' (str_join ''_'' (ts @ [a, b])) = ts @ [a, b]"
    by (rule str_split_str_join) (use assms in auto)
  then show ?thesis
    by (simp add: capture_rate_key_def)
qed

lemma capture_rate_key_single: "CHR ''_'' \<notin> set a \<Longrightarrow> capture_rate_key a = a"
  by (simp add: capture_rate_key_def str_split_no_sep)

lemma ccs_base_name_tokens:
  assumes "\<forall>t \<in> set (ts @ [a]). CHR ''_'' \<notin> set t"
  shows "ccs_base_name (str_join ''_'' (ts @ [a])) = str_join ''_'' ts"
proof -
  have "str_split CHR ''_'' (str_join ''_'' (ts @ [a])) = ts @ [a]"
    by (rule str_split_str_join) (use assms in auto)
  then show ?thesis
    by (simp add: ccs_base_name_def)
qed

text \<open>What the procedure returns is what \<open>fuel_cost_table\<close> collects through \<open>apply\<close>.\<close>

lemma adjust_ccs_fuels_inplace_result:
  "fst (adjust_ccs_fuels_inplace row settings) = adjust_ccs_fuels row settings"
  by (auto simp: adjust_ccs_fuels_inplace_def adjust_ccs_fuels_def Let_def
      split: option.splits)

text \<open>
  Claim C3 as it is stated fails: the function is not pure. Called on the row of NG_ccs
  with price 3.00 and emission factor 0.053, it leaves the caller's row with price 3.477
  and emission factor 0.0053.
\<close>

theorem adjust_ccs_fuels_changes_its_argument:
  "snd (adjust_ccs_fuels_inplace
          \<lparr>Fuel = ''NG_ccs'', Cost_per_MMBtu = Some 3.00, CO2_content_tons_per_MMBtu = Some 0.053\<rparr>
          example_settings) =
     \<lparr>Fuel = ''NG_ccs'', Cost_per_MMBtu = Some 3.477, CO2_content_tons_per_MMBtu = Some 0.0053\<rparr> \<and>
   snd (adjust_ccs_fuels_inplace
          \<lparr>Fuel = ''NG_ccs'', Cost_per_MMBtu = Some 3.00, CO2_content_tons_per_MMBtu = Some 0.053\<rparr>
          example_settings) \<noteq>
     \<lparr>Fuel = ''NG_ccs'', Cost_per_MMBtu = Some 3.00, CO2_content_tons_per_MMBtu = Some 0.053\<rparr>"
  by (simp add: adjust_ccs_fuels_inplace_def example_settings_def capture_rate_key_def Let_def)

text \<open>
  Claim C3, amended. \<open>adjust_ccs_fuels\<close> changes the row it is given in place and returns
  that row. A row whose fuel name does not contain "ccs" is left as it is. For a row whose
  name does, with disposal cost \<open>d\<close> and capture rate \<open>r\<close> found under the last two
  underscore-delimited tokens of the name (under the whole name when it has one token),
  the emissions become \<open>emissions * (1 - r)\<close> and the price becomes
  \<open>price + emissions * r * d\<close> (a missing value stays missing). A call that raises leaves
  the row unchanged, and what is returned is the row that \<open>fuel_cost_table\<close> collects. For
  the fuel NG_ccs with price 3.00, emission factor 0.053, \<open>r = 0.9\<close> and \<open>d = 10\<close> the
  result is 0.0053 and 3.477.
\<close>

theorem adjust_ccs_fuels_in_place:
  "(\<not> str_contains ''ccs'' (Fuel row) \<longrightarrow>
      adjust_ccs_fuels_inplace row settings = (Inr row, row)) \<and>
   (str_contains ''ccs'' (Fuel row) \<and> ccs_disposal_cost settings = Some d \<and>
    ccs_capture_rate settings = Some rates \<and>
    ((\<exists>ts a b. Fuel row = str_join ''_'' (ts @ [a, b]) \<and>
        (\<forall>t \<in> set (ts @ [a, b]). CHR ''_'' \<notin> set t) \<and> rates (a @ ''_'' @ b) = Some r) \<or>
     (CHR ''_'' \<notin> set (Fuel row) \<and> rates (Fuel row) = Some r)) \<longrightarrow>
      adjust_ccs_fuels_inplace row settings =
        (Inr (row\<lparr>CO2_content_tons_per_MMBtu :=
                    map_option (\<lambda>e. e * (1 - r)) (CO2_content_tons_per_MMBtu row),
                  Cost_per_MMBtu :=
                    (case (Cost_per_MMBtu row, CO2_content_tons_per_MMBtu row) of
                       (Some p, Some e) \<Rightarrow> Some (p + e * r * d) | _ \<Rightarrow> None)\<rparr>),
         row\<lparr>CO2_content_tons_per_MMBtu :=
               map_option (\<lambda>e. e * (1 - r)) (CO2_content_tons_per_MMBtu row),
             Cost_per_MMBtu :=
               (case (Cost_per_MMBtu row, CO2_content_tons_per_MMBtu row) of
                  (Some p, Some e) \<Rightarrow> Some (p + e * r * d) | _ \<Rightarrow> None)\<rparr>)) \<and>
   (\<forall>e. fst (adjust_ccs_fuels_inplace row settings) = Inl e \<longrightarrow>
      snd (adjust_ccs_fuels_inplace row settings) = row) \<and>
   (\<forall>row'. fst (adjust_ccs_fuels_inplace row settings) = Inr row' \<longrightarrow>
      snd (adjust_ccs_fuels_inplace row settings) = row') \<and>
   fst (adjust_ccs_fuels_inplace row settings) = adjust_ccs_fuels row settings \<and>
   adjust_ccs_fuels_inplace
       \<lparr>Fuel = ''NG_ccs'', Cost_per_MMBtu = Some 3.00, CO2_content_tons_per_MMBtu = Some 0.053\<rparr>
       (settings\<lparr>ccs_disposal_cost := Some 10, ccs_capture_rate := Some [''NG_ccs'' \<mapsto> 0.9]\<rparr>) =
     (Inr \<lparr>Fuel = ''NG_ccs'', Cost_per_MMBtu = Some 3.477,
           CO2_content_tons_per_MMBtu = Some 0.0053\<rparr>,
      \<lparr>Fuel = ''NG_ccs'', Cost_per_MMBtu = Some 3.477,
        CO2_content_tons_per_MMBtu = Some 0.0053\<rparr>)"
proof (intro conjI impI allI)
  show "adjust_ccs_fuels_inplace row settings = (Inr row, row)"
    if "\<not> str_contains ''ccs'' (Fuel row)"
    using that by (simp add: adjust_ccs_fuels_inplace_def)
next
  let ?row' = "row\<lparr>CO2_content_tons_per_MMBtu :=
                    map_option (\<lambda>e. e * (1 - r)) (CO2_content_tons_per_MMBtu row),
                  Cost_per_MMBtu :=
                    (case (Cost_per_MMBtu row, CO2_content_tons_per_MMBtu row) of
                       (Some p, Some e) \<Rightarrow> Some (p + e * r * d) | _ \<Rightarrow> None)\<rparr>"
  assume h: "str_contains ''ccs'' (Fuel row) \<and> ccs_disposal_cost settings = Some d \<and>
    ccs_capture_rate settings = Some rates \<and>
    ((\<exists>ts a b. Fuel row = str_join ''_'' (ts @ [a, b]) \<and>
        (\<forall>t \<in> set (ts @ [a, b]). CHR ''_'' \<notin> set t) \<and> rates (a @ ''_'' @ b) = Some r) \<or>
     (CHR ''_'' \<notin> set (Fuel row) \<and> rates (Fuel row) = Some r))"
  then have key: "rates (capture_rate_key (Fuel row)) = Some r"
  proof (elim conjE disjE exE)
    fix ts a b
    assume "Fuel row = str_join ''_'' (ts @ [a, b])"
      and "\<forall>t \<in> set (ts @ [a, b]). CHR ''_'' \<notin> set t" and "rates (a @ ''_'' @ b) = Some r"
    then show ?thesis
      by (simp only: capture_rate_key_tokens)
  next
    assume "CHR ''_'' \<notin> set (Fuel row)" and "rates (Fuel row) = Some r"
    then show ?thesis
      by (simp add: capture_rate_key_single)
  qed
  from h key show "adjust_ccs_fuels_inplace row settings = (Inr ?row', ?row')"
    by (cases "CO2_content_tons_per_MMBtu row"; cases "Cost_per_MMBtu row")
       (simp_all add: adjust_ccs_fuels_inplace_def Let_def algebra_simps)
next
  fix e
  assume "fst (adjust_ccs_fuels_inplace row settings) = Inl e"
  then show "snd (adjust_ccs_fuels_inplace row settings) = row"
    by (auto simp: adjust_ccs_fuels_inplace_def Let_def split: if_splits option.splits)
next
  fix row'
  assume "fst (adjust_ccs_fuels_inplace row settings) = Inr row'"
  then show "snd (adjust_ccs_fuels_inplace row settings) = row'"
    by (auto simp: adjust_ccs_fuels_inplace_def Let_def split: if_splits option.splits)
next
  show "fst (adjust_ccs_fuels_inplace row settings) = adjust_ccs_fuels row settings"
    by (rule adjust_ccs_fuels_inplace_result)
next
  show "adjust_ccs_fuels_inplace
       \<lparr>Fuel = ''NG_ccs'', Cost_per_MMBtu = Some 3.00, CO2_content_tons_per_MMBtu = Some 0.053\<rparr>
       (settings\<lparr>ccs_disposal_cost := Some 10, ccs_capture_rate := Some [''NG_ccs'' \<mapsto> 0.9]\<rparr>) =
     (Inr \<lparr>Fuel = ''NG_ccs'', Cost_per_MMBtu = Some 3.477,
           CO2_content_tons_per_MMBtu = Some 0.0053\<rparr>,
      \<lparr>Fuel = ''NG_ccs'', Cost_per_MMBtu = Some 3.477,
        CO2_content_tons_per_MMBtu = Some 0.0053\<rparr>)"
    by (simp add: adjust_ccs_fuels_inplace_def capture_rate_key_def Let_def)
qed

text \<open>
  On a name of three tokens the rate is the one under the last two, not the one under the
  whole name; a row without "ccs" in its name is left alone.
\<close>

theorem adjust_ccs_fuels_in_place_witness:
  "adjust_ccs_fuels_inplace
       \<lparr>Fuel = ''NG'', Cost_per_MMBtu = Some 3.00, CO2_content_tons_per_MMBtu = Some 0.053\<rparr>
       example_settings =
     (Inr \<lparr>Fuel = ''NG'', Cost_per_MMBtu = Some 3.00, CO2_content_tons_per_MMBtu = Some 0.053\<rparr>,
      \<lparr>Fuel = ''NG'', Cost_per_MMBtu = Some 3.00, CO2_content_tons_per_MMBtu = Some 0.053\<rparr>) \<and>
   ''gulf_coal_ccs'' = str_join ''_'' ([''gulf''] @ [''coal'', ''ccs'']) \<and>
   adjust_ccs_fuels_inplace
       \<lparr>Fuel = ''gulf_coal_ccs'', Cost_per_MMBtu = Some 2, CO2_content_tons_per_MMBtu = Some 0.1\<rparr>
       (example_settings
          \<lparr>ccs_capture_rate := Some [''coal_ccs'' \<mapsto> 0.5, ''gulf_coal_ccs'' \<mapsto> 0.25]\<rparr>) =
     (Inr \<lparr>Fuel = ''gulf_coal_ccs'', Cost_per_MMBtu = Some 2.5,
           CO2_content_tons_per_MMBtu = Some 0.05\<rparr>,
      \<lparr>Fuel = ''gulf_coal_ccs'', Cost_per_MMBtu = Some 2.5,
        CO2_content_tons_per_MMBtu = Some 0.05\<rparr>)"
proof -
  let ?rates = "[''coal_ccs'' \<mapsto> 0.5, ''gulf_coal_ccs'' \<mapsto> 0.25] :: string \<rightharpoonup> real"
  let ?s = "example_settings\<lparr>ccs_capture_rate := Some ?rates\<rparr>"
  let ?row = "\<lparr>Fuel = ''gulf_coal_ccs'', Cost_per_MMBtu = Some 2,
                CO2_content_tons_per_MMBtu = Some (0.1 :: real)\<rparr>"
  have name: "''gulf_coal_ccs'' = str_join ''_'' ([''gulf''] @ [''coal'', ''ccs''])"
    by simp
  have tokens: "\<exists>ts a b. Fuel ?row = str_join ''_'' (ts @ [a, b]) \<and>
        (\<forall>t \<in> set (ts @ [a, b]). CHR ''_'' \<notin> set t) \<and> ?rates (a @ ''_'' @ b) = Some 0.5"
    apply (rule exI[of _ "[''gulf'']"])
    apply (rule exI[of _ "''coal''"])
    apply (rule exI[of _ "''ccs''"])
    apply simp
    done
  have "str_contains ''ccs'' (Fuel ?row) \<and> ccs_disposal_cost ?s = Some 10 \<and>
    ccs_capture_rate ?s = Some ?rates \<and>
    ((\<exists>ts a b. Fuel ?row = str_join ''_'' (ts @ [a, b]) \<and>
        (\<forall>t \<in> set (ts @ [a, b]). CHR ''_'' \<notin> set t) \<and> ?rates (a @ ''_'' @ b) = Some 0.5) \<or>
     (CHR ''_'' \<notin> set (Fuel ?row) \<and> ?rates (Fuel ?row) = Some 0.5))"
  proof (intro conjI disjI1)
    show "str_contains ''ccs'' (Fuel ?row)" by simp
    show "ccs_disposal_cost ?s = Some 10" by (simp add: example_settings_def)
    show "ccs_capture_rate ?s = Some ?rates" by simp
    show "\<exists>ts a b. Fuel ?row = str_join ''_'' (ts @ [a, b]) \<and>
        (\<forall>t \<in> set (ts @ [a, b]). CHR ''_'' \<notin> set t) \<and> ?rates (a @ ''_'' @ b) = Some 0.5"
      by (rule tokens)
  qed
  with adjust_ccs_fuels_in_place[of ?row ?s 10 ?rates "0.5"]
  have three: "adjust_ccs_fuels_inplace ?row ?s =
     (Inr \<lparr>Fuel = ''gulf_coal_ccs'', Cost_per_MMBtu = Some 2.5,
           CO2_content_tons_per_MMBtu = Some 0.05\<rparr>,
      \<lparr>Fuel = ''gulf_coal_ccs'', Cost_per_MMBtu = Some 2.5,
        CO2_content_tons_per_MMBtu = Some 0.05\<rparr>)"
    by simp
  from adjust_ccs_fuels_in_place
      [of "\<lparr>Fuel = ''NG'', Cost_per_MMBtu = Some 3.00, CO2_content_tons_per_MMBtu = Some 0.053\<rparr>"
          example_settings]
  have plain: "adjust_ccs_fuels_inplace
       \<lparr>Fuel = ''NG'', Cost_per_MMBtu = Some 3.00, CO2_content_tons_per_MMBtu = Some 0.053\<rparr>
       example_settings =
     (Inr \<lparr>Fuel = ''NG'', Cost_per_MMBtu = Some 3.00, CO2_content_tons_per_MMBtu = Some 0.053\<rparr>,
      \<lparr>Fuel = ''NG'', Cost_per_MMBtu = Some 3.00, CO2_content_tons_per_MMBtu = Some 0.053\<rparr>)"
    by simp
  from plain name three show ?thesis by (intro conjI)
qed

lemma round_half_even_bounds:
  "\<bar>of_int (round_half_even x) - x\<bar> \<le> 1 / 2"
proof -
  have "of_int \<lfloor>x\<rfloor> \<le> x" "x < of_int \<lfloor>x\<rfloor> + 1" by linarith+
  then show ?thesis
    by (auto simp: round_half_even_def Let_def)
qed

lemma round_half_even_0: "round_half_even 0 = 0"
  by (simp add: round_half_even_def)

lemma np_round_0: "np_round n 0 = 0"
  by (simp add: np_round_def round_half_even_0)

lemma np_round_decimals: "\<exists>k::int. np_round n x = of_int k / 10 ^ n"
  by (auto simp: np_round_def)

lemma np_round_close: "\<bar>np_round n x - x\<bar> \<le> 1 / (2 * 10 ^ n)"
proof -
  have "\<bar>np_round n x - x\<bar> = \<bar>of_int (round_half_even (x * 10 ^ n)) - x * 10 ^ n\<bar> / 10 ^ n"
    by (simp add: np_round_def field_simps flip: abs_mult)
  also have "\<dots> \<le> (1 / 2) / 10 ^ n"
    by (rule divide_right_mono[OF round_half_even_bounds]) simp
  finally show ?thesis by simp
qed

lemma set_ccs_fuels_of:
  "set (ccs_fuels_of gens) = {f \<in> Fuel ` set gens. str_contains ''ccs'' f}"
  by (auto simp: ccs_fuels_of_def set_drop_duplicates)

lemma distinct_ccs_fuels_of: "distinct (ccs_fuels_of gens)"
  by (simp add: ccs_fuels_of_def distinct_drop_duplicates)

lemma ccs_adjusted_df_InrD:
  assumes "ccs_adjusted_df a fc gens s = Inr adjusted"
  obtains my ed pm em where
    "model_year s = Some my" "fuel_emission_factors s = Some ed"
    "foldM ccs_step (ccs_fuels_of gens)
       (fuel_price_lookup (filter (\<lambda>row. year row = my) (a s fc)),
        fuel_emission_lookup (fuel_price_lookup (filter (\<lambda>row. year row = my) (a s fc))) ed)
     = Inr (pm, em)"
    "list_all2 (\<lambda>f r. adjust_ccs_fuels
        \<lparr>Fuel = f, Cost_per_MMBtu = pm f, CO2_content_tons_per_MMBtu = em f\<rparr> s = Inr r)
       (drop_duplicates (map Fuel gens)) adjusted"
proof -
  from assms obtain my where my: "model_year s = Some my"
    by (auto simp: ccs_adjusted_df_unfold Let_def split: option.splits)
  from assms my obtain ed where ed: "fuel_emission_factors s = Some ed"
    by (auto simp: ccs_adjusted_df_unfold Let_def split: option.splits)
  let ?pm0 = "fuel_price_lookup (filter (\<lambda>row. year row = my) (a s fc))"
  from assms my ed obtain pm em where
    f: "foldM ccs_step (ccs_fuels_of gens) (?pm0, fuel_emission_lookup ?pm0 ed) = Inr (pm, em)"
    by (auto simp: ccs_adjusted_df_unfold Let_def split: sum.splits)
  from assms my ed f have
    "mapM (\<lambda>r. adjust_ccs_fuels r s)
       (map (\<lambda>f. \<lparr>Fuel = f, Cost_per_MMBtu = pm f, CO2_content_tons_per_MMBtu = em f\<rparr>)
          (drop_duplicates (map Fuel gens))) = Inr adjusted"
    by (simp add: ccs_adjusted_df_unfold Let_def)
  from mapM_Inr_all2[OF this] have
    "list_all2 (\<lambda>f r. adjust_ccs_fuels
        \<lparr>Fuel = f, Cost_per_MMBtu = pm f, CO2_content_tons_per_MMBtu = em f\<rparr> s = Inr r)
       (drop_duplicates (map Fuel gens)) adjusted"
    by (simp add: list_all2_map1)
  with my ed f show thesis by (rule that)
qed

lemma adjust_ccs_fuels_Inr:
  assumes "adjust_ccs_fuels r s = Inr r'"
  shows "Fuel r' = Fuel r"
    and "(Cost_per_MMBtu r = None \<longleftrightarrow> CO2_content_tons_per_MMBtu r = None) \<Longrightarrow>
         (Cost_per_MMBtu r' = None \<longleftrightarrow> CO2_content_tons_per_MMBtu r' = None)"
    and "\<not> str_contains ''ccs'' (Fuel r) \<Longrightarrow> r' = r"
  using assms
  by (auto simp: adjust_ccs_fuels_def Let_def split: if_splits option.splits)

lemma ccs_adjusted_df_rows:
  assumes "ccs_adjusted_df a fc gens s = Inr adjusted"
  shows "map Fuel adjusted = drop_duplicates (map Fuel gens)"
    and "\<forall>r \<in> set adjusted. (Cost_per_MMBtu r = None \<longleftrightarrow> CO2_content_tons_per_MMBtu r = None)"
proof -
  from assms obtain my ed pm em where
    f: "foldM ccs_step (ccs_fuels_of gens)
       (fuel_price_lookup (filter (\<lambda>row. year row = my) (a s fc)),
        fuel_emission_lookup (fuel_price_lookup (filter (\<lambda>row. year row = my) (a s fc))) ed)
     = Inr (pm, em)" and
    l: "list_all2 (\<lambda>f r. adjust_ccs_fuels
        \<lparr>Fuel = f, Cost_per_MMBtu = pm f, CO2_content_tons_per_MMBtu = em f\<rparr> s = Inr r)
       (drop_duplicates (map Fuel gens)) adjusted"
    by (rule ccs_adjusted_df_InrD)
  from foldM_ccs_step_dom[OF f] have d: "dom pm = dom em"
    by (simp add: dom_fuel_emission_lookup)
  have n: "(pm f = None) = (em f = None)" for f
    using d by (metis domIff)
  from l have "list_all2 (\<lambda>f r. Fuel r = f) (drop_duplicates (map Fuel gens)) adjusted"
    by (rule list_all2_mono) (auto dest: adjust_ccs_fuels_Inr(1))
  then show "map Fuel adjusted = drop_duplicates (map Fuel gens)"
    by (induction rule: list_all2_induct) auto
  from l have "list_all2 (\<lambda>f r. (Cost_per_MMBtu r = None \<longleftrightarrow> CO2_content_tons_per_MMBtu r = None))
      (drop_duplicates (map Fuel gens)) adjusted"
    by (rule list_all2_mono) (drule adjust_ccs_fuels_Inr(2), simp_all add: n)
  then show "\<forall>r \<in> set adjusted. (Cost_per_MMBtu r = None \<longleftrightarrow> CO2_content_tons_per_MMBtu r = None)"
    by (induction rule: list_all2_induct) auto
qed

lemma add_carbon_tax_length: "length (add_carbon_tax df s) = length df"
  by (simp add: add_carbon_tax_def Let_def)

lemma add_carbon_tax_nth:
  "j < length df \<Longrightarrow> add_carbon_tax df s ! j =
     (df ! j)\<lparr>Cost_per_MMBtu :=
        (case (Cost_per_MMBtu (df ! j), CO2_content_tons_per_MMBtu (df ! j)) of
           (Some p, Some e) \<Rightarrow> Some (p + e * (case carbon_tax s of None \<Rightarrow> 0 | Some t \<Rightarrow> t))
         | _ \<Rightarrow> None)\<rparr>"
  by (simp add: add_carbon_tax_def Let_def)

lemma add_carbon_tax_absent:
  assumes "carbon_tax s = None"
    and "\<forall>r \<in> set df. (Cost_per_MMBtu r = None \<longleftrightarrow> CO2_content_tons_per_MMBtu r = None)"
  shows "add_carbon_tax df s = df"
proof -
  have "r\<lparr>Cost_per_MMBtu :=
          (case (Cost_per_MMBtu r, CO2_content_tons_per_MMBtu r) of
             (Some p, Some e) \<Rightarrow> Some (p + e * 0) | _ \<Rightarrow> None)\<rparr> = r" if "r \<in> set df" for r
    using assms(2) that by (cases "Cost_per_MMBtu r"; cases "CO2_content_tons_per_MMBtu r") auto
  then show ?thesis
    using assms(1) by (simp add: add_carbon_tax_def map_idI)
qed

lemma example_adjusted:
  "ccs_adjusted_df (\<lambda>s c. c) example_fuel_costs example_generators example_settings =
     Inr [\<lparr>Fuel = ''NG'', Cost_per_MMBtu = Some 3, CO2_content_tons_per_MMBtu = Some 0.053\<rparr>,
          \<lparr>Fuel = ''NG_ccs'', Cost_per_MMBtu = Some 3.477, CO2_content_tons_per_MMBtu = Some 0.0053\<rparr>,
          \<lparr>Fuel = ''biomass'', Cost_per_MMBtu = None, CO2_content_tons_per_MMBtu = None\<rparr>]"
  by (simp add: ccs_adjusted_df_unfold example_fuel_costs_def example_generators_def
      example_settings_def fuel_price_lookup_def fuel_emission_lookup_def ccs_fuels_of_def
      ccs_step_def ccs_base_name_def adjust_ccs_fuels_def capture_rate_key_def Let_def)

subsection \<open>The carbon tax\<close>

text \<open>
  Claim C4. After the CCS adjustment, \<open>fuel_cost_table\<close> adds the carbon tax to every
  row: a row with post-capture price \<open>p\<close> has post-capture emissions \<open>e\<close> and gets the
  price \<open>p + e * carbon_tax\<close>, with 0 for an absent \<open>carbon_tax\<close>, so that the rows are
  unchanged then; the emissions are never changed, and the hourly rows of the result
  hold these prices, rounded. A tax of 5 on emissions 0.0053 and price 3.477 gives 3.5035.
\<close>

theorem carbon_tax_applied:
  assumes "ccs_adjusted_df add_user_fuel_prices fuel_costs generators settings = Inr adjusted"
  shows
   "fuel_df_of add_user_fuel_prices fuel_costs generators settings =
      Inr (add_carbon_tax adjusted settings) \<and>
    length (add_carbon_tax adjusted settings) = length adjusted \<and>
    (\<forall>j < length adjusted.
       Fuel (add_carbon_tax adjusted settings ! j) = Fuel (adjusted ! j) \<and>
       CO2_content_tons_per_MMBtu (add_carbon_tax adjusted settings ! j) =
         CO2_content_tons_per_MMBtu (adjusted ! j) \<and>
       (case Cost_per_MMBtu (adjusted ! j) of
          None \<Rightarrow> Cost_per_MMBtu (add_carbon_tax adjusted settings ! j) = None
        | Some p \<Rightarrow>
            (\<exists>e. CO2_content_tons_per_MMBtu (adjusted ! j) = Some e \<and>
                 Cost_per_MMBtu (add_carbon_tax adjusted settings ! j) =
                   Some (p + e * (case carbon_tax settings of None \<Rightarrow> 0 | Some t \<Rightarrow> t))))) \<and>
    (carbon_tax settings = None \<longrightarrow> add_carbon_tax adjusted settings = adjusted) \<and>
    (\<forall>t. fuel_cost_table add_user_fuel_prices fuel_costs generators settings = Inr t \<longrightarrow>
       (\<forall>(h, vals) \<in> set (table_rows t). 1 \<le> h \<longrightarrow>
          vals = map (\<lambda>r. np_round 2 (fillna0 (Cost_per_MMBtu r)))
                   (add_carbon_tax adjusted settings))) \<and>
    add_carbon_tax
        [\<lparr>Fuel = f, Cost_per_MMBtu = Some 3.477, CO2_content_tons_per_MMBtu = Some 0.0053\<rparr>]
        (settings\<lparr>carbon_tax := Some 5\<rparr>) =
      [\<lparr>Fuel = f, Cost_per_MMBtu = Some 3.5035, CO2_content_tons_per_MMBtu = Some 0.0053\<rparr>]"
proof (intro conjI allI impI)
  note inv = ccs_adjusted_df_rows(2)[OF assms]
  show "fuel_df_of add_user_fuel_prices fuel_costs generators settings =
      Inr (add_carbon_tax adjusted settings)"
    using assms by (simp add: fuel_df_of_def)
  show "length (add_carbon_tax adjusted settings) = length adjusted"
    by (rule add_carbon_tax_length)
  show "add_carbon_tax adjusted settings = adjusted" if "carbon_tax settings = None"
    using that inv by (rule add_carbon_tax_absent)
  show "add_carbon_tax
        [\<lparr>Fuel = f, Cost_per_MMBtu = Some 3.477, CO2_content_tons_per_MMBtu = Some 0.0053\<rparr>]
        (settings\<lparr>carbon_tax := Some 5\<rparr>) =
      [\<lparr>Fuel = f, Cost_per_MMBtu = Some 3.5035, CO2_content_tons_per_MMBtu = Some 0.0053\<rparr>]"
    by (simp add: add_carbon_tax_def)
next
  fix j assume j: "j < length adjusted"
  then have m: "adjusted ! j \<in> set adjusted" by simp
  show "Fuel (add_carbon_tax adjusted settings ! j) = Fuel (adjusted ! j)"
    using j by (simp add: add_carbon_tax_nth)
  show "CO2_content_tons_per_MMBtu (add_carbon_tax adjusted settings ! j) =
         CO2_content_tons_per_MMBtu (adjusted ! j)"
    using j by (simp add: add_carbon_tax_nth)
  show "case Cost_per_MMBtu (adjusted ! j) of
          None \<Rightarrow> Cost_per_MMBtu (add_carbon_tax adjusted settings ! j) = None
        | Some p \<Rightarrow>
            (\<exists>e. CO2_content_tons_per_MMBtu (adjusted ! j) = Some e \<and>
                 Cost_per_MMBtu (add_carbon_tax adjusted settings ! j) =
                   Some (p + e * (case carbon_tax settings of None \<Rightarrow> 0 | Some t \<Rightarrow> t)))"
  proof -
    from ccs_adjusted_df_rows(2)[OF assms] m have
      "(Cost_per_MMBtu (adjusted ! j) = None) = (CO2_content_tons_per_MMBtu (adjusted ! j) = None)"
      by blast
    then show ?thesis
      using j
      by (cases "Cost_per_MMBtu (adjusted ! j)"; cases "CO2_content_tons_per_MMBtu (adjusted ! j)")
         (simp_all add: add_carbon_tax_nth)
  qed
next
  fix t assume t: "fuel_cost_table add_user_fuel_prices fuel_costs generators settings = Inr t"
  show "\<forall>(h, vals) \<in> set (table_rows t). 1 \<le> h \<longrightarrow>
          vals = map (\<lambda>r. np_round 2 (fillna0 (Cost_per_MMBtu r)))
                   (add_carbon_tax adjusted settings)"
    using t assms by (auto simp: fuel_cost_table_def fuel_df_of_def split: sum.splits)
qed

theorem carbon_tax_applied_witness:
  "ccs_adjusted_df (\<lambda>s c. c) example_fuel_costs example_generators example_settings =
     Inr [\<lparr>Fuel = ''NG'', Cost_per_MMBtu = Some 3, CO2_content_tons_per_MMBtu = Some 0.053\<rparr>,
          \<lparr>Fuel = ''NG_ccs'', Cost_per_MMBtu = Some 3.477,
           CO2_content_tons_per_MMBtu = Some 0.0053\<rparr>,
          \<lparr>Fuel = ''biomass'', Cost_per_MMBtu = None, CO2_content_tons_per_MMBtu = None\<rparr>] \<and>
   fuel_df_of (\<lambda>s c. c) example_fuel_costs example_generators example_settings =
     Inr [\<lparr>Fuel = ''NG'', Cost_per_MMBtu = Some 3.265, CO2_content_tons_per_MMBtu = Some 0.053\<rparr>,
          \<lparr>Fuel = ''NG_ccs'', Cost_per_MMBtu = Some 3.5035,
           CO2_content_tons_per_MMBtu = Some 0.0053\<rparr>,
          \<lparr>Fuel = ''biomass'', Cost_per_MMBtu = None, CO2_content_tons_per_MMBtu = None\<rparr>]"
  using carbon_tax_applied[OF example_adjusted] example_adjusted
  by (simp add: add_carbon_tax_def example_settings_def)

subsection \<open>The shape of the result table\<close>

lemma fuel_cost_table_InrD:
  assumes "fuel_cost_table a fc gens s = Inr t"
  obtains fuel_df n where
    "fuel_df_of a fc gens s = Inr fuel_df" "num_hours s = Inr n"
    "t = \<lparr>columns = drop_duplicates (map Fuel gens), index_name = ''Time_Index'',
          table_rows =
            (0, map (\<lambda>r. np_round 5 (fillna0 (CO2_content_tons_per_MMBtu r))) fuel_df)
            # map (\<lambda>h. (h, map (\<lambda>r. np_round 2 (fillna0 (Cost_per_MMBtu r))) fuel_df)) [1..n]\<rparr>"
  using assms by (auto simp: fuel_cost_table_def split: sum.splits)

lemma num_hours_Inr:
  assumes "num_hours s = Inr n"
  shows "reduce_time_domain s = Some True \<Longrightarrow>
           \<exists>days periods. time_domain_days_per_period s = Some days \<and>
              time_domain_periods s = Some periods \<and> n = days * periods * 24"
    and "reduce_time_domain s \<noteq> Some True \<Longrightarrow> n = 8760"
  using assms by (auto simp: num_hours_def split: if_splits option.splits)

text \<open>
  Claim C5. The index of the result is named "Time_Index". The row labelled 0 holds the
  emission factors rounded to 5 decimals; it is followed by the rows labelled 1 to N,
  each of which holds the same prices rounded to 2 decimals. N is
  \<open>time_domain_days_per_period * time_domain_periods * 24\<close> when \<open>reduce_time_domain\<close> is
  set (to a true value) and 8760 otherwise; 7 days and 4 periods give 672.
\<close>

theorem fuel_cost_table_shape:
  assumes "fuel_cost_table add_user_fuel_prices fuel_costs generators settings = Inr t"
  shows
   "\<exists>fuel_df n.
      fuel_df_of add_user_fuel_prices fuel_costs generators settings = Inr fuel_df \<and>
      num_hours settings = Inr n \<and>
      (reduce_time_domain settings = Some True \<longrightarrow>
         (\<exists>days periods. time_domain_days_per_period settings = Some days \<and>
            time_domain_periods settings = Some periods \<and> n = days * periods * 24)) \<and>
      (reduce_time_domain settings \<noteq> Some True \<longrightarrow> n = 8760) \<and>
      index_name t = ''Time_Index'' \<and>
      map fst (table_rows t) = 0 # [1..n] \<and>
      length (table_rows t) = 1 + nat n \<and>
      table_rows t ! 0 =
        (0, map (\<lambda>r. np_round 5 (fillna0 (CO2_content_tons_per_MMBtu r))) fuel_df) \<and>
      (\<forall>h. 1 \<le> h \<and> h \<le> n \<longrightarrow>
         table_rows t ! nat h =
           (h, map (\<lambda>r. np_round 2 (fillna0 (Cost_per_MMBtu r))) fuel_df)) \<and>
      (\<forall>r \<in> set fuel_df.
         (\<exists>k::int. np_round 5 (fillna0 (CO2_content_tons_per_MMBtu r)) = of_int k / 10 ^ 5) \<and>
         \<bar>np_round 5 (fillna0 (CO2_content_tons_per_MMBtu r))
            - fillna0 (CO2_content_tons_per_MMBtu r)\<bar> \<le> 1 / (2 * 10 ^ 5) \<and>
         (\<exists>k::int. np_round 2 (fillna0 (Cost_per_MMBtu r)) = of_int k / 10 ^ 2) \<and>
         \<bar>np_round 2 (fillna0 (Cost_per_MMBtu r)) - fillna0 (Cost_per_MMBtu r)\<bar>
            \<le> 1 / (2 * 10 ^ 2)) \<and>
      num_hours (settings\<lparr>reduce_time_domain := Some True,
                   time_domain_days_per_period := Some 7, time_domain_periods := Some 4\<rparr>)
        = Inr 672"
proof -
  from assms obtain fuel_df n where
    df: "fuel_df_of add_user_fuel_prices fuel_costs generators settings = Inr fuel_df" and
    n: "num_hours settings = Inr n" and
    t: "t = \<lparr>columns = drop_duplicates (map Fuel generators), index_name = ''Time_Index'',
          table_rows =
            (0, map (\<lambda>r. np_round 5 (fillna0 (CO2_content_tons_per_MMBtu r))) fuel_df)
            # map (\<lambda>h. (h, map (\<lambda>r. np_round 2 (fillna0 (Cost_per_MMBtu r))) fuel_df)) [1..n]\<rparr>"
    by (rule fuel_cost_table_InrD)
  have fst: "map fst (table_rows t) = 0 # [1..n]"
    by (simp add: t comp_def)
  have len: "length (table_rows t) = 1 + nat n"
    by (simp add: t)
  have hour: "table_rows t ! nat h =
           (h, map (\<lambda>r. np_round 2 (fillna0 (Cost_per_MMBtu r))) fuel_df)"
    if "1 \<le> h \<and> h \<le> n" for h
  proof -
    from that have "nat h = Suc (nat (h - 1))" by linarith
    then have "table_rows t ! nat h =
       map (\<lambda>h. (h, map (\<lambda>r. np_round 2 (fillna0 (Cost_per_MMBtu r))) fuel_df)) [1..n] ! nat (h - 1)"
      by (simp add: t)
    also have "\<dots> = (h, map (\<lambda>r. np_round 2 (fillna0 (Cost_per_MMBtu r))) fuel_df)"
      using that by simp
    finally show ?thesis .
  qed
  have ex: "num_hours (settings\<lparr>reduce_time_domain := Some True,
                   time_domain_days_per_period := Some 7, time_domain_periods := Some 4\<rparr>)
        = Inr 672"
    by (simp add: num_hours_def)
  show ?thesis
    apply (rule exI[of _ fuel_df], rule exI[of _ n])
    apply (intro conjI ballI allI impI)
    subgoal by (rule df)
    subgoal by (rule n)
    subgoal by (rule num_hours_Inr(1)[OF n])
    subgoal by (rule num_hours_Inr(2)[OF n])
    subgoal by (simp add: t)
    subgoal by (rule fst)
    subgoal by (rule len)
    subgoal by (simp add: t)
    subgoal by (rule hour)
    subgoal by (rule np_round_decimals)
    subgoal by (rule np_round_close)
    subgoal by (rule np_round_decimals)
    subgoal by (rule np_round_close)
    subgoal by (rule ex)
    done
qed

lemma example_taxed:
  "fuel_df_of (\<lambda>s c. c) example_fuel_costs example_generators example_settings =
     Inr example_fuel_df"
proof -
  have "add_carbon_tax
     [\<lparr>Fuel = ''NG'', Cost_per_MMBtu = Some 3, CO2_content_tons_per_MMBtu = Some 0.053\<rparr>,
          \<lparr>Fuel = ''NG_ccs'', Cost_per_MMBtu = Some 3.477, CO2_content_tons_per_MMBtu = Some 0.0053\<rparr>,
          \<lparr>Fuel = ''biomass'', Cost_per_MMBtu = None, CO2_content_tons_per_MMBtu = None\<rparr>]
     example_settings = example_fuel_df"
    by (simp add: add_carbon_tax_def example_settings_def example_fuel_df_def)
  then show ?thesis
    by (simp only: fuel_df_of_def example_adjusted sum.case)
qed

lemma example_rounded:
  "map (\<lambda>r. np_round 5 (fillna0 (CO2_content_tons_per_MMBtu r))) example_fuel_df
     = [0.053, 0.0053, 0]"
  "map (\<lambda>r. np_round 2 (fillna0 (Cost_per_MMBtu r))) example_fuel_df = [3.26, 3.50, 0]"
  by (simp_all add: example_fuel_df_def fillna0_def np_round_def round_half_even_def)

lemma example_table:
  "fuel_cost_table (\<lambda>s c. c) example_fuel_costs example_generators example_settings =
     Inr \<lparr>columns = [''NG'', ''NG_ccs'', ''biomass''], index_name = ''Time_Index'',
          table_rows = (0, [0.053, 0.0053, 0]) # map (\<lambda>h. (h, [3.26, 3.50, 0])) [1..672]\<rparr>"
proof -
  have n: "num_hours example_settings = Inr 672"
    by (simp add: num_hours_def example_settings_def)
  have c: "drop_duplicates (map Fuel example_generators) = [''NG'', ''NG_ccs'', ''biomass'']"
    by (simp add: example_generators_def)
  show ?thesis
    by (simp only: fuel_cost_table_def example_taxed n sum.case example_rounded c)
qed

theorem fuel_cost_table_shape_witness:
  "\<exists>t. fuel_cost_table (\<lambda>s c. c) example_fuel_costs example_generators example_settings = Inr t \<and>
       index_name t = ''Time_Index'' \<and> length (table_rows t) = 673 \<and>
       table_rows t ! 0 = (0, [0.053, 0.0053, 0]) \<and>
       table_rows t ! 1 = (1, [3.26, 3.50, 0]) \<and>
       table_rows t ! 672 = (672, [3.26, 3.50, 0])"
proof -
  let ?t = "\<lparr>columns = [''NG'', ''NG_ccs'', ''biomass''], index_name = ''Time_Index'',
          table_rows = (0, [0.053, 0.0053, 0]) # map (\<lambda>h. (h, [3.26, 3.50, 0])) [1..672]\<rparr>"
  from fuel_cost_table_shape[OF example_table] obtain fuel_df n where
    df: "fuel_df_of (\<lambda>s c. c) example_fuel_costs example_generators example_settings = Inr fuel_df"
    and red: "reduce_time_domain example_settings = Some True \<longrightarrow>
         (\<exists>days periods. time_domain_days_per_period example_settings = Some days \<and>
            time_domain_periods example_settings = Some periods \<and> n = days * periods * 24)"
    and nm: "index_name ?t = ''Time_Index''"
    and len: "length (table_rows ?t) = 1 + nat n"
    and top: "table_rows ?t ! 0 =
        (0, map (\<lambda>r. np_round 5 (fillna0 (CO2_content_tons_per_MMBtu r))) fuel_df)"
    and hours: "\<forall>h. 1 \<le> h \<and> h \<le> n \<longrightarrow> table_rows ?t ! nat h =
           (h, map (\<lambda>r. np_round 2 (fillna0 (Cost_per_MMBtu r))) fuel_df)"
    by blast
  from red have n672: "n = 672" by (simp add: example_settings_def)
  from df have fd: "fuel_df = example_fuel_df"
    by (simp add: example_taxed)
  have "1 \<le> (1::int) \<and> (1::int) \<le> n" "1 \<le> (672::int) \<and> (672::int) \<le> n"
    using n672 by simp_all
  then have "table_rows ?t ! nat 1 =
      (1, map (\<lambda>r. np_round 2 (fillna0 (Cost_per_MMBtu r))) fuel_df)"
    "table_rows ?t ! nat 672 =
      (672, map (\<lambda>r. np_round 2 (fillna0 (Cost_per_MMBtu r))) fuel_df)"
    using hours by blast+
  then have h: "table_rows ?t ! 1 = (1, [3.26, 3.50, 0])"
    "table_rows ?t ! 672 = (672, [3.26, 3.50, 0])"
    by (simp_all only: fd example_rounded nat_numeral nat_one_as_int[symmetric] nat_int)
  from len n672 have l: "length (table_rows ?t) = 673" by simp
  from top have tp: "table_rows ?t ! 0 = (0, [0.053, 0.0053, 0])"
    unfolding fd example_rounded .
  from example_table nm l tp h show ?thesis by blast
qed

subsection \<open>Columns and missing values\<close>

lemma fuel_df_of_InrD:
  assumes "fuel_df_of a fc gens s = Inr fuel_df"
  obtains adjusted where
    "ccs_adjusted_df a fc gens s = Inr adjusted" "fuel_df = add_carbon_tax adjusted s"
  using assms by (auto simp: fuel_df_of_def split: sum.splits)

text \<open>
  A roster fuel that is not a CCS fuel keeps the entries the two lookups had for it
  before the loop over the CCS fuels, through to the row with the carbon tax.
\<close>

lemma non_ccs_row:
  assumes df: "fuel_df_of a fc gens s = Inr fuel_df"
    and my: "model_year s = Some my" and ed: "fuel_emission_factors s = Some ed"
    and j: "j < length (drop_duplicates (map Fuel gens))"
    and f: "f = drop_duplicates (map Fuel gens) ! j"
    and nc: "\<not> str_contains ''ccs'' f"
  defines "pm0 \<equiv> fuel_price_lookup (filter (\<lambda>row. year row = my) (a s fc))"
  shows "length fuel_df = length (drop_duplicates (map Fuel gens))"
    and "fuel_df ! j = hd (add_carbon_tax
           [\<lparr>Fuel = f, Cost_per_MMBtu = pm0 f,
             CO2_content_tons_per_MMBtu = fuel_emission_lookup pm0 ed f\<rparr>] s)"
proof -
  from df obtain adjusted where
    adj: "ccs_adjusted_df a fc gens s = Inr adjusted" and
    fd: "fuel_df = add_carbon_tax adjusted s"
    by (rule fuel_df_of_InrD)
  from adj obtain my' ed' pm em where
    "model_year s = Some my'" "fuel_emission_factors s = Some ed'" and
    fo: "foldM ccs_step (ccs_fuels_of gens)
       (fuel_price_lookup (filter (\<lambda>row. year row = my') (a s fc)),
        fuel_emission_lookup (fuel_price_lookup (filter (\<lambda>row. year row = my') (a s fc))) ed')
     = Inr (pm, em)" and
    l: "list_all2 (\<lambda>f r. adjust_ccs_fuels
        \<lparr>Fuel = f, Cost_per_MMBtu = pm f, CO2_content_tons_per_MMBtu = em f\<rparr> s = Inr r)
       (drop_duplicates (map Fuel gens)) adjusted"
    by (rule ccs_adjusted_df_InrD)
  with my ed have fo': "foldM ccs_step (ccs_fuels_of gens) (pm0, fuel_emission_lookup pm0 ed)
     = Inr (pm, em)"
    by (simp add: pm0_def)
  from l have len: "length adjusted = length (drop_duplicates (map Fuel gens))"
    by (simp add: list_all2_lengthD)
  then show "length fuel_df = length (drop_duplicates (map Fuel gens))"
    by (simp add: fd add_carbon_tax_length)
  from nc have "f \<notin> set (ccs_fuels_of gens)"
    by (simp add: set_ccs_fuels_of)
  from foldM_ccs_step_other[OF fo' this] have
    same: "pm f = pm0 f" "em f = fuel_emission_lookup pm0 ed f"
    by simp_all
  from list_all2_nthD[OF l j] f have "adjust_ccs_fuels
        \<lparr>Fuel = f, Cost_per_MMBtu = pm f, CO2_content_tons_per_MMBtu = em f\<rparr> s
      = Inr (adjusted ! j)"
    by simp
  with nc have "adjusted ! j =
      \<lparr>Fuel = f, Cost_per_MMBtu = pm f, CO2_content_tons_per_MMBtu = em f\<rparr>"
    by (simp add: adjust_ccs_fuels_def)
  with same have aj: "adjusted ! j =
      \<lparr>Fuel = f, Cost_per_MMBtu = pm0 f,
        CO2_content_tons_per_MMBtu = fuel_emission_lookup pm0 ed f\<rparr>"
    by simp
  have "\<exists>g. \<forall>df. add_carbon_tax df s = map g df"
    unfolding add_carbon_tax_def Let_def by (rule exI, rule allI, rule refl)
  then obtain g where g: "\<And>df. add_carbon_tax df s = map g df"
    by blast
  from j len have "fuel_df ! j = g (adjusted ! j)"
    by (simp add: fd g)
  then show "fuel_df ! j = hd (add_carbon_tax
           [\<lparr>Fuel = f, Cost_per_MMBtu = pm0 f,
             CO2_content_tons_per_MMBtu = fuel_emission_lookup pm0 ed f\<rparr>] s)"
    by (simp add: g aj)
qed

text \<open>
  Claim C6. The columns of the result are the distinct fuels of the roster's Fuel
  column, each exactly once, and every row has one cell for each column. A fuel (other
  than a CCS fuel, whose lookups either succeed or raise) without a price in the lookup
  of the model year has 0 in every row, and one without an emission factor in
  \<open>fuel_emission_factors\<close> has 0 in the emission row.
\<close>

theorem fuel_cost_table_columns:
  assumes "fuel_cost_table add_user_fuel_prices fuel_costs generators settings = Inr t"
  shows
   "distinct (columns t) \<and>
    set (columns t) = Fuel ` set generators \<and>
    (\<forall>(h, vals) \<in> set (table_rows t). length vals = length (columns t)) \<and>
    (\<forall>j < length (columns t).
       \<not> str_contains ''ccs'' (columns t ! j) \<and>
       (\<exists>my. model_year settings = Some my \<and>
          fuel_price_lookup (filter (\<lambda>row. year row = my)
             (add_user_fuel_prices settings fuel_costs)) (columns t ! j) = None) \<longrightarrow>
       (\<forall>(h, vals) \<in> set (table_rows t). vals ! j = 0)) \<and>
    (\<forall>j < length (columns t).
       \<not> str_contains ''ccs'' (columns t ! j) \<and>
       (\<exists>ed. fuel_emission_factors settings = Some ed \<and>
          ed (last (str_split CHR ''_'' (columns t ! j))) = None) \<longrightarrow>
       snd (table_rows t ! 0) ! j = 0)"
proof -
  let ?uf = "drop_duplicates (map Fuel generators)"
  from assms obtain fuel_df n where
    df: "fuel_df_of add_user_fuel_prices fuel_costs generators settings = Inr fuel_df" and
    t: "t = \<lparr>columns = ?uf, index_name = ''Time_Index'',
          table_rows =
            (0, map (\<lambda>r. np_round 5 (fillna0 (CO2_content_tons_per_MMBtu r))) fuel_df)
            # map (\<lambda>h. (h, map (\<lambda>r. np_round 2 (fillna0 (Cost_per_MMBtu r))) fuel_df)) [1..n]\<rparr>"
    by (rule fuel_cost_table_InrD)
  from df obtain adjusted where
    adj: "ccs_adjusted_df add_user_fuel_prices fuel_costs generators settings = Inr adjusted" and
    fd: "fuel_df = add_carbon_tax adjusted settings"
    by (rule fuel_df_of_InrD)
  from adj obtain my ed where
    my: "model_year settings = Some my" and ed: "fuel_emission_factors settings = Some ed"
    by (rule ccs_adjusted_df_InrD)
  have len: "length fuel_df = length ?uf"
    using ccs_adjusted_df_rows(1)[OF adj]
    by (metis fd add_carbon_tax_length length_map)
  have c1: "distinct (columns t)"
    by (simp add: t distinct_drop_duplicates)
  have c2: "set (columns t) = Fuel ` set generators"
    by (simp add: t set_drop_duplicates)
  have c3: "\<forall>(h, vals) \<in> set (table_rows t). length vals = length (columns t)"
    by (auto simp: t len)
  let ?pm0 = "fuel_price_lookup (filter (\<lambda>row. year row = my)
             (add_user_fuel_prices settings fuel_costs))"
  have row: "fuel_df ! j = hd (add_carbon_tax
           [\<lparr>Fuel = ?uf ! j, Cost_per_MMBtu = ?pm0 (?uf ! j),
             CO2_content_tons_per_MMBtu = fuel_emission_lookup ?pm0 ed (?uf ! j)\<rparr>] settings)"
    if "j < length ?uf" "\<not> str_contains ''ccs'' (?uf ! j)" for j
    using non_ccs_row(2)[OF df my ed that(1) refl that(2)] .
  have c4: "\<forall>(h, vals) \<in> set (table_rows t). vals ! j = 0"
    if j: "j < length (columns t)" and
       h: "\<not> str_contains ''ccs'' (columns t ! j) \<and>
       (\<exists>my. model_year settings = Some my \<and>
          fuel_price_lookup (filter (\<lambda>row. year row = my)
             (add_user_fuel_prices settings fuel_costs)) (columns t ! j) = None)" for j
  proof -
    from j have j': "j < length ?uf" by (simp add: t)
    from h my have none: "?pm0 (?uf ! j) = None" and nc: "\<not> str_contains ''ccs'' (?uf ! j)"
      by (auto simp: t)
    from row[OF j' nc] none have
      "Cost_per_MMBtu (fuel_df ! j) = None" "CO2_content_tons_per_MMBtu (fuel_df ! j) = None"
      by (simp_all add: add_carbon_tax_def fuel_emission_lookup_def)
    with j' len show ?thesis
      by (auto simp: t fillna0_def np_round_0)
  qed
  have c5: "snd (table_rows t ! 0) ! j = 0"
    if j: "j < length (columns t)" and
       h: "\<not> str_contains ''ccs'' (columns t ! j) \<and>
       (\<exists>ed. fuel_emission_factors settings = Some ed \<and>
          ed (last (str_split CHR ''_'' (columns t ! j))) = None)" for j
  proof -
    from j have j': "j < length ?uf" by (simp add: t)
    from h ed have none: "ed (last (str_split CHR ''_'' (?uf ! j))) = None"
      and nc: "\<not> str_contains ''ccs'' (?uf ! j)"
      by (auto simp: t)
    from row[OF j' nc] none have
      "fillna0 (CO2_content_tons_per_MMBtu (fuel_df ! j)) = 0"
      by (simp add: add_carbon_tax_def fuel_emission_lookup_def Let_def fillna0_def
          split: option.splits)
    with j' len show ?thesis
      by (simp add: t np_round_0)
  qed
  from c1 c2 c3 c4 c5 show ?thesis by blast
qed

theorem fuel_cost_table_columns_witness:
  "\<exists>t. fuel_cost_table (\<lambda>s c. c) example_fuel_costs example_generators example_settings = Inr t \<and>
       columns t = [''NG'', ''NG_ccs'', ''biomass''] \<and>
       set (columns t) = Fuel ` set example_generators \<and>
       (\<forall>(h, vals) \<in> set (table_rows t). vals ! 2 = 0)"
proof -
  let ?t = "\<lparr>columns = [''NG'', ''NG_ccs'', ''biomass''], index_name = ''Time_Index'',
          table_rows = (0, [0.053, 0.0053, 0]) # map (\<lambda>h. (h, [3.26, 3.50, 0])) [1..672]\<rparr>"
  note main = fuel_cost_table_columns[OF example_table]
  from main have s: "set (columns ?t) = Fuel ` set example_generators" by blast
  have "(2::nat) < length (columns ?t)" by simp
  moreover have "\<not> str_contains ''ccs'' (columns ?t ! 2) \<and>
       (\<exists>my. model_year example_settings = Some my \<and>
          fuel_price_lookup (filter (\<lambda>row. year row = my)
             ((\<lambda>s c. c) example_settings example_fuel_costs)) (columns ?t ! 2) = None)"
    by (simp add: example_settings_def example_fuel_costs_def fuel_price_lookup_def)
  ultimately have "\<forall>(h, vals) \<in> set (table_rows ?t). vals ! 2 = 0"
    using main by blast
  with s example_table show ?thesis
    by (intro exI[of _ ?t]) simp
qed

subsection \<open>Failed lookups for CCS fuels\<close>

lemma foldM_ccs_step_missing_base:
  assumes "f \<in> set fs" and "pm (ccs_base_name f) = None"
    and "ccs_base_name f \<notin> set (takeWhile (\<lambda>g. g \<noteq> f) fs)"
  shows "foldM ccs_step fs (pm, em) = Inl KeyError"
  using assms
proof (induction fs arbitrary: pm em)
  case Nil
  then show ?case by simp
next
  case (Cons g fs)
  show ?case
  proof (cases "g = f")
    case True
    with Cons.prems(2) show ?thesis
      by (simp add: ccs_step_def)
  next
    case False
    with Cons.prems have f: "f \<in> set fs" and b: "ccs_base_name f \<noteq> g"
      and t: "ccs_base_name f \<notin> set (takeWhile (\<lambda>g. g \<noteq> f) fs)"
      by auto
    show ?thesis
    proof (cases "ccs_step g (pm, em)")
      case (Inl e)
      then show ?thesis by (simp add: ccs_step_error)
    next
      case (Inr maps)
      obtain pm1 em1 where m: "maps = (pm1, em1)" by (cases maps)
      from ccs_step_Inr[OF Inr[unfolded m]] b Cons.prems(2)
      have "pm1 (ccs_base_name f) = None" by auto
      from Cons.IH[of pm1 em1, OF f this t] Inr m show ?thesis by simp
    qed
  qed
qed

lemma fuel_lookups_InrD:
  assumes "fuel_lookups a fc gens s = Inr (pm, em)"
  obtains my ed where
    "model_year s = Some my" "fuel_emission_factors s = Some ed"
    "foldM ccs_step (ccs_fuels_of gens)
       (fuel_price_lookup (filter (\<lambda>row. year row = my) (a s fc)),
        fuel_emission_lookup (fuel_price_lookup (filter (\<lambda>row. year row = my) (a s fc))) ed)
     = Inr (pm, em)"
  using assms by (auto simp: fuel_lookups_def Let_def split: option.splits)

text \<open>
  Claim C7. For a roster fuel whose name contains "ccs", \<open>fuel_cost_table\<close> raises
  KeyError (a) when the price lookup has no entry for the fuel's name without its last
  underscore-delimited token at the moment the fuel is reached, that is, none from the
  price table of the model year and none copied for a CCS fuel that comes earlier in the
  roster; and (b) when \<open>settings\<close> has no \<open>ccs_disposal_cost\<close>, no \<open>ccs_capture_rate\<close>, or no
  capture rate under the key made of the last two tokens of the name.
\<close>

theorem ccs_lookup_failure:
  assumes "f \<in> Fuel ` set generators" and "str_contains ''ccs'' f"
    and "((\<forall>my. model_year settings = Some my \<longrightarrow>
             fuel_price_lookup (filter (\<lambda>row. year row = my)
               (add_user_fuel_prices settings fuel_costs)) (ccs_base_name f) = None) \<and>
          ccs_base_name f \<notin> set (takeWhile (\<lambda>g. g \<noteq> f) (ccs_fuels_of generators)))
         \<or> ccs_disposal_cost settings = None
         \<or> (\<forall>rates. ccs_capture_rate settings = Some rates \<longrightarrow>
               rates (capture_rate_key f) = None)"
  shows "fuel_cost_table add_user_fuel_prices fuel_costs generators settings = Inl KeyError"
proof (cases "fuel_cost_table add_user_fuel_prices fuel_costs generators settings")
  case (Inl e)
  then show ?thesis by (simp add: fuel_cost_table_error)
next
  case (Inr t)
  then obtain fuel_df where
    "fuel_df_of add_user_fuel_prices fuel_costs generators settings = Inr fuel_df"
    by (rule fuel_cost_table_InrD)
  then obtain adjusted where
    adj: "ccs_adjusted_df add_user_fuel_prices fuel_costs generators settings = Inr adjusted"
    by (rule fuel_df_of_InrD)
  then obtain my ed pm em where
    my: "model_year settings = Some my" and
    fo: "foldM ccs_step (ccs_fuels_of generators)
       (fuel_price_lookup (filter (\<lambda>row. year row = my)
          (add_user_fuel_prices settings fuel_costs)),
        fuel_emission_lookup (fuel_price_lookup (filter (\<lambda>row. year row = my)
          (add_user_fuel_prices settings fuel_costs))) ed)
     = Inr (pm, em)" and
    l: "list_all2 (\<lambda>f r. adjust_ccs_fuels
        \<lparr>Fuel = f, Cost_per_MMBtu = pm f, CO2_content_tons_per_MMBtu = em f\<rparr> settings = Inr r)
       (drop_duplicates (map Fuel generators)) adjusted"
    by (rule ccs_adjusted_df_InrD)
  from assms(1,2) have fc: "f \<in> set (ccs_fuels_of generators)"
    by (simp add: set_ccs_fuels_of)
  from assms(1) have "f \<in> set (drop_duplicates (map Fuel generators))"
    by (simp add: set_drop_duplicates)
  then obtain j where j: "j < length (drop_duplicates (map Fuel generators))"
    and fj: "drop_duplicates (map Fuel generators) ! j = f"
    by (auto simp: in_set_conv_nth)
  from list_all2_nthD[OF l j] fj have ok: "adjust_ccs_fuels
        \<lparr>Fuel = f, Cost_per_MMBtu = pm f, CO2_content_tons_per_MMBtu = em f\<rparr> settings
      = Inr (adjusted ! j)"
    by simp
  from assms(3) have False
  proof (elim disjE conjE)
    assume "\<forall>my. model_year settings = Some my \<longrightarrow>
             fuel_price_lookup (filter (\<lambda>row. year row = my)
               (add_user_fuel_prices settings fuel_costs)) (ccs_base_name f) = None"
      and "ccs_base_name f \<notin> set (takeWhile (\<lambda>g. g \<noteq> f) (ccs_fuels_of generators))"
    with my fc fo show False
      by (simp add: foldM_ccs_step_missing_base)
  next
    assume "ccs_disposal_cost settings = None"
    with ok assms(2) show False
      by (simp add: adjust_ccs_fuels_def)
  next
    assume "\<forall>rates. ccs_capture_rate settings = Some rates \<longrightarrow>
               rates (capture_rate_key f) = None"
    with ok assms(2) show False
      by (auto simp: adjust_ccs_fuels_def Let_def split: option.splits)
  qed
  then show ?thesis ..
qed

theorem ccs_lookup_failure_witness:
  "fuel_cost_table (\<lambda>s c. c) example_fuel_costs [\<lparr>Fuel = ''coal_ccs''\<rparr>] example_settings
     = Inl KeyError \<and>
   fuel_cost_table (\<lambda>s c. c) example_fuel_costs example_generators
     (example_settings\<lparr>ccs_disposal_cost := None\<rparr>) = Inl KeyError \<and>
   fuel_cost_table (\<lambda>s c. c) example_fuel_costs example_generators
     (example_settings\<lparr>ccs_capture_rate := Some Map.empty\<rparr>) = Inl KeyError"
proof (intro conjI)
  show "fuel_cost_table (\<lambda>s c. c) example_fuel_costs [\<lparr>Fuel = ''coal_ccs''\<rparr>] example_settings
     = Inl KeyError"
    by (rule ccs_lookup_failure[where f = "''coal_ccs''"])
       (simp_all add: example_settings_def example_fuel_costs_def fuel_price_lookup_def
          ccs_base_name_def ccs_fuels_of_def)
  show "fuel_cost_table (\<lambda>s c. c) example_fuel_costs example_generators
     (example_settings\<lparr>ccs_disposal_cost := None\<rparr>) = Inl KeyError"
    by (rule ccs_lookup_failure[where f = "''NG_ccs''"])
       (simp_all add: example_generators_def)
  show "fuel_cost_table (\<lambda>s c. c) example_fuel_costs example_generators
     (example_settings\<lparr>ccs_capture_rate := Some Map.empty\<rparr>) = Inl KeyError"
    by (rule ccs_lookup_failure[where f = "''NG_ccs''"])
       (simp_all add: example_generators_def)
qed

subsection \<open>Where a CCS fuel gets its values from\<close>

lemma str_split_not_Nil: "str_split c s \<noteq> []"
  by (induction s) (auto split: list.splits)

lemma str_join_str_split: "str_join [c] (str_split c s) = s"
proof (induction s)
  case Nil
  then show ?case by simp
next
  case (Cons x s)
  obtain w ws where ws: "str_split c s = w # ws"
    using str_split_not_Nil[of c s] by (cases "str_split c s") auto
  show ?case
  proof (cases "x = c")
    case True
    with Cons ws show ?thesis by simp
  next
    case False
    with Cons ws show ?thesis by (cases ws) auto
  qed
qed

lemma length_str_join:
  "length (str_join sep ts) = sum_list (map length ts) + length sep * (length ts - 1)"
  by (induction sep ts rule: str_join.induct) auto

lemma length_butlast_join:
  assumes "ts \<noteq> []" and "sep \<noteq> []" and "length ts = 1 \<longrightarrow> last ts \<noteq> []"
  shows "length (str_join sep (butlast ts)) < length (str_join sep ts)"
proof -
  from assms(1) obtain xs l where ts: "ts = xs @ [l]"
    by (metis append_butlast_last_id)
  show ?thesis
  proof (cases xs)
    case Nil
    with ts assms(3) show ?thesis by simp
  next
    case (Cons y ys)
    from assms(2) have "0 < length sep" by simp
    with Cons ts show ?thesis
      by (simp add: length_str_join)
  qed
qed

lemma length_ccs_base_name: "f \<noteq> [] \<Longrightarrow> length (ccs_base_name f) < length f"
proof -
  assume f: "f \<noteq> []"
  have one: "last (str_split CHR ''_'' f) \<noteq> []" if "length (str_split CHR ''_'' f) = 1"
  proof -
    from that obtain w where w: "str_split CHR ''_'' f = [w]"
      by (cases "str_split CHR ''_'' f") auto
    with str_join_str_split[of "CHR ''_''" f] have "w = f" by simp
    with w f show ?thesis by simp
  qed
  have "length (str_join ''_'' (butlast (str_split CHR ''_'' f)))
      < length (str_join ''_'' (str_split CHR ''_'' f))"
    by (rule length_butlast_join) (use one in \<open>simp_all add: str_split_not_Nil\<close>)
  then show ?thesis
    by (simp add: ccs_base_name_def str_join_str_split)
qed

lemma str_contains_not_Nil: "str_contains ''ccs'' f \<Longrightarrow> f \<noteq> []"
  by auto

lemma foldM_append:
  "foldM f (xs @ ys) s = (case foldM f xs s of Inl e \<Rightarrow> Inl e | Inr s' \<Rightarrow> foldM f ys s')"
  by (induction xs arbitrary: s) (auto split: sum.splits)

lemma split_at_first:
  assumes "f \<in> set fs" and "distinct fs"
  obtains post where "fs = takeWhile (\<lambda>g. g \<noteq> f) fs @ f # post" "f \<notin> set post"
proof -
  from assms(1) have d: "dropWhile (\<lambda>g. g \<noteq> f) fs \<noteq> []"
    by simp
  then have h: "hd (dropWhile (\<lambda>g. g \<noteq> f) fs) = f"
    using hd_dropWhile[of "\<lambda>g. g \<noteq> f" fs] by simp
  let ?post = "tl (dropWhile (\<lambda>g. g \<noteq> f) fs)"
  from d h have "dropWhile (\<lambda>g. g \<noteq> f) fs = f # ?post"
    by (metis list.collapse)
  then have eq: "fs = takeWhile (\<lambda>g. g \<noteq> f) fs @ f # ?post"
    by (metis takeWhile_dropWhile_id)
  with assms(2) have "distinct (takeWhile (\<lambda>g. g \<noteq> f) fs @ f # ?post)" by simp
  then have "f \<notin> set ?post" by simp
  with eq show thesis by (rule that)
qed

text \<open>
  The loop reads, for a fuel, only entries under strictly shorter names. So two runs
  that start from lookups which agree on all names shorter than \<open>n\<close> still agree on
  them afterwards.
\<close>

lemma foldM_ccs_step_agree_below:
  assumes "foldM ccs_step fs (pm, em) = Inr (q, e)"
    and "foldM ccs_step fs (pm', em') = Inr (q', e')"
    and "\<forall>k. length k < n \<longrightarrow> pm k = pm' k \<and> em k = em' k"
    and "\<forall>g \<in> set fs. g \<noteq> []"
  shows "\<forall>k. length k < n \<longrightarrow> q k = q' k \<and> e k = e' k"
  using assms
proof (induction fs arbitrary: pm em pm' em')
  case Nil
  then show ?case by simp
next
  case (Cons g fs)
  from Cons.prems(1) obtain pm1 em1 where
    s: "ccs_step g (pm, em) = Inr (pm1, em1)" and
    r: "foldM ccs_step fs (pm1, em1) = Inr (q, e)"
    by (auto split: sum.splits)
  from Cons.prems(2) obtain pm1' em1' where
    s': "ccs_step g (pm', em') = Inr (pm1', em1')" and
    r': "foldM ccs_step fs (pm1', em1') = Inr (q', e')"
    by (auto split: sum.splits)
  from Cons.prems(4) have g: "length (ccs_base_name g) < length g"
    by (simp add: length_ccs_base_name)
  have "\<forall>k. length k < n \<longrightarrow> pm1 k = pm1' k \<and> em1 k = em1' k"
  proof (intro allI impI)
    fix k :: string assume k: "length k < n"
    show "pm1 k = pm1' k \<and> em1 k = em1' k"
    proof (cases "k = g")
      case True
      with k g have "length (ccs_base_name g) < n" by simp
      with Cons.prems(3) have "pm (ccs_base_name g) = pm' (ccs_base_name g)"
        "em (ccs_base_name g) = em' (ccs_base_name g)" by simp_all
      with ccs_step_Inr[OF s] ccs_step_Inr[OF s'] True show ?thesis by auto
    next
      case False
      with ccs_step_Inr[OF s] ccs_step_Inr[OF s'] Cons.prems(3) k show ?thesis by auto
    qed
  qed
  from Cons.IH[OF r r' this] Cons.prems(4) show ?case by simp
qed

lemma foldM_ccs_step_value:
  assumes "foldM ccs_step fs (pm0, em0) = Inr (pm, em)" and "f \<in> set fs" and "distinct fs"
  shows "\<exists>pm1 em1. foldM ccs_step (takeWhile (\<lambda>g. g \<noteq> f) fs) (pm0, em0) = Inr (pm1, em1) \<and>
           pm f = pm1 (ccs_base_name f) \<and> em f = em1 (ccs_base_name f) \<and>
           pm f \<noteq> None \<and> em f \<noteq> None"
proof -
  from assms(2,3) obtain post where
    fs: "fs = takeWhile (\<lambda>g. g \<noteq> f) fs @ f # post" and post: "f \<notin> set post"
    by (rule split_at_first)
  let ?pre = "takeWhile (\<lambda>g. g \<noteq> f) fs"
  from assms(1) fs have a: "foldM ccs_step (?pre @ f # post) (pm0, em0) = Inr (pm, em)"
    by simp
  then obtain pm1 em1 where
    p: "foldM ccs_step ?pre (pm0, em0) = Inr (pm1, em1)" and
    r: "foldM ccs_step (f # post) (pm1, em1) = Inr (pm, em)"
    by (auto simp: foldM_append split: sum.splits)
  from r obtain pm2 em2 where
    s: "ccs_step f (pm1, em1) = Inr (pm2, em2)" and
    r2: "foldM ccs_step post (pm2, em2) = Inr (pm, em)"
    by (auto split: sum.splits)
  from foldM_ccs_step_other[OF r2 post] have "pm f = pm2 f" "em f = em2 f" by simp_all
  with ccs_step_Inr[OF s] p show ?thesis by auto
qed

lemma fuel_price_lookup_snoc:
  "fuel_price_lookup (rows @ [r]) = (fuel_price_lookup rows)(full_fuel_name r \<mapsto> price r)"
  by (simp add: fuel_price_lookup_def)

lemma fuel_price_lookup_filter_other:
  "k \<noteq> f \<Longrightarrow>
     fuel_price_lookup (filter (\<lambda>r. full_fuel_name r \<noteq> f) rows) k = fuel_price_lookup rows k"
proof (induction rows rule: rev_induct)
  case Nil
  then show ?case by simp
next
  case (snoc r rows)
  then show ?case by (simp add: fuel_price_lookup_snoc)
qed

lemma fuel_price_lookup_agree:
  assumes "filter (\<lambda>r. full_fuel_name r \<noteq> f) rows = filter (\<lambda>r. full_fuel_name r \<noteq> f) rows'"
    and "k \<noteq> f"
  shows "fuel_price_lookup (filter (\<lambda>r. year r = my) rows) k
       = fuel_price_lookup (filter (\<lambda>r. year r = my) rows') k"
proof -
  have c: "filter (\<lambda>r. full_fuel_name r \<noteq> f) (filter (\<lambda>r. year r = my) xs)
         = filter (\<lambda>r. year r = my) (filter (\<lambda>r. full_fuel_name r \<noteq> f) xs)" for xs :: "price_row list"
    by (induction xs) auto
  have "fuel_price_lookup (filter (\<lambda>r. year r = my) rows) k
      = fuel_price_lookup (filter (\<lambda>r. full_fuel_name r \<noteq> f) (filter (\<lambda>r. year r = my) rows)) k"
    by (rule fuel_price_lookup_filter_other[OF assms(2), symmetric])
  also have "\<dots> = fuel_price_lookup (filter (\<lambda>r. full_fuel_name r \<noteq> f) (filter (\<lambda>r. year r = my) rows')) k"
    by (simp only: c assms(1))
  also have "\<dots> = fuel_price_lookup (filter (\<lambda>r. year r = my) rows') k"
    by (rule fuel_price_lookup_filter_other[OF assms(2)])
  finally show ?thesis .
qed

text \<open>
  Claim C10 as it is stated fails: a row of the price table under the name of a CCS fuel
  is used. In the roster NG_ccs_x, NG_ccs the base name of the first fuel is the name of
  the second. With a row under NG_ccs in the price table the first fuel gets the price of
  that row, 99, and the emission factor 0 that goes with it; without the row the run
  raises KeyError.
\<close>

theorem ccs_named_row_is_used:
  "pre_adjustment_values (\<lambda>s c. c) example_fuel_costs_own_row nested_generators
     example_settings ''NG_ccs_x'' = Inr (Some 99, Some 0) \<and>
   pre_adjustment_values (\<lambda>s c. c) example_fuel_costs nested_generators
     example_settings ''NG_ccs_x'' = Inl KeyError"
  by (simp add: pre_adjustment_values_def fuel_lookups_def example_settings_def
      example_fuel_costs_own_row_def example_fuel_costs_def nested_generators_def
      fuel_price_lookup_def fuel_emission_lookup_def ccs_fuels_of_def ccs_step_def
      ccs_base_name_def Let_def)

text \<open>
  Claim C10, amended. For a roster fuel whose name contains "ccs", the price and the
  emission factor that \<open>fuel_cost_table\<close> holds for it before the adjustment are the entries
  of its base name, the name without its last underscore-delimited token, at the moment
  the loop reaches the fuel; when the base name is not itself a CCS fuel of the roster
  these are the entries of the model year's price table and of the emission lookup. An
  entry that the price lookup holds under the fuel's own name is overwritten: the rows of
  the price table under the CCS fuel's own name are never used for that fuel, and two
  price tables that differ only in such rows give it the same values. Such a row is used
  for another CCS fuel of the roster whose base name it is, when that fuel comes earlier
  in the roster.
\<close>

theorem ccs_fuel_priced_from_base:
  assumes "fuel_lookups add_user_fuel_prices fuel_costs generators settings = Inr (pm, em)"
    and "f \<in> Fuel ` set generators" and "str_contains ''ccs'' f"
  shows
   "(\<forall>ts a. f = str_join ''_'' (ts @ [a]) \<and> (\<forall>t \<in> set (ts @ [a]). CHR ''_'' \<notin> set t) \<longrightarrow>
       ccs_base_name f = str_join ''_'' ts) \<and>
    (\<exists>my ed pm1 em1.
       model_year settings = Some my \<and> fuel_emission_factors settings = Some ed \<and>
       foldM ccs_step (takeWhile (\<lambda>g. g \<noteq> f) (ccs_fuels_of generators))
         (fuel_price_lookup (filter (\<lambda>row. year row = my)
            (add_user_fuel_prices settings fuel_costs)),
          fuel_emission_lookup (fuel_price_lookup (filter (\<lambda>row. year row = my)
            (add_user_fuel_prices settings fuel_costs))) ed) = Inr (pm1, em1) \<and>
       pm f = pm1 (ccs_base_name f) \<and> em f = em1 (ccs_base_name f) \<and>
       pm f \<noteq> None \<and> em f \<noteq> None \<and>
       (ccs_base_name f \<notin> set (ccs_fuels_of generators) \<longrightarrow>
          pm f = fuel_price_lookup (filter (\<lambda>row. year row = my)
                   (add_user_fuel_prices settings fuel_costs)) (ccs_base_name f) \<and>
          em f = fuel_emission_lookup (fuel_price_lookup (filter (\<lambda>row. year row = my)
                   (add_user_fuel_prices settings fuel_costs))) ed (ccs_base_name f))) \<and>
    (\<forall>other_prices other_costs pm' em'.
       filter (\<lambda>row. full_fuel_name row \<noteq> f) (other_prices settings other_costs) =
         filter (\<lambda>row. full_fuel_name row \<noteq> f) (add_user_fuel_prices settings fuel_costs) \<and>
       fuel_lookups other_prices other_costs generators settings = Inr (pm', em') \<longrightarrow>
       pm' f = pm f \<and> em' f = em f)"
proof (intro conjI)
  show "\<forall>ts a. f = str_join ''_'' (ts @ [a]) \<and> (\<forall>t \<in> set (ts @ [a]). CHR ''_'' \<notin> set t) \<longrightarrow>
       ccs_base_name f = str_join ''_'' ts"
    by (auto simp only: ccs_base_name_tokens)
next
  let ?ccs = "ccs_fuels_of generators"
  let ?pre = "takeWhile (\<lambda>g. g \<noteq> f) ?ccs"
  from assms(1) obtain my ed where
    my: "model_year settings = Some my" and ed: "fuel_emission_factors settings = Some ed" and
    fo: "foldM ccs_step ?ccs
       (fuel_price_lookup (filter (\<lambda>row. year row = my)
          (add_user_fuel_prices settings fuel_costs)),
        fuel_emission_lookup (fuel_price_lookup (filter (\<lambda>row. year row = my)
          (add_user_fuel_prices settings fuel_costs))) ed)
     = Inr (pm, em)"
    by (rule fuel_lookups_InrD)
  let ?pm0 = "fuel_price_lookup (filter (\<lambda>row. year row = my)
          (add_user_fuel_prices settings fuel_costs))"
  let ?em0 = "fuel_emission_lookup ?pm0 ed"
  from assms(2,3) have fc: "f \<in> set ?ccs"
    by (simp add: set_ccs_fuels_of)
  from foldM_ccs_step_value[OF fo fc distinct_ccs_fuels_of] obtain pm1 em1 where
    pre: "foldM ccs_step ?pre (?pm0, ?em0) = Inr (pm1, em1)" and
    v: "pm f = pm1 (ccs_base_name f)" "em f = em1 (ccs_base_name f)"
       "pm f \<noteq> None" "em f \<noteq> None"
    by blast
  have direct: "pm f = ?pm0 (ccs_base_name f) \<and> em f = ?em0 (ccs_base_name f)"
    if "ccs_base_name f \<notin> set ?ccs"
  proof -
    from that have "ccs_base_name f \<notin> set ?pre"
      by (meson set_takeWhileD)
    from foldM_ccs_step_other[OF pre this] v show ?thesis by simp
  qed
  from my ed pre v direct show "\<exists>my ed pm1 em1.
       model_year settings = Some my \<and> fuel_emission_factors settings = Some ed \<and>
       foldM ccs_step (takeWhile (\<lambda>g. g \<noteq> f) (ccs_fuels_of generators))
         (fuel_price_lookup (filter (\<lambda>row. year row = my)
            (add_user_fuel_prices settings fuel_costs)),
          fuel_emission_lookup (fuel_price_lookup (filter (\<lambda>row. year row = my)
            (add_user_fuel_prices settings fuel_costs))) ed) = Inr (pm1, em1) \<and>
       pm f = pm1 (ccs_base_name f) \<and> em f = em1 (ccs_base_name f) \<and>
       pm f \<noteq> None \<and> em f \<noteq> None \<and>
       (ccs_base_name f \<notin> set (ccs_fuels_of generators) \<longrightarrow>
          pm f = fuel_price_lookup (filter (\<lambda>row. year row = my)
                   (add_user_fuel_prices settings fuel_costs)) (ccs_base_name f) \<and>
          em f = fuel_emission_lookup (fuel_price_lookup (filter (\<lambda>row. year row = my)
                   (add_user_fuel_prices settings fuel_costs))) ed (ccs_base_name f))"
    by blast
  show "\<forall>other_prices other_costs pm' em'.
       filter (\<lambda>row. full_fuel_name row \<noteq> f) (other_prices settings other_costs) =
         filter (\<lambda>row. full_fuel_name row \<noteq> f) (add_user_fuel_prices settings fuel_costs) \<and>
       fuel_lookups other_prices other_costs generators settings = Inr (pm', em') \<longrightarrow>
       pm' f = pm f \<and> em' f = em f"
  proof (intro allI impI, elim conjE)
    fix other_prices other_costs pm' em'
    assume agree: "filter (\<lambda>row. full_fuel_name row \<noteq> f) (other_prices settings other_costs) =
         filter (\<lambda>row. full_fuel_name row \<noteq> f) (add_user_fuel_prices settings fuel_costs)"
      and run: "fuel_lookups other_prices other_costs generators settings = Inr (pm', em')"
    let ?pm0' = "fuel_price_lookup (filter (\<lambda>row. year row = my)
          (other_prices settings other_costs))"
    let ?em0' = "fuel_emission_lookup ?pm0' ed"
    from run my ed have fo': "foldM ccs_step ?ccs (?pm0', ?em0') = Inr (pm', em')"
      by (auto elim!: fuel_lookups_InrD)
    from foldM_ccs_step_value[OF fo' fc distinct_ccs_fuels_of] obtain pm1' em1' where
      pre': "foldM ccs_step ?pre (?pm0', ?em0') = Inr (pm1', em1')" and
      v': "pm' f = pm1' (ccs_base_name f)" "em' f = em1' (ccs_base_name f)"
      by blast
    have p0: "?pm0' k = ?pm0 k" if "k \<noteq> f" for k
      using agree that by (rule fuel_price_lookup_agree)
    have start: "\<forall>k. length k < length f \<longrightarrow> ?pm0' k = ?pm0 k \<and> ?em0' k = ?em0 k"
    proof (intro allI impI)
      fix k :: string assume "length k < length f"
      then have "k \<noteq> f" by auto
      from p0[OF this] show "?pm0' k = ?pm0 k \<and> ?em0' k = ?em0 k"
        by (simp add: fuel_emission_lookup_def)
    qed
    have ne: "\<forall>g \<in> set ?pre. g \<noteq> []"
    proof
      fix g assume "g \<in> set ?pre"
      then have "g \<in> set ?ccs" by (meson set_takeWhileD)
      then show "g \<noteq> []" by (auto simp: set_ccs_fuels_of)
    qed
    from assms(3) have "length (ccs_base_name f) < length f"
      by (intro length_ccs_base_name) auto
    with foldM_ccs_step_agree_below[OF pre' pre start ne]
    have "pm1' (ccs_base_name f) = pm1 (ccs_base_name f)"
      "em1' (ccs_base_name f) = em1 (ccs_base_name f)"
      by simp_all
    with v v' show "pm' f = pm f \<and> em' f = em f" by simp
  qed
qed

theorem ccs_fuel_priced_from_base_witness:
  "\<exists>pm em.
     fuel_lookups (\<lambda>s c. c) token_fuel_costs token_generators example_settings
       = Inr (pm, em) \<and>
     ''gulf_NG_ccs'' = str_join ''_'' ([''gulf'', ''NG''] @ [''ccs'']) \<and>
     ccs_base_name ''gulf_NG_ccs'' = ''gulf_NG'' \<and>
     fuel_price_lookup (filter (\<lambda>row. year row = 2030) token_fuel_costs) ''NG_ccs''
       = Some 99 \<and>
     pm ''gulf_NG_ccs'' = Some 2.5 \<and> em ''gulf_NG_ccs'' = Some 0.053"
proof -
  have c: "ccs_fuels_of token_generators = [''gulf_NG_ccs'']"
    by (simp add: ccs_fuels_of_def token_generators_def)
  have own: "fuel_price_lookup (filter (\<lambda>row. year row = 2030) token_fuel_costs)
      ''NG_ccs'' = Some 99"
    and base: "fuel_price_lookup (filter (\<lambda>row. year row = 2030) token_fuel_costs)
      ''gulf_NG'' = Some 2.5"
    by (simp_all add: token_fuel_costs_def example_fuel_costs_own_row_def
        example_fuel_costs_def fuel_price_lookup_def)
  have "\<exists>pm em. fuel_lookups (\<lambda>s c. c) token_fuel_costs token_generators
      example_settings = Inr (pm, em)"
    by (simp add: fuel_lookups_def example_settings_def c ccs_step_def ccs_base_name_def base
        fuel_emission_lookup_def Let_def)
  then obtain pm em where
    run: "fuel_lookups (\<lambda>s c. c) token_fuel_costs token_generators
      example_settings = Inr (pm, em)"
    by blast
  have f: "''gulf_NG_ccs'' \<in> Fuel ` set token_generators" "str_contains ''ccs'' ''gulf_NG_ccs''"
    by (simp_all add: token_generators_def)
  have name: "''gulf_NG_ccs'' = str_join ''_'' ([''gulf'', ''NG''] @ [''ccs''])"
    by simp
  note main = ccs_fuel_priced_from_base[OF run f]
  from main have "''gulf_NG_ccs'' = str_join ''_'' ([''gulf'', ''NG''] @ [''ccs'']) \<and>
      (\<forall>t \<in> set ([''gulf'', ''NG''] @ [''ccs'']). CHR ''_'' \<notin> set t) \<longrightarrow>
       ccs_base_name ''gulf_NG_ccs'' = str_join ''_'' [''gulf'', ''NG'']"
    by blast
  then have b: "ccs_base_name ''gulf_NG_ccs'' = ''gulf_NG''"
    by simp
  from main obtain my ed where
    "model_year example_settings = Some my" "fuel_emission_factors example_settings = Some ed"
    "ccs_base_name ''gulf_NG_ccs'' \<notin> set (ccs_fuels_of token_generators) \<longrightarrow>
       pm ''gulf_NG_ccs'' = fuel_price_lookup (filter (\<lambda>row. year row = my)
          ((\<lambda>s c. c) example_settings token_fuel_costs)) (ccs_base_name ''gulf_NG_ccs'') \<and>
       em ''gulf_NG_ccs'' = fuel_emission_lookup (fuel_price_lookup (filter (\<lambda>row. year row = my)
          ((\<lambda>s c. c) example_settings token_fuel_costs))) ed (ccs_base_name ''gulf_NG_ccs'')"
    by blast
  then have "pm ''gulf_NG_ccs'' = Some 2.5 \<and> em ''gulf_NG_ccs'' = Some 0.053"
    by (auto simp: example_settings_def c b base fuel_emission_lookup_def)
  with run own name b show ?thesis by blast
qed

section \<open>Properties of dictionaries\<close>

lemma py_eq_refl: "py_eq k k"
  by (simp add: py_eq_def)


lemma py_eq_trans: "py_eq a b \<Longrightarrow> py_eq b c \<Longrightarrow> py_eq a c"
  by (simp add: py_eq_def)

lemma py_eq_SStr: "py_eq (SStr a) k \<longleftrightarrow> k = SStr a"
  by (cases k) (auto simp: py_eq_def hash_key_def)

lemma py_eq_SStr': "py_eq k (SStr a) \<longleftrightarrow> k = SStr a"
  by (cases k) (auto simp: py_eq_def hash_key_def)

lemma py_eq_SNone: "py_eq SNone k \<longleftrightarrow> k = SNone"
  by (cases k) (auto simp: py_eq_def hash_key_def)

lemma py_eq_SNone': "py_eq k SNone \<longleftrightarrow> k = SNone"
  by (cases k) (auto simp: py_eq_def hash_key_def)

lemma pd_eq_py_eq: "pd_eq a b \<Longrightarrow> py_eq a b"
  by (simp add: pd_eq_def)

lemma pd_eq_cong: "py_eq b c \<Longrightarrow> pd_eq a b = pd_eq a c"
  by (auto simp: pd_eq_def py_eq_def py_eq_SNone py_eq_SNone' dest: py_eq_SNone[THEN iffD1])
     (metis py_eq_SNone py_eq_def)+

lemma dict_get_cong: "py_eq a b \<Longrightarrow> dict_get d a = dict_get d b"
  by (induction d) (auto simp: py_eq_def)

lemma dict_get_None_iff:
  "(dict_get d k = None) = (hash_key k \<notin> (\<lambda>kv. hash_key (fst kv)) ` set d)"
proof (induction d)
  case Nil
  show ?case by simp
next
  case (Cons kv d)
  obtain k' v where kv: "kv = (k', v)" by (cases kv)
  show ?case
  proof (cases "py_eq k' k")
    case True
    with kv show ?thesis by (simp add: py_eq_def)
  next
    case False
    then have "hash_key k \<noteq> hash_key k'" by (auto simp: py_eq_def)
    with False kv Cons.IH show ?thesis by simp
  qed
qed

lemma dict_get_SomeD: "dict_get d k = Some v \<Longrightarrow> \<exists>k'. (k', v) \<in> set d \<and> py_eq k' k"
  by (induction d) (auto split: if_splits)

lemma dict_get_set:
  "dict_get (dict_set k v d) k' = (if py_eq k k' then Some v else dict_get d k')"
  by (induction d) (auto simp: py_eq_def)

lemma dict_set_triv: "dict_get d k = Some v \<Longrightarrow> dict_set k v d = d"
  by (induction d) (auto split: if_splits)

lemma hash_keys_dict_set:
  "(\<lambda>kv. hash_key (fst kv)) ` set (dict_set k v d) =
     insert (hash_key k) ((\<lambda>kv. hash_key (fst kv)) ` set d)"
proof (induction d)
  case Nil
  show ?case by simp
next
  case (Cons kv d)
  obtain k' v' where kv: "kv = (k', v')" by (cases kv)
  show ?case
  proof (cases "py_eq k' k")
    case True
    then have "hash_key k' = hash_key k" by (simp add: py_eq_def)
    with True kv show ?thesis by auto
  next
    case False
    with kv Cons.IH show ?thesis by auto
  qed
qed

lemma dict_set_fresh: "dict_get d k = None \<Longrightarrow> dict_set k v d = d @ [(k, v)]"
  by (induction d) (auto split: if_splits)

lemma distinct_keys_dict_set: "distinct_keys d \<Longrightarrow> distinct_keys (dict_set k v d)"
proof (induction d)
  case Nil
  then show ?case by (simp add: distinct_keys_def)
next
  case (Cons kv d)
  obtain k' v' where kv: "kv = (k', v')" by (cases kv)
  from Cons.prems kv have n: "hash_key k' \<notin> (\<lambda>kv. hash_key (fst kv)) ` set d"
    and d: "distinct_keys d"
    by (simp_all add: distinct_keys_def)
  show ?case
  proof (cases "py_eq k' k")
    case True
    with Cons.prems kv show ?thesis by (simp add: distinct_keys_def)
  next
    case False
    then have "hash_key k' \<noteq> hash_key k" by (simp add: py_eq_def)
    with n have "hash_key k' \<notin> (\<lambda>kv. hash_key (fst kv)) ` set (dict_set k v d)"
      by (simp add: hash_keys_dict_set)
    with Cons.IH[OF d] False kv show ?thesis
      by (simp add: distinct_keys_def)
  qed
qed

lemma distinct_keys_Nil: "distinct_keys []"
  by (simp add: distinct_keys_def)

section \<open>Properties of update_dictionary\<close>

lemma update_dictionary_Cons:
  "update_dictionary base ((k, v) # patch) =
     update_dictionary (dict_set k (merged_value (dict_get base k) v) base) patch"
  by (simp add: merged_value_def)

lemma update_dictionary_frame:
  "dict_get patch k = None \<Longrightarrow> dict_get (update_dictionary base patch) k = dict_get base k"
proof (induction patch arbitrary: base)
  case Nil
  then show ?case by simp
next
  case (Cons kv patch)
  obtain k' v where kv: "kv = (k', v)" by (cases kv)
  with Cons.prems have "\<not> py_eq k' k" "dict_get patch k = None"
    by (auto split: if_splits)
  with Cons.IH[of "dict_set k' (merged_value (dict_get base k') v) base"] kv
  show ?case
    by (simp only: update_dictionary_Cons) (simp add: dict_get_set)
qed

lemma update_dictionary_bound:
  assumes "distinct_keys patch" and "dict_get patch k = Some v"
  shows "dict_get (update_dictionary base patch) k = Some (merged_value (dict_get base k) v)"
  using assms
proof (induction patch arbitrary: base)
  case Nil
  then show ?case by simp
next
  case (Cons kv patch)
  obtain k' v' where kv: "kv = (k', v')" by (cases kv)
  show ?case
  proof (cases "py_eq k' k")
    case True
    with Cons.prems kv have v: "v' = v" by simp
    from Cons.prems(1) kv have "hash_key k' \<notin> (\<lambda>kv. hash_key (fst kv)) ` set patch"
      by (simp add: distinct_keys_def)
    with True have "dict_get patch k = None"
      by (simp add: dict_get_None_iff py_eq_def)
    with True kv v dict_get_cong[OF True, of base] show ?thesis
      by (simp add: update_dictionary_Cons update_dictionary_frame dict_get_set
          del: update_dictionary.simps(2))
  next
    case False
    with Cons.prems kv have "distinct_keys patch" "dict_get patch k = Some v"
      by (simp_all add: distinct_keys_def)
    from Cons.IH[OF this, of "dict_set k' (merged_value (dict_get base k') v') base"] False kv
    show ?thesis
      by (simp only: update_dictionary_Cons) (simp add: dict_get_set)
  qed
qed

text \<open>Merging a patch into a dictionary that holds it changes nothing.\<close>

lemma holds_patch_merge: "holds_patch d patch \<Longrightarrow> update_dictionary d patch = d"
proof (induction d patch rule: update_dictionary.induct)
  case (1 base)
  then show ?case by simp
next
  case (2 base k v patch)
  from "2.prems" have rest: "holds_patch base patch" by simp
  have mv: "dict_get base k = Some (merged_value (dict_get base k) v)"
  proof (cases v)
    case (VDict p)
    with "2.prems" obtain b where b: "dict_get base k = Some (VDict b)" and h: "holds_patch b p"
      by (auto split: option.splits val.splits)
    from "2.IH"(1)[OF VDict b refl h] have "update_dictionary b p = b" .
    with VDict b show ?thesis by (simp add: merged_value_def)
  next
    case (Scalar s)
    with "2.prems" show ?thesis by (simp add: merged_value_def)
  next
    case (VList xs)
    with "2.prems" show ?thesis by (simp add: merged_value_def)
  qed
  then have same: "dict_set k (merged_value (dict_get base k) v) base = base"
    by (rule dict_set_triv)
  from "2.IH"(2) rest same have "update_dictionary base patch = base"
    by (simp add: merged_value_def)
  with same show ?case
    by (simp only: update_dictionary_Cons)
qed

lemma distinct_keys_dict_get:
  assumes "distinct_keys p" and "kv \<in> set p"
  shows "dict_get p (fst kv) = Some (snd kv)"
  using assms
proof (induction p)
  case Nil
  then show ?case by simp
next
  case (Cons x p)
  obtain k v where x: "x = (k, v)" by (cases x)
  from Cons.prems(1) x have n: "hash_key k \<notin> (\<lambda>kv. hash_key (fst kv)) ` set p"
    and d: "distinct_keys p"
    by (simp_all add: distinct_keys_def)
  show ?case
  proof (cases "kv = x")
    case True
    with x show ?thesis by (simp add: py_eq_refl)
  next
    case False
    with Cons.prems(2) have m: "kv \<in> set p" by simp
    with n have "hash_key k \<noteq> hash_key (fst kv)" by force
    with Cons.IH[OF d m] x show ?thesis by (simp add: py_eq_def)
  qed
qed

lemma wf_val_dict_get:
  assumes "wf_val (VDict p)" and "kv \<in> set p"
  shows "dict_get p (fst kv) = Some (snd kv)" and "wf_val (snd kv)"
proof -
  from assms(1) have "distinct_keys p" by simp
  then show "dict_get p (fst kv) = Some (snd kv)"
    using assms(2) by (rule distinct_keys_dict_get)
  from assms show "wf_val (snd kv)" by simp
qed

lemma holds_patch_self_aux:
  "(\<forall>kv \<in> set patch. dict_get d (fst kv) = Some (snd kv) \<and> wf_val (snd kv)) \<Longrightarrow>
     holds_patch d patch"
proof (induction d patch rule: holds_patch.induct)
  case (1 d)
  then show ?case by simp
next
  case (2 d k v patch)
  from "2.prems" have k: "dict_get d k = Some v" and w: "wf_val v"
    and rest: "\<forall>kv \<in> set patch. dict_get d (fst kv) = Some (snd kv) \<and> wf_val (snd kv)"
    by auto
  have hd: "(case v of
         VDict p \<Rightarrow> (case dict_get d k of Some (VDict b) \<Rightarrow> holds_patch b p | _ \<Rightarrow> False)
       | _ \<Rightarrow> dict_get d k = Some v)"
  proof (cases v)
    case (VDict p)
    from w VDict have "\<forall>kv \<in> set p. dict_get p (fst kv) = Some (snd kv) \<and> wf_val (snd kv)"
      using wf_val_dict_get by blast
    from "2.IH"(1)[OF VDict k[unfolded VDict] refl this] VDict k show ?thesis by simp
  next
    case (Scalar s)
    with k show ?thesis by simp
  next
    case (VList xs)
    with k show ?thesis by simp
  qed
  from "2.IH"(2)[OF rest] hd show ?case by simp
qed

lemma holds_patch_self: "wf_dict p \<Longrightarrow> holds_patch p p"
  by (rule holds_patch_self_aux) (use wf_val_dict_get in \<open>auto simp: wf_dict_def\<close>)

lemma wf_dict_Cons:
  "wf_dict ((k, v) # patch) \<longleftrightarrow> dict_get patch k = None \<and> wf_val v \<and> wf_dict patch"
  by (auto simp: wf_dict_def distinct_keys_def dict_get_None_iff)

lemma update_dictionary_holds: "wf_dict patch \<Longrightarrow> holds_patch (update_dictionary base patch) patch"
proof (induction base patch rule: update_dictionary.induct)
  case (1 base)
  then show ?case by simp
next
  case (2 base k v patch)
  from "2.prems" have k: "dict_get patch k = None" and w: "wf_val v" and wp: "wf_dict patch"
    by (simp_all add: wf_dict_Cons)
  let ?base1 = "dict_set k (merged_value (dict_get base k) v) base"
  let ?r = "update_dictionary ?base1 patch"
  have r: "update_dictionary base ((k, v) # patch) = ?r"
    by (rule update_dictionary_Cons)
  from "2.IH"(2)[OF wp] have rest: "holds_patch ?r patch"
    by (simp add: merged_value_def)
  have rk: "dict_get ?r k = Some (merged_value (dict_get base k) v)"
    using k by (simp add: update_dictionary_frame dict_get_set py_eq_refl)
  have hd: "(case v of
         VDict p \<Rightarrow> (case dict_get ?r k of Some (VDict b) \<Rightarrow> holds_patch b p | _ \<Rightarrow> False)
       | _ \<Rightarrow> dict_get ?r k = Some v)"
  proof (cases v)
    case (VDict p)
    from w VDict have wfp: "wf_dict p" by (simp add: wf_dict_def)
    show ?thesis
    proof (cases "\<exists>b. dict_get base k = Some (VDict b)")
      case True
      then obtain b where b: "dict_get base k = Some (VDict b)" by blast
      from "2.IH"(1)[OF VDict b refl wfp] have "holds_patch (update_dictionary b p) p" .
      with VDict b rk show ?thesis by (simp add: merged_value_def)
    next
      case False
      then have "merged_value (dict_get base k) v = VDict p"
        using VDict by (auto simp: merged_value_def split: option.splits val.splits)
      with rk VDict holds_patch_self[OF wfp] show ?thesis by simp
    qed
  next
    case (Scalar s)
    with rk show ?thesis by (simp add: merged_value_def)
  next
    case (VList xs)
    with rk show ?thesis by (simp add: merged_value_def)
  qed
  from hd rest show ?case
    unfolding r by simp
qed

text \<open>
  Claim C8. For a base and a patch (a Python dictionary: distinct keys at every level),
  the merge leaves every key that the patch does not have bound to the base's value;
  a key of the patch is bound to the recursive merge when both values are dictionaries
  and to the patch's value otherwise, also when the base does not have the key; and
  merging the same patch a second time changes nothing.
\<close>

theorem update_dictionary_merge:
  assumes "wf_dict patch"
  shows
   "(\<forall>k. dict_get patch k = None \<longrightarrow>
       dict_get (update_dictionary base patch) k = dict_get base k) \<and>
    (\<forall>k v. dict_get patch k = Some v \<longrightarrow>
       dict_get (update_dictionary base patch) k =
         Some (case v of
                 VDict p \<Rightarrow>
                   (case dict_get base k of
                      Some (VDict b) \<Rightarrow> VDict (update_dictionary b p)
                    | _ \<Rightarrow> v)
               | _ \<Rightarrow> v)) \<and>
    update_dictionary (update_dictionary base patch) patch = update_dictionary base patch"
proof (intro conjI allI impI)
  fix k assume "dict_get patch k = None"
  then show "dict_get (update_dictionary base patch) k = dict_get base k"
    by (rule update_dictionary_frame)
next
  fix k v assume "dict_get patch k = Some v"
  moreover from assms have "distinct_keys patch" by (simp add: wf_dict_def)
  ultimately have "dict_get (update_dictionary base patch) k = Some (merged_value (dict_get base k) v)"
    by (rule update_dictionary_bound[rotated])
  then show "dict_get (update_dictionary base patch) k =
         Some (case v of
                 VDict p \<Rightarrow>
                   (case dict_get base k of
                      Some (VDict b) \<Rightarrow> VDict (update_dictionary b p)
                    | _ \<Rightarrow> v)
               | _ \<Rightarrow> v)"
    by (simp add: merged_value_def)
next
  from assms show "update_dictionary (update_dictionary base patch) patch = update_dictionary base patch"
    by (intro holds_patch_merge update_dictionary_holds)
qed

theorem update_dictionary_merge_witness:
  "wf_dict [(SStr ''b'', VDict [(SStr ''y'', Scalar (SInt 2))]), (SStr ''c'', VDict [])] \<and>
   update_dictionary
     [(SStr ''a'', Scalar (SInt 1)), (SStr ''b'', VDict [(SStr ''x'', Scalar (SInt 1))])]
     [(SStr ''b'', VDict [(SStr ''y'', Scalar (SInt 2))]), (SStr ''c'', VDict [])] =
     [(SStr ''a'', Scalar (SInt 1)),
      (SStr ''b'', VDict [(SStr ''x'', Scalar (SInt 1)), (SStr ''y'', Scalar (SInt 2))]),
      (SStr ''c'', VDict [])] \<and>
   update_dictionary
     (update_dictionary
        [(SStr ''a'', Scalar (SInt 1)), (SStr ''b'', VDict [(SStr ''x'', Scalar (SInt 1))])]
        [(SStr ''b'', VDict [(SStr ''y'', Scalar (SInt 2))]), (SStr ''c'', VDict [])])
     [(SStr ''b'', VDict [(SStr ''y'', Scalar (SInt 2))]), (SStr ''c'', VDict [])] =
     [(SStr ''a'', Scalar (SInt 1)),
      (SStr ''b'', VDict [(SStr ''x'', Scalar (SInt 1)), (SStr ''y'', Scalar (SInt 2))]),
      (SStr ''c'', VDict [])]"
proof -
  have w: "wf_dict [(SStr ''b'', VDict [(SStr ''y'', Scalar (SInt 2))]), (SStr ''c'', VDict [])]"
    by (simp add: wf_dict_def distinct_keys_def hash_key_def)
  have m: "update_dictionary
     [(SStr ''a'', Scalar (SInt 1)), (SStr ''b'', VDict [(SStr ''x'', Scalar (SInt 1))])]
     [(SStr ''b'', VDict [(SStr ''y'', Scalar (SInt 2))]), (SStr ''c'', VDict [])] =
     [(SStr ''a'', Scalar (SInt 1)),
      (SStr ''b'', VDict [(SStr ''x'', Scalar (SInt 1)), (SStr ''y'', Scalar (SInt 2))]),
      (SStr ''c'', VDict [])]"
    by (simp add: py_eq_SStr)
  from update_dictionary_merge
         [OF w, of "[(SStr ''a'', Scalar (SInt 1)), (SStr ''b'', VDict [(SStr ''x'', Scalar (SInt 1))])]"]
  have "update_dictionary
     (update_dictionary
        [(SStr ''a'', Scalar (SInt 1)), (SStr ''b'', VDict [(SStr ''x'', Scalar (SInt 1))])]
        [(SStr ''b'', VDict [(SStr ''y'', Scalar (SInt 2))]), (SStr ''c'', VDict [])])
     [(SStr ''b'', VDict [(SStr ''y'', Scalar (SInt 2))]), (SStr ''c'', VDict [])] =
     update_dictionary
        [(SStr ''a'', Scalar (SInt 1)), (SStr ''b'', VDict [(SStr ''x'', Scalar (SInt 1))])]
        [(SStr ''b'', VDict [(SStr ''y'', Scalar (SInt 2))]), (SStr ''c'', VDict [])]"
    by blast
  with w m show ?thesis by (simp only:) 
qed

section \<open>Properties of build_scenario_settings\<close>

subsection \<open>Helpers\<close>


lemma set_py_unique: "set (py_unique xs) \<subseteq> set xs"
  by (induction xs rule: py_unique.induct) auto

lemma hash_keys_py_unique: "hash_key ` set (py_unique xs) = hash_key ` set xs"
proof (induction xs rule: py_unique.induct)
  case 1
  show ?case by simp
next
  case (2 x xs)
  have "hash_key ` set (filter (\<lambda>y. \<not> py_eq x y) xs) = hash_key ` set xs - {hash_key x}"
    by (auto simp: py_eq_def)
  with 2 show ?case by auto
qed

lemma py_unique_rep: "x \<in> set xs \<Longrightarrow> \<exists>y \<in> set (py_unique xs). py_eq y x"
proof -
  assume "x \<in> set xs"
  then have "hash_key x \<in> hash_key ` set (py_unique xs)"
    by (simp add: hash_keys_py_unique)
  then show ?thesis by (auto simp: py_eq_def)
qed

lemma distinct_py_unique: "distinct (map hash_key (py_unique xs))"
proof (induction xs rule: py_unique.induct)
  case 1
  show ?case by simp
next
  case (2 x xs)
  have "hash_key x \<notin> hash_key ` set (py_unique (filter (\<lambda>y. \<not> py_eq x y) xs))"
    by (auto simp: hash_keys_py_unique py_eq_def)
  with 2 show ?case by simp
qed

text \<open>Equal keys find the same entry, in a dictionary and in a list.\<close>

lemma as_index_cong: "py_eq a b \<Longrightarrow> as_index a = Some i \<Longrightarrow> as_index b = Some j \<Longrightarrow> i = j"
  by (cases a; cases b) (auto simp: py_eq_def hash_key_def split: if_splits)

lemma subscript_cong:
  assumes "py_eq a b" and "subscript v a = Inr x" and "subscript v b = Inr y"
  shows "x = y"
proof (cases v)
  case (VDict d)
  with assms dict_get_cong[OF assms(1), of d] show ?thesis
    by (auto split: option.splits)
next
  case (VList xs)
  with assms obtain i j where "as_index a = Some i" "as_index b = Some j"
    by (auto split: option.splits)
  with as_index_cong[OF assms(1) this] assms(2,3) VList show ?thesis by simp
next
  case (Scalar s)
  show ?thesis
  proof (cases s)
    case (SStr str)
    with Scalar assms obtain i j where "as_index a = Some i" "as_index b = Some j"
      by (auto split: option.splits)
    with as_index_cong[OF assms(1) this] assms(2,3) Scalar SStr show ?thesis by simp
  qed (use Scalar assms in auto)
qed

lemma py_in_append: "py_in k (ms @ ks) \<longleftrightarrow> py_in k ms \<or> py_in k ks"
  by (auto simp: py_in_def)


lemma record_keys_ok:
  "(\<forall>k \<in> set ks. \<not> py_in k ms) \<Longrightarrow> distinct (map hash_key ks) \<Longrightarrow>
     record_keys ks ms = Inr (ms @ ks)"
  unfolding record_keys_def
proof (induction ks arbitrary: ms)
  case Nil
  then show ?case by simp
next
  case (Cons k ks)
  from Cons.prems have "\<forall>k' \<in> set ks. \<not> py_in k' (ms @ [k])" "distinct (map hash_key ks)"
    "\<not> py_in k ms"
    by (auto simp: py_in_def py_eq_def)
  with Cons.IH[of "ms @ [k]"] show ?case by simp
qed

lemma record_keys_seen:
  "k \<in> set ks \<Longrightarrow> py_in k ms \<Longrightarrow> record_keys ks ms = Inl AssertionError"
  unfolding record_keys_def
  by (induction ks arbitrary: ms) (auto simp: py_in_append)








lemma fold_dict_set_lookup:
  "dict_get (fold (\<lambda>r m. dict_set (kf r) (vf r) m) rows []) k =
     (case filter (\<lambda>r. py_eq (kf r) k) rows of [] \<Rightarrow> None | r # rs \<Rightarrow> Some (vf (last (r # rs))))"
proof (induction rows rule: rev_induct)
  case Nil
  then show ?case by simp
next
  case (snoc r rows)
  then show ?case
    by (cases "filter (\<lambda>r. py_eq (kf r) k) rows") (auto simp: dict_get_set)
qed

text \<open>A value that is equal, for pandas, to some cell is not missing.\<close>

lemma pd_eq_key: "pd_eq c0 k \<Longrightarrow> pd_eq c k = py_eq c k"
  by (auto simp: pd_eq_def py_eq_SNone)

lemma pivot_single_row:
  assumes "filter (\<lambda>r. pd_eq (r ''case_id'') cid \<and> pd_eq (r ''year'') yr) rows = [r0]"
  shows "dict_get (fold (\<lambda>r m. dict_set (r ''case_id'') (r category) m)
                  (filter (\<lambda>r. pd_eq (r ''year'') yr) rows) []) cid = Some (r0 category)"
proof -
  from assms have "r0 \<in> set (filter (\<lambda>r. pd_eq (r ''case_id'') cid \<and> pd_eq (r ''year'') yr) rows)"
    by simp
  then have "pd_eq (r0 ''case_id'') cid" by simp
  then have "pd_eq c cid = py_eq c cid" for c
    by (rule pd_eq_key)
  then have "filter (\<lambda>r. py_eq (r ''case_id'') cid) (filter (\<lambda>r. pd_eq (r ''year'') yr) rows) = [r0]"
    using assms by (simp add: conj_commute)
  then show ?thesis
    by (simp add: fold_dict_set_lookup)
qed

lemma set_categories:
  "fst ` set (planning_year_scenario_definitions_dict sd yr) =
     {c \<in> set (sd_columns sd). c \<noteq> ''case_id'' \<and> c \<noteq> ''year''}"
  by (auto simp: planning_year_scenario_definitions_dict_def set_drop_duplicates image_iff)





lemmas build_eval_simps =
  build_scenario_settings_def model_planning_period_dict_def getitem_def
  build_case_id_name_map_def path_div_def example_read_csv_def example_case_id_description_def
  column_def row_of_def year_settings_def case_settings_def deepcopy_def overlay_columns_def
  planning_year_scenario_definitions_dict_def apply_category_def record_keys_def
  py_eq_def hash_key_def pd_eq_def py_in_def


text \<open>
  The same for variants that the settings file numbers 1 and 2 while the cells of the
  table are the floats 1.0 and 2.0: the patches are found, and the build raises.
\<close>

lemma numbered_overlap_eval:
  "build_scenario_settings example_read_csv numbered_settings numbered_scenario_definitions
     = Inl AssertionError"
  by (simp add: build_eval_simps numbered_settings_def numbered_scenario_definitions_def
      numbered_row_def)


subsection \<open>When the build succeeds\<close>

lemma foldM_pure:
  assumes "\<And>x s. x \<in> set xs \<Longrightarrow> f x s = Inr (g x s)"
  shows "foldM f xs s = Inr (fold g xs s)"
  using assms by (induction xs arbitrary: s) auto

lemma fold_dict_set_fresh:
  assumes "distinct (map hash_key xs)" and "hash_key ` set xs \<inter> (\<lambda>kv. hash_key (fst kv)) ` set m = {}"
  shows "fold (\<lambda>x m. dict_set x (h x) m) xs m = m @ map (\<lambda>x. (x, h x)) xs"
  using assms
proof (induction xs arbitrary: m)
  case Nil
  then show ?case by simp
next
  case (Cons x xs)
  from Cons.prems have "hash_key x \<notin> (\<lambda>kv. hash_key (fst kv)) ` set m" by auto
  then have u: "dict_set x (h x) m = m @ [(x, h x)]"
    by (simp add: dict_set_fresh dict_get_None_iff)
  from Cons.prems have "distinct (map hash_key xs)"
    "hash_key ` set xs \<inter> (\<lambda>kv. hash_key (fst kv)) ` set (m @ [(x, h x)]) = {}"
    by auto
  from Cons.IH[OF this] u show ?case by simp
qed

lemma store_loop:
  assumes "\<And>x. x \<in> set xs \<Longrightarrow> g x = Inr (h x)" and "distinct (map hash_key xs)"
  shows "foldM (\<lambda>x m. case g x of Inl e \<Rightarrow> Inl e | Inr v \<Rightarrow> Inr (dict_set x v m)) xs []
         = Inr (map (\<lambda>x. (x, h x)) xs)"
proof -
  have "foldM (\<lambda>x m. case g x of Inl e \<Rightarrow> Inl e | Inr v \<Rightarrow> Inr (dict_set x v m)) xs []
      = Inr (fold (\<lambda>x m. dict_set x (h x) m) xs [])"
    by (rule foldM_pure) (simp add: assms(1))
  with fold_dict_set_fresh[OF assms(2), of "[]" h] show ?thesis by simp
qed

lemma dict_get_graph_None:
  "(dict_get (map (\<lambda>x. (x, h x)) xs) k = None) = (\<forall>x \<in> set xs. \<not> py_eq x k)"
  by (induction xs) auto

lemma dict_get_graph_Some:
  assumes "distinct (map hash_key xs)" and "x \<in> set xs" and "py_eq x k"
  shows "dict_get (map (\<lambda>x. (x, h x)) xs) k = Some (h x)"
  using assms
proof (induction xs)
  case Nil
  then show ?case by simp
next
  case (Cons y ys)
  show ?case
  proof (cases "y = x")
    case True
    with Cons.prems(3) show ?thesis by simp
  next
    case False
    with Cons.prems have x: "x \<in> set ys" and "hash_key y \<noteq> hash_key x" by auto
    with Cons.prems(3) have "\<not> py_eq y k" by (auto simp: py_eq_def)
    with Cons.IH[OF _ x Cons.prems(3)] Cons.prems(1) show ?thesis by simp
  qed
qed

lemma distinct_keys_graph:
  "distinct_keys (map (\<lambda>x. (x, h x)) xs) = distinct (map hash_key xs)"
  by (simp add: distinct_keys_def comp_def)

lemma overlay_columns_ok:
  assumes "filter (\<lambda>r. pd_eq (r ''case_id'') cid \<and> pd_eq (r ''year'') yr) (sd_rows sd) = [r0]"
  shows "overlay_columns sd yr cid s =
           Inr (fold (\<lambda>col s. dict_set (SStr col) (Scalar (r0 col)) s) (sd_columns sd) s)"
  unfolding overlay_columns_def Let_def assms
  by (rule foldM_pure) simp

lemma apply_category_ok:
  assumes "typed_management psm"
    and "\<And>p k. selected_patch psm cid item = Some p \<Longrightarrow> k \<in> fst ` set p \<Longrightarrow> \<not> py_in k ms"
  shows "apply_category psm cid item (s, ms) =
           Inr (case selected_patch psm cid item of
                  None \<Rightarrow> (s, ms)
                | Some p \<Rightarrow> (update_dictionary s p, ms @ map fst p))"
proof -
  obtain c cvd where item: "item = (c, cvd)" by (cases item)
  from assms(1) obtain pd where psm: "psm = VDict pd" and
    pd: "\<And>c v. dict_get pd c = Some v \<Longrightarrow>
           \<exists>vd. v = VDict vd \<and>
             (\<forall>variant p. dict_get vd variant = Some p \<longrightarrow>
                (\<exists>patch. p = VDict patch \<and> distinct_keys patch))"
    unfolding typed_management_def by blast
  show ?thesis
  proof (cases "dict_get cvd cid")
    case None
    with item show ?thesis by (simp add: apply_category_def selected_patch_def)
  next
    case (Some cv)
    show ?thesis
    proof (cases "dict_get pd (SStr c)")
      case None
      with Some item psm show ?thesis by (simp add: apply_category_def selected_patch_def)
    next
      case v: (Some v)
      from pd[OF v] obtain vd where vd: "v = VDict vd" and
        ps: "\<And>variant p. dict_get vd variant = Some p \<Longrightarrow>
                \<exists>patch. p = VDict patch \<and> distinct_keys patch"
        by blast
      show ?thesis
      proof (cases "dict_get vd cv")
        case None
        with Some v vd item psm show ?thesis
          by (simp add: apply_category_def selected_patch_def)
      next
        case p: (Some p)
        from ps[OF p] obtain patch where patch: "p = VDict patch" and d: "distinct_keys patch"
          by blast
        from Some v vd p patch item psm have sel: "selected_patch psm cid item = Some patch"
          by (simp add: selected_patch_def)
        from assms(2)[OF sel] d have "record_keys (map fst patch) ms = Inr (ms @ map fst patch)"
          by (intro record_keys_ok) (auto simp: distinct_keys_def comp_def)
        with Some v vd p patch item psm sel show ?thesis
          by (simp add: apply_category_def)
      qed
    qed
  qed
qed

text \<open>The keys a category patches for a case, none when the try block finds no patch.\<close>

lemma categories_ok:
  assumes "typed_management psm" and "distinct items"
    and "\<And>it1 it2 p1 p2 k1 k2. it1 \<in> set items \<Longrightarrow> it2 \<in> set items \<Longrightarrow> it1 \<noteq> it2 \<Longrightarrow>
           selected_patch psm cid it1 = Some p1 \<Longrightarrow> selected_patch psm cid it2 = Some p2 \<Longrightarrow>
           k1 \<in> fst ` set p1 \<Longrightarrow> k2 \<in> fst ` set p2 \<Longrightarrow> \<not> py_eq k1 k2"
    and "\<And>it p k. it \<in> set items \<Longrightarrow> selected_patch psm cid it = Some p \<Longrightarrow>
           k \<in> fst ` set p \<Longrightarrow> \<not> py_in k ms"
  shows "\<exists>s' ms'. foldM (apply_category psm cid) items (s, ms) = Inr (s', ms')"
  using assms(2-4)
proof (induction items arbitrary: s ms)
  case Nil
  then show ?case by simp
next
  case (Cons it items)
  have step: "apply_category psm cid it (s, ms) =
           Inr (case selected_patch psm cid it of
                  None \<Rightarrow> (s, ms)
                | Some p \<Rightarrow> (update_dictionary s p, ms @ map fst p))"
    by (rule apply_category_ok[OF assms(1)]) (rule Cons.prems(3)[of it], simp_all)
  obtain s1 ms1 where st: "(case selected_patch psm cid it of
                  None \<Rightarrow> (s, ms)
                | Some p \<Rightarrow> (update_dictionary s p, ms @ map fst p)) = (s1, ms1)"
    by (cases "case selected_patch psm cid it of
                  None \<Rightarrow> (s, ms)
                | Some p \<Rightarrow> (update_dictionary s p, ms @ map fst p)") auto
  have ms1: "set ms1 \<subseteq> set ms \<union> (case selected_patch psm cid it of None \<Rightarrow> {} | Some p \<Rightarrow> fst ` set p)"
    using st by (auto split: option.splits)
  from Cons.prems(1) have d: "distinct items" and notin: "it \<notin> set items" by auto
  have pair: "\<And>it1 it2 p1 p2 k1 k2. it1 \<in> set items \<Longrightarrow> it2 \<in> set items \<Longrightarrow> it1 \<noteq> it2 \<Longrightarrow>
           selected_patch psm cid it1 = Some p1 \<Longrightarrow> selected_patch psm cid it2 = Some p2 \<Longrightarrow>
           k1 \<in> fst ` set p1 \<Longrightarrow> k2 \<in> fst ` set p2 \<Longrightarrow> \<not> py_eq k1 k2"
    using Cons.prems(2) by (meson list.set_intros(2))
  have fresh: "\<not> py_in k ms1"
    if "it' \<in> set items" "selected_patch psm cid it' = Some p" "k \<in> fst ` set p" for it' p k
  proof
    assume "py_in k ms1"
    then obtain k' where k': "k' \<in> set ms1" "py_eq k' k" by (auto simp: py_in_def)
    from that Cons.prems(3)[of it' p k] have a: "\<not> py_in k ms" by simp
    with k' have "k' \<notin> set ms" by (auto simp: py_in_def)
    with k'(1) ms1 obtain q where q: "selected_patch psm cid it = Some q" "k' \<in> fst ` set q"
      by (auto split: option.splits)
    from that notin have ne: "it \<noteq> it'" by auto
    from Cons.prems(2)[of it it' q p k' k] q that ne have "\<not> py_eq k' k" by simp
    with k'(2) show False by simp
  qed
  have "\<exists>s' ms'. foldM (apply_category psm cid) items (s1, ms1) = Inr (s', ms')"
  proof (rule Cons.IH)
    show "distinct items" by (rule d)
    show "\<not> py_eq k1 k2"
      if "it1 \<in> set items" "it2 \<in> set items" "it1 \<noteq> it2"
        "selected_patch psm cid it1 = Some p1" "selected_patch psm cid it2 = Some p2"
        "k1 \<in> fst ` set p1" "k2 \<in> fst ` set p2"
      for it1 it2 p1 p2 k1 k2
      using that by (rule pair)
    show "\<not> py_in k ms1"
      if "it' \<in> set items" "selected_patch psm cid it' = Some p" "k \<in> fst ` set p" for it' p k
      using that by (rule fresh)
  qed
  with step st show ?case by simp
qed

lemma fold_dict_set_bound:
  "(dict_get (fold (\<lambda>r m. dict_set (kf r) (vf r) m) rows []) k \<noteq> None) =
     (\<exists>r \<in> set rows. py_eq (kf r) k)"
proof -
  have "(filter (\<lambda>r. py_eq (kf r) k) rows \<noteq> []) = (\<exists>r \<in> set rows. py_eq (kf r) k)"
    by (auto simp: filter_empty_conv)
  then show ?thesis
    by (cases "filter (\<lambda>r. py_eq (kf r) k) rows") (simp_all add: fold_dict_set_lookup)
qed

lemma distinct_categories:
  "distinct (planning_year_scenario_definitions_dict sd yr)"
proof -
  have "distinct (map fst (planning_year_scenario_definitions_dict sd yr))"
    by (simp add: planning_year_scenario_definitions_dict_def comp_def distinct_drop_duplicates)
  then show ?thesis by (simp add: distinct_map)
qed

lemma category_itemD:
  assumes "item \<in> set (planning_year_scenario_definitions_dict sd yr)"
  obtains c where "c \<in> set (sd_columns sd)" "c \<noteq> ''case_id''" "c \<noteq> ''year''"
    "item = (c, fold (\<lambda>r m. dict_set (r ''case_id'') (r c) m)
               (filter (\<lambda>r. pd_eq (r ''year'') yr) (sd_rows sd)) [])"
  using assms
  by (auto simp: planning_year_scenario_definitions_dict_def set_drop_duplicates)

lemma selected_patch_SomeD:
  assumes "selected_patch psm cid (c, cvd) = Some p"
  obtains cv v where "dict_get cvd cid = Some cv" "subscript psm (SStr c) = Inr v"
    "subscript v cv = Inr (VDict p)"
  using assms
  by (auto simp: selected_patch_def split: option.splits sum.splits val.splits)

text \<open>
  The settings of one case are built when the table has exactly one row for the case and
  the year, the settings management of the year has the shape of the data model, no two
  categories patch the same key, and the year and the case id are known.
\<close>

lemma case_settings_ok:
  assumes one: "filter (\<lambda>r. pd_eq (r ''case_id'') cid \<and> pd_eq (r ''year'') yr) (sd_rows sd) = [r0]"
    and typed: "typed_management psm"
    and no_overlap:
      "\<And>c1 c2 v1 v2 p1 p2 k1 k2.
         c1 \<in> set (sd_columns sd) \<Longrightarrow> c2 \<in> set (sd_columns sd) \<Longrightarrow> c1 \<noteq> c2 \<Longrightarrow>
         c1 \<noteq> ''case_id'' \<Longrightarrow> c1 \<noteq> ''year'' \<Longrightarrow> c2 \<noteq> ''case_id'' \<Longrightarrow> c2 \<noteq> ''year'' \<Longrightarrow>
         subscript psm (SStr c1) = Inr v1 \<Longrightarrow> subscript v1 (r0 c1) = Inr (VDict p1) \<Longrightarrow>
         subscript psm (SStr c2) = Inr v2 \<Longrightarrow> subscript v2 (r0 c2) = Inr (VDict p2) \<Longrightarrow>
         k1 \<in> fst ` set p1 \<Longrightarrow> k2 \<in> fst ` set p2 \<Longrightarrow> \<not> py_eq k1 k2"
    and pp: "dict_get pp yr = Some period"
    and nm: "dict_get nm cid = Some name"
  shows "\<exists>s. case_settings settings sd pp nm psm yr cid = Inr s \<and>
             dict_get s (SStr ''case_name'') = Some name"
proof -
  let ?items = "planning_year_scenario_definitions_dict sd yr"
  let ?s1 = "fold (\<lambda>col s. dict_set (SStr col) (Scalar (r0 col)) s) (sd_columns sd)
               (deepcopy settings)"
  have overlay: "overlay_columns sd yr cid (deepcopy settings) = Inr ?s1"
    by (rule overlay_columns_ok[OF one])
  have sel: "\<exists>v. subscript psm (SStr c) = Inr v \<and> subscript v (r0 c) = Inr (VDict p)"
    if "selected_patch psm cid (c, fold (\<lambda>r m. dict_set (r ''case_id'') (r c) m)
               (filter (\<lambda>r. pd_eq (r ''year'') yr) (sd_rows sd)) []) = Some p" for c p
    using that pivot_single_row[OF one, of c] by (auto elim!: selected_patch_SomeD)
  have "\<exists>s' ms'. foldM (apply_category psm cid) ?items (?s1, []) = Inr (s', ms')"
  proof (rule categories_ok[OF typed distinct_categories])
    fix it1 it2 p1 p2 k1 k2
    assume i1: "it1 \<in> set ?items" and i2: "it2 \<in> set ?items" and ne: "it1 \<noteq> it2"
      and s1: "selected_patch psm cid it1 = Some p1" and s2: "selected_patch psm cid it2 = Some p2"
      and k: "k1 \<in> fst ` set p1" "k2 \<in> fst ` set p2"
    from i1 obtain c1 where c1: "c1 \<in> set (sd_columns sd)" "c1 \<noteq> ''case_id''" "c1 \<noteq> ''year''"
      and it1: "it1 = (c1, fold (\<lambda>r m. dict_set (r ''case_id'') (r c1) m)
               (filter (\<lambda>r. pd_eq (r ''year'') yr) (sd_rows sd)) [])"
      by (rule category_itemD)
    from i2 obtain c2 where c2: "c2 \<in> set (sd_columns sd)" "c2 \<noteq> ''case_id''" "c2 \<noteq> ''year''"
      and it2: "it2 = (c2, fold (\<lambda>r m. dict_set (r ''case_id'') (r c2) m)
               (filter (\<lambda>r. pd_eq (r ''year'') yr) (sd_rows sd)) [])"
      by (rule category_itemD)
    from ne it1 it2 have "c1 \<noteq> c2" by auto
    moreover from sel[OF s1[unfolded it1]] obtain v1 where
      "subscript psm (SStr c1) = Inr v1" "subscript v1 (r0 c1) = Inr (VDict p1)" by blast
    moreover from sel[OF s2[unfolded it2]] obtain v2 where
      "subscript psm (SStr c2) = Inr v2" "subscript v2 (r0 c2) = Inr (VDict p2)" by blast
    ultimately show "\<not> py_eq k1 k2"
      using c1 c2 k by (intro no_overlap[of c1 c2 v1 p1 v2 p2 k1 k2])
  next
    fix it :: "string \<times> (scalar \<times> scalar) list" and p :: dict and k :: scalar
    show "\<not> py_in k []" by (simp add: py_in_def)
  qed
  then obtain s' ms' where
    loop: "foldM (apply_category psm cid) ?items (?s1, []) = Inr (s', ms')"
    by blast
  obtain start my where period: "period = (start, my)" by (cases period)
  let ?s = "dict_set (SStr ''case_name'') name
              (dict_set (SStr ''model_year'') my
                 (dict_set (SStr ''model_first_planning_year'') start s'))"
  from overlay loop pp nm period have "case_settings settings sd pp nm psm yr cid = Inr ?s"
    by (simp add: case_settings_def)
  moreover have "dict_get ?s (SStr ''case_name'') = Some name"
    by (simp add: dict_get_set py_eq_refl)
  ultimately show ?thesis by blast
qed

lemma model_planning_period_dict_ok:
  assumes "getitem settings ''model_year'' = Inr (VList (map Scalar model_years))"
    and "getitem settings ''model_first_planning_year'' = Inr (VList first_years)"
    and "length first_years = length model_years"
  shows "\<exists>pp. model_planning_period_dict settings = Inr pp \<and>
              (\<forall>y. py_in y model_years \<longrightarrow> dict_get pp y \<noteq> None)"
proof -
  let ?zs = "zip (map Scalar model_years) first_years"
  let ?kf = "\<lambda>x :: val \<times> val. case fst x of Scalar k \<Rightarrow> k | _ \<Rightarrow> SNone"
  let ?vf = "\<lambda>x :: val \<times> val. (snd x, fst x)"
  let ?pp = "fold (\<lambda>x m. dict_set (?kf x) (?vf x) m) ?zs []"
  have "foldM (\<lambda>(yr, start_year) m.
                 case as_key yr of Inl e \<Rightarrow> Inl e
                 | Inr k \<Rightarrow> Inr (dict_set k (start_year, yr) m)) ?zs [] = Inr ?pp"
  proof (rule foldM_pure)
    fix x :: "val \<times> val" and m :: "(scalar \<times> val \<times> val) list"
    assume xs: "x \<in> set ?zs"
    obtain a b where x: "x = (a, b)" by (cases x)
    with xs have "a \<in> set (map Scalar model_years)"
      by (meson set_zip_leftD)
    then obtain k where "a = Scalar k" by auto
    with x have "fst x = Scalar k" by simp
    then show "(case x of (yr, start_year) \<Rightarrow> \<lambda>m.
                 (case as_key yr of Inl e \<Rightarrow> Inl e
                  | Inr k \<Rightarrow> Inr (dict_set k (start_year, yr) m))) m
               = Inr (dict_set (?kf x) (?vf x) m)"
      by (cases x) simp
  qed
  with assms(1,2) have pp: "model_planning_period_dict settings = Inr ?pp"
    by (simp add: model_planning_period_dict_def)
  have "dict_get ?pp y \<noteq> None" if "py_in y model_years" for y
  proof -
    from that obtain y' where y': "y' \<in> set model_years" "py_eq y' y"
      by (auto simp: py_in_def)
    then obtain i where i: "i < length model_years" "model_years ! i = y'"
      by (auto simp: in_set_conv_nth)
    with assms(3) have "(Scalar y', first_years ! i) \<in> set ?zs"
      by (auto simp: set_zip intro!: exI[of _ i])
    with y'(2) have "\<exists>x \<in> set ?zs. py_eq (?kf x) y"
      by (intro bexI[of _ "(Scalar y', first_years ! i)"]) simp_all
    then show ?thesis
      by (simp only: fold_dict_set_bound)
  qed
  with pp show ?thesis by blast
qed

lemma build_case_id_name_map_ok:
  assumes "getitem settings ''input_folder'' = Inr folder"
    and "getitem settings ''case_id_description_fn'' = Inr fn"
    and "path_div folder fn = Inr (a, b)"
    and "read_csv a b = Inr case_id_description"
  shows "\<exists>nm. build_case_id_name_map read_csv settings = Inr nm \<and>
              (\<forall>c. py_in c (map fst case_id_description) \<longrightarrow> dict_get nm c \<noteq> None)"
proof -
  let ?vf = "\<lambda>x :: scalar \<times> string.
      Scalar (SStr (map (\<lambda>c. if c = CHR '' '' then CHR ''_'' else c) (snd x)))"
  let ?nm = "fold (\<lambda>x m. dict_set (fst x) (?vf x) m) case_id_description []"
  have "(\<lambda>(case_id, name) m. dict_set case_id
           (Scalar (SStr (map (\<lambda>c. if c = CHR '' '' then CHR ''_'' else c) name))) m)
        = (\<lambda>x m. dict_set (fst x) (?vf x) m)"
    by (auto simp: fun_eq_iff)
  with assms have "build_case_id_name_map read_csv settings = Inr ?nm"
    by (simp add: build_case_id_name_map_def)
  moreover have "\<forall>c. py_in c (map fst case_id_description) \<longrightarrow> dict_get ?nm c \<noteq> None"
    by (simp only: fold_dict_set_bound) (auto simp: py_in_def)
  ultimately show ?thesis by blast
qed

lemma pd_eq_present: "k \<noteq> SNone \<Longrightarrow> pd_eq c k = py_eq c k"
  by (auto simp: pd_eq_def py_eq_SNone)

text \<open>
  Claim C1, amended. The build succeeds, with exactly one settings dictionary for every
  pair of case id and year that has a row in the table and each with the case name of the
  map, when: the table has the columns \<open>year\<close> and \<open>case_id\<close>, no cell of them is missing,
  and there is exactly one row for every combination of a case id and a year that occur
  in it; the settings hold \<open>model_year\<close> and \<open>model_first_planning_year\<close> as lists of equal
  length, and every year of the table is a model year; \<open>input_folder\<close> is a path object
  and \<open>case_id_description_fn\<close> a file name, the file can be read, and every case id of the
  table is in it; \<open>settings_management\<close> has for every year of the table an entry of the
  shape year, category, variant, patch; and no row selects, in two different categories,
  patches with a key in common. A category or variant that the settings management does
  not have is skipped. Years, case ids and keys are compared as Python compares them.
\<close>

theorem build_scenario_settings_succeeds:
  assumes cols: "''year'' \<in> set (sd_columns scenario_definitions)"
      "''case_id'' \<in> set (sd_columns scenario_definitions)"
    and cells: "\<forall>r \<in> set (sd_rows scenario_definitions).
        r ''year'' \<noteq> SNone \<and> r ''case_id'' \<noteq> SNone"
    and rect: "\<forall>r1 \<in> set (sd_rows scenario_definitions).
        \<forall>r2 \<in> set (sd_rows scenario_definitions).
          length (filter (\<lambda>r. py_eq (r ''case_id'') (r1 ''case_id'') \<and>
                               py_eq (r ''year'') (r2 ''year''))
                    (sd_rows scenario_definitions)) = 1"
    and my: "getitem settings ''model_year'' = Inr (VList (map Scalar model_years))"
    and fy: "getitem settings ''model_first_planning_year'' = Inr (VList first_years)"
      "length first_years = length model_years"
    and yrs: "\<forall>r \<in> set (sd_rows scenario_definitions). py_in (r ''year'') model_years"
    and desc: "getitem settings ''input_folder'' = Inr folder"
      "getitem settings ''case_id_description_fn'' = Inr fn"
      "path_div folder fn = Inr (a, b)"
      "read_csv a b = Inr case_id_description"
    and names: "\<forall>r \<in> set (sd_rows scenario_definitions).
        py_in (r ''case_id'') (map fst case_id_description)"
    and sm: "getitem settings ''settings_management'' = Inr settings_management"
    and typed: "\<forall>r \<in> set (sd_rows scenario_definitions).
        \<exists>psm. subscript settings_management (r ''year'') = Inr psm \<and> typed_management psm"
    and no_overlap: "\<forall>r \<in> set (sd_rows scenario_definitions).
        \<forall>c1 c2 psm variants1 variants2 patch1 patch2 k1 k2.
          c1 \<in> set (sd_columns scenario_definitions) \<and>
          c2 \<in> set (sd_columns scenario_definitions) \<and> c1 \<noteq> c2 \<and>
          c1 \<noteq> ''case_id'' \<and> c1 \<noteq> ''year'' \<and> c2 \<noteq> ''case_id'' \<and> c2 \<noteq> ''year'' \<and>
          subscript settings_management (r ''year'') = Inr psm \<and>
          subscript psm (SStr c1) = Inr variants1 \<and>
          subscript variants1 (r c1) = Inr (VDict patch1) \<and>
          subscript psm (SStr c2) = Inr variants2 \<and>
          subscript variants2 (r c2) = Inr (VDict patch2) \<and>
          k1 \<in> fst ` set patch1 \<and> k2 \<in> fst ` set patch2 \<longrightarrow>
          \<not> py_eq k1 k2"
  shows "\<exists>res nm.
      build_scenario_settings read_csv settings scenario_definitions = Inr res \<and>
      build_case_id_name_map read_csv settings = Inr nm \<and>
      distinct_keys res \<and>
      (\<forall>(y, cases) \<in> set res. distinct_keys cases) \<and>
      (\<forall>y c. (resolved res y c \<noteq> None) =
         (\<exists>r \<in> set (sd_rows scenario_definitions).
            py_eq (r ''year'') y \<and> py_eq (r ''case_id'') c)) \<and>
      (\<forall>y c s. resolved res y c = Some s \<longrightarrow>
         dict_get nm c \<noteq> None \<and> dict_get s (SStr ''case_name'') = dict_get nm c)"
proof -
  let ?sd = scenario_definitions
  let ?rows = "sd_rows ?sd"
  let ?years = "py_unique (map (\<lambda>r. r ''year'') ?rows)"
  let ?cids = "py_unique (map (\<lambda>r. r ''case_id'') ?rows)"
  from model_planning_period_dict_ok[OF my fy] obtain pp where
    pp: "model_planning_period_dict settings = Inr pp" and
    pp_years: "\<forall>y. py_in y model_years \<longrightarrow> dict_get pp y \<noteq> None"
    by blast
  from build_case_id_name_map_ok[of settings folder fn a b read_csv, OF desc] obtain nm where
    nm: "build_case_id_name_map read_csv settings = Inr nm" and
    nm_ids: "\<forall>c. py_in c (map fst case_id_description) \<longrightarrow> dict_get nm c \<noteq> None"
    by blast
  have ycol: "column ?sd ''year'' = Inr (map (\<lambda>r. r ''year'') ?rows)"
    and ccol: "column ?sd ''case_id'' = Inr (map (\<lambda>r. r ''case_id'') ?rows)"
    using cols by (simp_all add: column_def)
  have in_years: "\<exists>r \<in> set ?rows. r ''year'' = y" if "y \<in> set ?years" for y
    using that set_py_unique[of "map (\<lambda>r. r ''year'') ?rows"] by auto
  have in_cids: "\<exists>r \<in> set ?rows. r ''case_id'' = c" if "c \<in> set ?cids" for c
    using that set_py_unique[of "map (\<lambda>r. r ''case_id'') ?rows"] by auto
  have rep_year: "\<exists>y \<in> set ?years. py_eq y (r ''year'')" if "r \<in> set ?rows" for r
    using that by (intro py_unique_rep) simp
  have rep_cid: "\<exists>c \<in> set ?cids. py_eq c (r ''case_id'')" if "r \<in> set ?rows" for r
    using that by (intro py_unique_rep) simp
  have dy: "distinct (map hash_key ?years)" and dc: "distinct (map hash_key ?cids)"
    by (rule distinct_py_unique)+
  text \<open>The row of a case id and a year of the table.\<close>
  have one: "\<exists>r0. filter (\<lambda>r. pd_eq (r ''case_id'') c \<and> pd_eq (r ''year'') y) ?rows = [r0]"
    if "y \<in> set ?years" "c \<in> set ?cids" for y c
  proof -
    from that in_years in_cids obtain r1 r2 where r: "r1 \<in> set ?rows" "r1 ''case_id'' = c"
      "r2 \<in> set ?rows" "r2 ''year'' = y"
      by blast
    with cells have "c \<noteq> SNone" "y \<noteq> SNone" by auto
    then have eq: "(\<lambda>r. pd_eq (r ''case_id'') c \<and> pd_eq (r ''year'') y)
        = (\<lambda>r. py_eq (r ''case_id'') c \<and> py_eq (r ''year'') y)"
      by (simp add: pd_eq_present)
    from r rect have "length (filter (\<lambda>r. py_eq (r ''case_id'') c \<and> py_eq (r ''year'') y) ?rows) = 1"
      by blast
    then show ?thesis
      unfolding eq
      by (cases "filter (\<lambda>r. py_eq (r ''case_id'') c \<and> py_eq (r ''year'') y) ?rows") auto
  qed
  text \<open>The settings of every case of every year are built.\<close>
  have case_ok: "\<exists>s. case_settings settings ?sd pp nm psm y c = Inr s \<and>
           dict_get nm c \<noteq> None \<and> dict_get s (SStr ''case_name'') = dict_get nm c"
    if y: "y \<in> set ?years" and c: "c \<in> set ?cids"
      and psm: "subscript settings_management y = Inr psm" for y c psm
  proof -
    from one[OF y c] obtain r0 where
      r0: "filter (\<lambda>r. pd_eq (r ''case_id'') c \<and> pd_eq (r ''year'') y) ?rows = [r0]" by blast
    then have "r0 \<in> set (filter (\<lambda>r. pd_eq (r ''case_id'') c \<and> pd_eq (r ''year'') y) ?rows)"
      by simp
    then have r0_row: "r0 \<in> set ?rows" and r0_c: "py_eq (r0 ''case_id'') c"
      and r0_y: "py_eq (r0 ''year'') y"
      by (simp_all add: pd_eq_py_eq)
    from typed r0_row obtain psm0 where
      psm0: "subscript settings_management (r0 ''year'') = Inr psm0" and tm0: "typed_management psm0"
      by blast
    from subscript_cong[OF r0_y psm0 psm] have same: "psm0 = psm" .
    with tm0 have tm: "typed_management psm" by simp
    from yrs r0_row have "py_in (r0 ''year'') model_years" by blast
    with r0_y have "py_in y model_years"
      by (auto simp: py_in_def intro: py_eq_trans)
    with pp_years have "dict_get pp y \<noteq> None" by blast
    then obtain period where period: "dict_get pp y = Some period"
      by blast
    from names r0_row have "py_in (r0 ''case_id'') (map fst case_id_description)" by blast
    with r0_c have "py_in c (map fst case_id_description)"
      by (auto simp: py_in_def intro: py_eq_trans)
    with nm_ids have "dict_get nm c \<noteq> None" by blast
    then obtain name where name: "dict_get nm c = Some name"
      by blast
    have "\<exists>s. case_settings settings ?sd pp nm psm y c = Inr s \<and>
             dict_get s (SStr ''case_name'') = Some name"
    proof (rule case_settings_ok[OF r0 tm _ period name])
      fix c1 c2 v1 v2 p1 p2 k1 k2
      assume "c1 \<in> set (sd_columns ?sd)" "c2 \<in> set (sd_columns ?sd)" "c1 \<noteq> c2"
        "c1 \<noteq> ''case_id''" "c1 \<noteq> ''year''" "c2 \<noteq> ''case_id''" "c2 \<noteq> ''year''"
        "subscript psm (SStr c1) = Inr v1" "subscript v1 (r0 c1) = Inr (VDict p1)"
        "subscript psm (SStr c2) = Inr v2" "subscript v2 (r0 c2) = Inr (VDict p2)"
        "k1 \<in> fst ` set p1" "k2 \<in> fst ` set p2"
      with no_overlap[rule_format, of r0 c1 c2 psm v1 p1 v2 p2 k1 k2] r0_row psm0 same
      show "\<not> py_eq k1 k2" by simp
    qed
    with name show ?thesis by auto
  qed
  text \<open>Hence the loop over the case ids of a year, and the loop over the years.\<close>
  define S where "S y c = projr (case_settings settings ?sd pp nm
        (projr (subscript settings_management y)) y c)" for y c
  have psm_of: "\<exists>psm. subscript settings_management y = Inr psm" if "y \<in> set ?years" for y
    using in_years[OF that] typed by blast
  have S: "case_settings settings ?sd pp nm (projr (subscript settings_management y)) y c
             = Inr (S y c) \<and>
           dict_get nm c \<noteq> None \<and> dict_get (S y c) (SStr ''case_name'') = dict_get nm c"
    if y: "y \<in> set ?years" and c: "c \<in> set ?cids" for y c
  proof -
    from psm_of[OF y] obtain psm where "subscript settings_management y = Inr psm"
      by blast
    with case_ok[OF y c this] show ?thesis
      by (auto simp: S_def)
  qed
  define H where "H y = map (\<lambda>c. (c, S y c)) ?cids" for y
  have year_ok: "year_settings settings ?sd pp nm y acc = Inr (dict_set y (H y) acc)"
    if y: "y \<in> set ?years" for y acc
  proof -
    from psm_of[OF y] obtain psm where psm: "subscript settings_management y = Inr psm"
      by blast
    have "foldM (\<lambda>case_id m.
             case case_settings settings ?sd pp nm psm y case_id of
               Inl e \<Rightarrow> Inl e
             | Inr s \<Rightarrow> Inr (dict_set case_id s m)) ?cids []
          = Inr (map (\<lambda>c. (c, S y c)) ?cids)"
      by (rule store_loop) (use S[OF y] psm dc in simp_all)
    with sm psm ccol show ?thesis
      by (simp add: year_settings_def H_def)
  qed
  have "foldM (year_settings settings ?sd pp nm) ?years [] =
          Inr (fold (\<lambda>y acc. dict_set y (H y) acc) ?years [])"
    by (rule foldM_pure) (rule year_ok)
  also have "fold (\<lambda>y acc. dict_set y (H y) acc) ?years [] = map (\<lambda>y. (y, H y)) ?years"
    using fold_dict_set_fresh[OF dy, of "[]" H] by simp
  finally have loop: "foldM (year_settings settings ?sd pp nm) ?years [] =
      Inr (map (\<lambda>y. (y, H y)) ?years)" .
  let ?res = "map (\<lambda>y. (y, H y)) ?years"
  from pp nm ycol loop have build:
    "build_scenario_settings read_csv settings ?sd = Inr ?res"
    by (simp add: build_scenario_settings_def)
  have res_Some: "resolved ?res y c = Some (S y' c')"
    if "y' \<in> set ?years" "py_eq y' y" "c' \<in> set ?cids" "py_eq c' c" for y c y' c'
    using that dict_get_graph_Some[OF dy that(1,2), of H]
      dict_get_graph_Some[OF dc that(3,4), of "S y'"]
    by (simp add: resolved_def H_def)
  have res_SomeD: "\<exists>y' \<in> set ?years. \<exists>c' \<in> set ?cids. py_eq y' y \<and> py_eq c' c \<and> s = S y' c'"
    if "resolved ?res y c = Some s" for y c s
  proof -
    from that have "dict_get ?res y \<noteq> None"
      by (auto simp: resolved_def split: option.splits)
    then obtain y' where y': "y' \<in> set ?years" "py_eq y' y"
      by (auto simp: dict_get_graph_None)
    from dict_get_graph_Some[OF dy y', of H] that have "dict_get (H y') c = Some s"
      by (simp add: resolved_def)
    then have "dict_get (H y') c \<noteq> None" by simp
    then obtain c' where c': "c' \<in> set ?cids" "py_eq c' c"
      by (auto simp: H_def dict_get_graph_None)
    from res_Some[OF y' c'] that have "s = S y' c'" by simp
    with y' c' show ?thesis by blast
  qed
  have d1: "distinct_keys ?res"
    using dy by (simp add: distinct_keys_graph)
  have d2: "\<forall>(y, cases) \<in> set ?res. distinct_keys cases"
    using dc by (auto simp: H_def distinct_keys_graph)
  have present: "(resolved ?res y c \<noteq> None) =
      (\<exists>r \<in> set ?rows. py_eq (r ''year'') y \<and> py_eq (r ''case_id'') c)" for y c
  proof
    assume "resolved ?res y c \<noteq> None"
    then obtain s where "resolved ?res y c = Some s" by blast
    from res_SomeD[OF this] obtain y' c' where
      y': "y' \<in> set ?years" "py_eq y' y" and c': "c' \<in> set ?cids" "py_eq c' c"
      by blast
    from one[OF y'(1) c'(1)] obtain r0 where
      "filter (\<lambda>r. pd_eq (r ''case_id'') c' \<and> pd_eq (r ''year'') y') ?rows = [r0]" by blast
    then have "r0 \<in> set (filter (\<lambda>r. pd_eq (r ''case_id'') c' \<and> pd_eq (r ''year'') y') ?rows)"
      by simp
    then have "r0 \<in> set ?rows" "py_eq (r0 ''case_id'') c'" "py_eq (r0 ''year'') y'"
      by (simp_all add: pd_eq_py_eq)
    with y'(2) c'(2) show "\<exists>r \<in> set ?rows. py_eq (r ''year'') y \<and> py_eq (r ''case_id'') c"
      by (meson py_eq_trans)
  next
    assume "\<exists>r \<in> set ?rows. py_eq (r ''year'') y \<and> py_eq (r ''case_id'') c"
    then obtain r where r: "r \<in> set ?rows" "py_eq (r ''year'') y" "py_eq (r ''case_id'') c"
      by blast
    from rep_year[OF r(1)] r(2) obtain y' where y': "y' \<in> set ?years" "py_eq y' y"
      by (meson py_eq_trans)
    from rep_cid[OF r(1)] r(3) obtain c' where c': "c' \<in> set ?cids" "py_eq c' c"
      by (meson py_eq_trans)
    from res_Some[OF y' c'] show "resolved ?res y c \<noteq> None" by simp
  qed
  have name: "dict_get nm c \<noteq> None \<and> dict_get s (SStr ''case_name'') = dict_get nm c"
    if "resolved ?res y c = Some s" for y c s
  proof -
    from res_SomeD[OF that] obtain y' c' where
      y': "y' \<in> set ?years" and c': "c' \<in> set ?cids" "py_eq c' c" and s: "s = S y' c'"
      by blast
    from S[OF y' c'(1)] s dict_get_cong[OF c'(2), of nm] show ?thesis by simp
  qed
  from build nm d1 d2 present name show ?thesis by blast
qed

text \<open>
  Claim C1 as it is stated fails. The table below has no category column at all, so no
  two categories patch the same key; it has rows for the case p1 in 2030 and the case p2
  in 2040 only. The build loops over every year and every case id of the table, and for
  p2 in 2030 there is no row to read the cells from.
\<close>

theorem build_scenario_settings_counterexample:
  "sd_columns sparse_scenario_definitions = [''case_id'', ''year''] \<and>
   build_scenario_settings example_read_csv sparse_settings sparse_scenario_definitions
     = Inl ScalarAccessError"
  by (simp add: build_eval_simps sparse_settings_def sparse_scenario_definitions_def)

text \<open>
  The other conditions of the amended claim are needed as well: a year without an entry
  in \<open>settings_management\<close> and a case id without a description raise KeyError outside
  the try block (lines 132 and 187), and an \<open>input_folder\<close> that is a string and not a
  path object raises TypeError at line 108.
\<close>

lemma missing_management_year_raises:
  "build_scenario_settings example_read_csv
     (dict_set (SStr ''settings_management'') (VDict []) overlap_settings)
     overlap_scenario_definitions = Inl KeyError"
  by (simp add: build_eval_simps overlap_settings_def overlap_scenario_definitions_def
      overlap_row_def)

lemma missing_case_name_raises:
  "build_scenario_settings (\<lambda>folder fn. Inr [(SStr ''p2'', ''High gas price'')])
     example_base_settings example_scenario_definitions = Inl KeyError"
  by (simp add: build_eval_simps example_base_settings_def example_scenario_definitions_def)

lemma string_folder_raises:
  "build_scenario_settings example_read_csv
     (dict_set (SStr ''input_folder'') (Scalar (SStr ''extra_inputs'')) example_base_settings)
     example_scenario_definitions = Inl TypeError"
  by (simp add: build_eval_simps example_base_settings_def example_scenario_definitions_def)

lemma example_management:
  "getitem example_base_settings ''settings_management'' =
     Inr (VDict
         [(SInt 2030,
           VDict
             [(SStr ''ng_price'',
               VDict [(SStr ''high'', VDict [(SStr ''aeo_fuel_scenario'', Scalar (SStr ''low_resource''))])]),
              (SStr ''ccs_capex'',
               VDict [(SStr ''low'', VDict [(SStr ''ccs_capex_scale'', Scalar (SFloat 0.8))])])]),
          (SInt 2040,
           VDict
             [(SStr ''ng_price'',
               VDict [(SStr ''high'', VDict [(SStr ''aeo_fuel_scenario'', Scalar (SStr ''low_resource''))])])])])"
  by (simp add: getitem_def example_base_settings_def py_eq_def hash_key_def)

text \<open>
  In the example the years of the table are the floats 2030.0 and 2040.0, the keys of
  \<open>settings_management\<close> and the model years are integers, and the result is looked up
  under the integer 2030.
\<close>

theorem build_scenario_settings_succeeds_witness:
  "\<exists>res s.
     build_scenario_settings example_read_csv example_base_settings
       example_scenario_definitions = Inr res \<and>
     resolved res (SInt 2030) (SStr ''p2'') = Some s \<and>
     dict_get s (SStr ''case_name'') = Some (Scalar (SStr ''High_gas_price'')) \<and>
     resolved res (SInt 2050) (SStr ''p2'') = None"
proof -
  let ?sm = "VDict
         [(SInt 2030,
           VDict
             [(SStr ''ng_price'',
               VDict [(SStr ''high'', VDict [(SStr ''aeo_fuel_scenario'', Scalar (SStr ''low_resource''))])]),
              (SStr ''ccs_capex'',
               VDict [(SStr ''low'', VDict [(SStr ''ccs_capex_scale'', Scalar (SFloat 0.8))])])]),
          (SInt 2040,
           VDict
             [(SStr ''ng_price'',
               VDict [(SStr ''high'', VDict [(SStr ''aeo_fuel_scenario'', Scalar (SStr ''low_resource''))])])])]"
  note ev = example_scenario_definitions_def row_of_def py_eq_def hash_key_def py_in_def
  have cols: "''year'' \<in> set (sd_columns example_scenario_definitions)"
    "''case_id'' \<in> set (sd_columns example_scenario_definitions)"
    by (simp_all add: example_scenario_definitions_def)
  have cells: "\<forall>r \<in> set (sd_rows example_scenario_definitions).
        r ''year'' \<noteq> SNone \<and> r ''case_id'' \<noteq> SNone"
    by (simp add: ev)
  have rect: "\<forall>r1 \<in> set (sd_rows example_scenario_definitions).
        \<forall>r2 \<in> set (sd_rows example_scenario_definitions).
          length (filter (\<lambda>r. py_eq (r ''case_id'') (r1 ''case_id'') \<and>
                               py_eq (r ''year'') (r2 ''year''))
                    (sd_rows example_scenario_definitions)) = 1"
    by (simp add: ev)
  have my: "getitem example_base_settings ''model_year'' = Inr (VList (map Scalar [SInt 2030, SInt 2040]))"
    and fy: "getitem example_base_settings ''model_first_planning_year'' =
        Inr (VList [Scalar (SInt 2021), Scalar (SInt 2031)])"
      "length [Scalar (SInt 2021), Scalar (SInt 2031)] = length [SInt 2030, SInt 2040]"
    and desc: "getitem example_base_settings ''input_folder'' = Inr (Scalar (SPath ''extra_inputs''))"
      "getitem example_base_settings ''case_id_description_fn'' = Inr (Scalar (SStr ''case_id_names.csv''))"
      "path_div (Scalar (SPath ''extra_inputs'')) (Scalar (SStr ''case_id_names.csv''))
         = Inr (''extra_inputs'', ''case_id_names.csv'')"
      "example_read_csv ''extra_inputs'' ''case_id_names.csv'' = Inr example_case_id_description"
    by (simp_all add: getitem_def example_base_settings_def py_eq_def hash_key_def path_div_def
        example_read_csv_def)
  have yrs: "\<forall>r \<in> set (sd_rows example_scenario_definitions).
        py_in (r ''year'') [SInt 2030, SInt 2040]"
    and names: "\<forall>r \<in> set (sd_rows example_scenario_definitions).
        py_in (r ''case_id'') (map fst example_case_id_description)"
    by (simp_all add: ev example_case_id_description_def)
  have typed: "\<forall>r \<in> set (sd_rows example_scenario_definitions).
        \<exists>psm. subscript ?sm (r ''year'') = Inr psm \<and> typed_management psm"
    by (auto simp: ev typed_management_def distinct_keys_def split: if_splits)
  have no_overlap: "\<forall>r \<in> set (sd_rows example_scenario_definitions).
        \<forall>c1 c2 psm variants1 variants2 patch1 patch2 k1 k2.
          c1 \<in> set (sd_columns example_scenario_definitions) \<and>
          c2 \<in> set (sd_columns example_scenario_definitions) \<and> c1 \<noteq> c2 \<and>
          c1 \<noteq> ''case_id'' \<and> c1 \<noteq> ''year'' \<and> c2 \<noteq> ''case_id'' \<and> c2 \<noteq> ''year'' \<and>
          subscript ?sm (r ''year'') = Inr psm \<and>
          subscript psm (SStr c1) = Inr variants1 \<and>
          subscript variants1 (r c1) = Inr (VDict patch1) \<and>
          subscript psm (SStr c2) = Inr variants2 \<and>
          subscript variants2 (r c2) = Inr (VDict patch2) \<and>
          k1 \<in> fst ` set patch1 \<and> k2 \<in> fst ` set patch2 \<longrightarrow>
          \<not> py_eq k1 k2"
    by (auto simp: ev split: if_splits)
  from build_scenario_settings_succeeds
         [where read_csv = example_read_csv and a = "''extra_inputs''"
            and b = "''case_id_names.csv''",
          OF cols cells rect my fy yrs desc names example_management typed no_overlap]
  obtain res nm where
    build: "build_scenario_settings example_read_csv example_base_settings
              example_scenario_definitions = Inr res" and
    nm: "build_case_id_name_map example_read_csv example_base_settings = Inr nm" and
    present: "\<And>y c. (resolved res y c \<noteq> None) =
         (\<exists>r \<in> set (sd_rows example_scenario_definitions).
            py_eq (r ''year'') y \<and> py_eq (r ''case_id'') c)" and
    name: "\<And>y c s. resolved res y c = Some s \<Longrightarrow>
         dict_get nm c \<noteq> None \<and> dict_get s (SStr ''case_name'') = dict_get nm c"
    by blast
  from nm have nm_p2: "dict_get nm (SStr ''p2'') = Some (Scalar (SStr ''High_gas_price''))"
    by (auto simp: build_case_id_name_map_def getitem_def example_base_settings_def
        example_case_id_description_def example_read_csv_def path_div_def py_eq_def hash_key_def)
  have "resolved res (SInt 2030) (SStr ''p2'') \<noteq> None"
    unfolding present by (simp add: ev)
  then obtain s where s: "resolved res (SInt 2030) (SStr ''p2'') = Some s" by blast
  from name[OF s] nm_p2 have
    cn: "dict_get s (SStr ''case_name'') = Some (Scalar (SStr ''High_gas_price''))"
    by simp
  have "\<not> (resolved res (SInt 2050) (SStr ''p2'') \<noteq> None)"
    unfolding present by (simp add: ev)
  then have "resolved res (SInt 2050) (SStr ''p2'') = None" by simp
  with build s cn show ?thesis by blast
qed

end
